(* ===== verification/Prelude.thy ===== *)
theory Prelude
  imports Complex_Main "HOL-Library.Sublist"
begin

text \<open>
  Shared vocabulary of the development: the named collections that the component
  theories fill, and generic lemmas on lists, options and maps that several
  components use. Nothing here models code of the repository.
\<close>

named_theorems model_simps "equations of the model that evaluate concrete runs"
named_theorems inv_intros "introduction rules of the component invariants"

type_synonym go_string = string

subsection \<open>Lists\<close>

lemma take_while_not_mem_append [simp]:
  "x \<notin> set xs \<Longrightarrow> takeWhile (\<lambda>c. c \<noteq> x) (xs @ x # ys) = xs"
  by (induction xs) auto

lemma drop_while_not_mem_append [simp]:
  "x \<notin> set xs \<Longrightarrow> dropWhile (\<lambda>c. c \<noteq> x) (xs @ x # ys) = x # ys"
  by (induction xs) auto

lemma subseq_append_single [intro]:
  "subseq xs ys \<Longrightarrow> subseq (xs @ [a]) (ys @ [a])"
  by (simp add: list_emb_append_mono)

lemma subseq_snoc_right [intro]:
  "subseq xs ys \<Longrightarrow> subseq xs (ys @ [a])"
  using list_emb_append_mono [of "(=)" xs ys "[]" "[a]"] by simp

subsection \<open>Maps\<close>

lemma map_option_map_upd_dom:
  "dom (\<lambda>c. map_option f (m c)) = dom m"
  by (auto simp: dom_def)

end
