(* ===== verification/GoLib.thy ===== *)
theory GoLib
  imports Prelude
begin

text \<open>
  The parts of Go's standard library that the repository calls and whose behaviour
  its correctness depends on: \<open>strings\<close> (TrimSpace, IndexByte, Split, Fields,
  ToLower, Contains, ReplaceAll, TrimRight), \<open>strconv\<close> (Atoi, ParseInt with base 10
  and 64 bits, Itoa, ParseFloat with 64 bits), \<open>fmt\<close>'s \<open>%.Nf\<close>,
  \<open>path/filepath.Ext\<close>, \<open>bufio.Scanner\<close> with \<open>ScanLines\<close>, and the stderr capture
  of \<open>os/exec\<close>'s \<open>Cmd.Output\<close>.
  A Go string is a byte sequence; it is modelled as \<open>string\<close>, one \<open>char\<close> per
  byte. White space and letter case are those of ASCII: the multi-byte Unicode
  spaces that \<open>unicode.IsSpace\<close> also accepts are not modelled.
\<close>

subsection \<open>Characters\<close>

definition nl :: char where "nl = CHR 0x0A"
definition cr :: char where "cr = CHR 0x0D"

definition is_space :: "char \<Rightarrow> bool" where
  "is_space c \<longleftrightarrow> c = CHR 0x20 \<or> c = CHR 0x09 \<or> c = CHR 0x0A \<or> c = CHR 0x0B
                  \<or> c = CHR 0x0C \<or> c = CHR 0x0D"

definition is_digit :: "char \<Rightarrow> bool" where
  "is_digit c \<longleftrightarrow> 48 \<le> (of_char c :: nat) \<and> (of_char c :: nat) \<le> 57"

definition digit_val :: "char \<Rightarrow> nat" where
  "digit_val c = of_char c - 48"

definition digit_char :: "nat \<Rightarrow> char" where
  "digit_char d = ''0123456789'' ! d"

definition ascii_lower :: "char \<Rightarrow> char" where
  "ascii_lower c =
     (case map_of (zip ''ABCDEFGHIJKLMNOPQRSTUVWXYZ'' ''abcdefghijklmnopqrstuvwxyz'') c of
        Some l \<Rightarrow> l
      | None \<Rightarrow> c)"

subsection \<open>strings\<close>

definition trim_space :: "string \<Rightarrow> string" where
  "trim_space s = rev (dropWhile is_space (rev (dropWhile is_space s)))"

text \<open>A string that \<open>TrimSpace\<close> leaves unchanged.\<close>

definition trimmed :: "string \<Rightarrow> bool" where
  "trimmed s \<longleftrightarrow> s = [] \<or> (\<not> is_space (hd s) \<and> \<not> is_space (last s))"

text \<open>\<open>strings.IndexByte\<close>: the first index of the byte, or -1.\<close>

fun index_byte :: "string \<Rightarrow> char \<Rightarrow> int" where
  "index_byte [] c = -1"
| "index_byte (x # xs) c =
     (if x = c then 0 else (let i = index_byte xs c in if i < 0 then -1 else i + 1))"

text \<open>\<open>strings.Split(s, sep)\<close> with a one-byte separator: n separators give n+1 parts.\<close>

fun split_on :: "char \<Rightarrow> string \<Rightarrow> string list" where
  "split_on c [] = [[]]"
| "split_on c (x # xs) =
     (if x = c then [] # split_on c xs
      else (case split_on c xs of p # ps \<Rightarrow> (x # p) # ps | [] \<Rightarrow> [[x]]))"

text \<open>\<open>strings.Fields\<close>: the maximal runs of non-space bytes.\<close>

function str_fields :: "string \<Rightarrow> string list" where
  "str_fields [] = []"
| "str_fields (c # cs) =
     (if is_space c then str_fields cs
      else (c # takeWhile (\<lambda>x. \<not> is_space x) cs) # str_fields (dropWhile (\<lambda>x. \<not> is_space x) cs))"
  by pat_completeness auto
termination
  by (relation "measure length") (auto simp: le_imp_less_Suc length_dropWhile_le)

definition to_lower :: "string \<Rightarrow> string" where
  "to_lower s = map ascii_lower s"

definition contains :: "string \<Rightarrow> string \<Rightarrow> bool" where
  "contains s sub \<longleftrightarrow> sublist sub s"

text \<open>\<open>strings.ReplaceAll(s, old, new)\<close> with a one-byte \<open>old\<close>.\<close>

definition replace_all :: "string \<Rightarrow> char \<Rightarrow> string \<Rightarrow> string" where
  "replace_all s c new = concat (map (\<lambda>x. if x = c then new else [x]) s)"

subsection \<open>strconv: integers\<close>

definition int64_min :: int where "int64_min = - (2 ^ 63)"
definition int64_max :: int where "int64_max = 2 ^ 63 - 1"

abbreviation in_int64 :: "int \<Rightarrow> bool" where
  "in_int64 v \<equiv> int64_min \<le> v \<and> v \<le> int64_max"

definition dec_value :: "string \<Rightarrow> nat" where
  "dec_value ds = foldl (\<lambda>n c. 10 * n + digit_val c) 0 ds"

text \<open>
  \<open>strconv.ParseInt(s, 10, 64)\<close>, and \<open>strconv.Atoi\<close>, which is the same function
  on a 64-bit platform: an optional sign, then one or more decimal digits; anything
  else is \<open>ErrSyntax\<close>, a value outside the int64 range is \<open>ErrRange\<close>. Both
  errors are \<open>None\<close>.
\<close>

definition parse_int64 :: "string \<Rightarrow> int option" where
  "parse_int64 s =
     (let (neg, ds) = (case s of
            c # r \<Rightarrow> (if c = CHR ''-'' then (True, r)
                      else if c = CHR ''+'' then (False, r) else (False, s))
          | [] \<Rightarrow> (False, []))
      in if ds = [] \<or> \<not> list_all is_digit ds then None
         else (let v = (if neg then - int (dec_value ds) else int (dec_value ds))
               in if in_int64 v then Some v else None))"

text \<open>
  The value \<open>strconv.ParseInt(s, 10, 64)\<close> returns beside its error: 0 on
  \<open>ErrSyntax\<close>, the nearest int64 bound on \<open>ErrRange\<close>, the number otherwise.
\<close>

definition parse_int64_value :: "string \<Rightarrow> int" where
  "parse_int64_value s =
     (let (neg, ds) = (case s of
            c # r \<Rightarrow> (if c = CHR ''-'' then (True, r)
                      else if c = CHR ''+'' then (False, r) else (False, s))
          | [] \<Rightarrow> (False, []))
      in if ds = [] \<or> \<not> list_all is_digit ds then 0
         else (let v = (if neg then - int (dec_value ds) else int (dec_value ds))
               in max int64_min (min int64_max v)))"

text \<open>\<open>strconv.Itoa\<close>.\<close>

fun nat_to_dec :: "nat \<Rightarrow> string" where
  "nat_to_dec n = (if n < 10 then [digit_char n] else nat_to_dec (n div 10) @ [digit_char (n mod 10)])"

declare nat_to_dec.simps [simp del]

definition itoa :: "int \<Rightarrow> string" where
  "itoa i = (if i < 0 then CHR ''-'' # nat_to_dec (nat (- i)) else nat_to_dec (nat i))"

subsection \<open>strconv: ParseFloat\<close>

text \<open>
  \<open>strconv.ParseFloat(s, 64)\<close>. The accepted syntax is Go's: an optional sign and
  \<open>inf\<close>, \<open>infinity\<close> or (unsigned) \<open>nan\<close> in any case; otherwise an optional
  sign, a decimal mantissa with at most one \<open>.\<close> and an optional \<open>e\<close> exponent, or
  a \<open>0x\<close> mantissa with a mandatory \<open>p\<close> exponent; underscores between digits
  (checked by \<open>underscoreOK\<close>); the exponent accumulates digits only while it is
  below 10000. A finite value is kept as the exact rational the literal denotes
  (the sign of a negative zero and the final rounding to binary64 are not kept); a
  literal whose rounding overflows, that is whose magnitude is at least
  \<open>2^1024 - 2^970\<close>, is \<open>ErrRange\<close>. Both errors are \<open>None\<close>.
\<close>

datatype go_float = GF_num rat | GF_inf bool | GF_nan

fun ci_prefix_len :: "string \<Rightarrow> string \<Rightarrow> nat" where
  "ci_prefix_len (c # s) (p # ps) = (if ascii_lower c = p then Suc (ci_prefix_len s ps) else 0)"
| "ci_prefix_len _ _ = 0"

definition special_inf :: "bool \<Rightarrow> nat \<Rightarrow> string \<Rightarrow> (go_float \<times> nat) option" where
  "special_inf neg nsign s =
     (let n = ci_prefix_len s ''infinity''; n = (if 3 < n \<and> n < 8 then 3 else n)
      in if n = 3 \<or> n = 8 then Some (GF_inf neg, nsign + n) else None)"

definition special :: "string \<Rightarrow> (go_float \<times> nat) option" where
  "special s =
     (case s of
       [] \<Rightarrow> None
     | c # r \<Rightarrow>
         if c = CHR ''+'' \<or> c = CHR ''-'' then special_inf (c = CHR ''-'') 1 r
         else if c = CHR ''i'' \<or> c = CHR ''I'' then special_inf False 0 s
         else if (c = CHR ''n'' \<or> c = CHR ''N'') \<and> ci_prefix_len s ''nan'' = 3 then Some (GF_nan, 3)
         else None)"

definition is_hex_letter :: "char \<Rightarrow> bool" where
  "is_hex_letter c \<longleftrightarrow> 97 \<le> (of_char (ascii_lower c) :: nat) \<and> (of_char (ascii_lower c) :: nat) \<le> 102"

definition mant_digit :: "bool \<Rightarrow> char \<Rightarrow> bool" where
  "mant_digit hex c \<longleftrightarrow> is_digit c \<or> (hex \<and> is_hex_letter c)"

definition mant_digit_val :: "char \<Rightarrow> nat" where
  "mant_digit_val c = (if is_digit c then digit_val c else of_char (ascii_lower c) - 87)"

text \<open>Length of the mantissa: digits, underscores and the first \<open>.\<close>.\<close>

fun mant_span :: "bool \<Rightarrow> bool \<Rightarrow> string \<Rightarrow> nat" where
  "mant_span hex dot [] = 0"
| "mant_span hex dot (c # s) =
     (if c = CHR ''.'' then (if dot then 0 else Suc (mant_span hex True s))
      else if mant_digit hex c \<or> c = CHR ''_'' then Suc (mant_span hex dot s) else 0)"

text \<open>Exponent digits: value (frozen once it reaches 10000), length, underscores seen.\<close>

fun exp_digits :: "string \<Rightarrow> nat \<Rightarrow> nat \<times> nat \<times> bool" where
  "exp_digits [] e = (e, 0, False)"
| "exp_digits (c # s) e =
     (if is_digit c then
        (let (e', k, u) = exp_digits s (if e < 10000 then 10 * e + digit_val c else e) in (e', Suc k, u))
      else if c = CHR ''_'' then (let (e', k, u) = exp_digits s e in (e', Suc k, True))
      else (e, 0, False))"

text \<open>The optional exponent after the mantissa: \<open>Some (value, length, underscores)\<close>,
  length 0 when there is none, \<open>None\<close> when it is malformed.\<close>

definition read_exp :: "char \<Rightarrow> string \<Rightarrow> (int \<times> nat \<times> bool) option" where
  "read_exp expc s =
     (case s of
       [] \<Rightarrow> Some (0, 0, False)
     | c # r \<Rightarrow>
         if ascii_lower c \<noteq> expc then Some (0, 0, False)
         else (let (neg, j, r') = (case r of
                      d # r'' \<Rightarrow> (if d = CHR ''+'' then (False, 1::nat, r'')
                                 else if d = CHR ''-'' then (True, 1, r'') else (False, 0, r))
                    | [] \<Rightarrow> (False, 0, []))
               in case r' of
                    [] \<Rightarrow> None
                  | d # _ \<Rightarrow>
                      if \<not> is_digit d then None
                      else (let (e, k, u) = exp_digits r' 0
                            in Some (if neg then - int e else int e, 1 + j + k, u))))"

fun us_scan :: "bool \<Rightarrow> nat \<Rightarrow> string \<Rightarrow> bool" where
  "us_scan hex saw [] = (saw \<noteq> 2)"
| "us_scan hex saw (c # s) =
     (if is_digit c \<or> (hex \<and> is_hex_letter c) then us_scan hex 1 s
      else if c = CHR ''_'' then saw = 1 \<and> us_scan hex 2 s
      else if saw = 2 then False
      else us_scan hex 3 s)"

text \<open>\<open>underscoreOK\<close>; the state \<open>saw\<close> is 0 for start, 1 for a digit, 2 for an
  underscore, 3 for anything else.\<close>

definition underscore_ok :: "string \<Rightarrow> bool" where
  "underscore_ok s0 =
     (let s = (case s0 of c # r \<Rightarrow> if c = CHR ''-'' \<or> c = CHR ''+'' then r else s0 | [] \<Rightarrow> [])
      in if 2 \<le> length s \<and> s ! 0 = CHR ''0''
            \<and> (ascii_lower (s ! 1) = CHR ''b'' \<or> ascii_lower (s ! 1) = CHR ''o'' \<or> ascii_lower (s ! 1) = CHR ''x'')
         then us_scan (ascii_lower (s ! 1) = CHR ''x'') 1 (drop 2 s)
         else us_scan False 0 s)"

definition scale_pow :: "nat \<Rightarrow> int \<Rightarrow> rat" where
  "scale_pow b e = (if 0 \<le> e then of_int (int b ^ nat e) else 1 / of_int (int b ^ nat (- e)))"

definition sign_prefix :: "string \<Rightarrow> bool \<times> nat" where
  "sign_prefix s =
     (case s of
       c # _ \<Rightarrow> (if c = CHR ''+'' then (False, 1) else if c = CHR ''-'' then (True, 1) else (False, 0))
     | [] \<Rightarrow> (False, 0))"

definition hex_prefix :: "string \<Rightarrow> bool" where
  "hex_prefix r \<longleftrightarrow> 2 < length r \<and> r ! 0 = CHR ''0'' \<and> ascii_lower (r ! 1) = CHR ''x''"

definition mant_value :: "bool \<Rightarrow> string \<Rightarrow> nat" where
  "mant_value hex ds = foldl (\<lambda>n c. (if hex then 16 else 10) * n + mant_digit_val c) 0 ds"

text \<open>The value of mantissa digits \<open>ds\<close> with \<open>dp\<close> of them before the point and
  exponent \<open>e\<close>: a hexadecimal digit is four bits and \<open>p\<close> scales by powers of 2.\<close>

definition literal_value :: "bool \<Rightarrow> string \<Rightarrow> nat \<Rightarrow> int \<Rightarrow> rat" where
  "literal_value hex ds dp e =
     (if hex then of_int (int (mant_value hex ds)) * scale_pow 2 (4 * (int dp - int (length ds)) + e)
      else of_int (int (mant_value hex ds)) * scale_pow 10 (int dp - int (length ds) + e))"

text \<open>\<open>readFloat\<close>: the value and the number of bytes consumed.\<close>

definition read_float :: "string \<Rightarrow> (rat \<times> nat) option" where
  "read_float s =
     (case sign_prefix s of
       (neg, i0) \<Rightarrow>
         (let hex = hex_prefix (drop i0 s);
              r = drop (if hex then i0 + 2 else i0) s;
              k = mant_span hex False r;
              m = take k r;
              ds = filter (mant_digit hex) m
          in if ds = [] then None
             else case read_exp (if hex then CHR ''p'' else CHR ''e'') (drop k r) of
               None \<Rightarrow> None
             | Some (e, ke, ue) \<Rightarrow>
                 (let i = (if hex then i0 + 2 else i0) + k + ke;
                      v = literal_value hex ds (length (filter (mant_digit hex) (takeWhile (\<lambda>c. c \<noteq> CHR ''.'') m))) e
                  in if hex \<and> ke = 0 then None
                     else if (CHR ''_'' \<in> set m \<or> ue) \<and> \<not> underscore_ok (take i s) then None
                     else Some (if neg then - v else v, i))))"

text \<open>The least magnitude that rounds to infinity: halfway between the largest
  binary64 value \<open>(2^53 - 1) * 2^971\<close> and \<open>2^1024\<close>, where ties go to the even
  mantissa, that is to \<open>2^1024\<close>.\<close>

definition float64_overflow_bound :: int where
  "float64_overflow_bound = 179769313486231580793728971405303415079934132710037826936173778980444968292764750946649017977587207096330286416692887910946555547851940402630657488671505820681908902000708383676273854845817711531764475730270069855571366959622842914819860834936475292719074168444365510704342711559699508093042880177904174497792"

definition float64_overflow :: "rat \<Rightarrow> bool" where
  "float64_overflow v \<longleftrightarrow> of_int float64_overflow_bound \<le> \<bar>v\<bar>"

definition parse_float64 :: "string \<Rightarrow> go_float option" where
  "parse_float64 s =
     (case special s of
       Some (f, n) \<Rightarrow> if n = length s then Some f else None
     | None \<Rightarrow>
         (case read_float s of
           None \<Rightarrow> None
         | Some (v, n) \<Rightarrow> if n \<noteq> length s \<or> float64_overflow v then None else Some (GF_num v)))"

text \<open>The value \<open>ParseFloat\<close> returns beside its error, for callers that drop the
  error: the infinity of the literal's sign on \<open>ErrRange\<close>, zero on \<open>ErrSyntax\<close>.\<close>

definition parse_float_value :: "string \<Rightarrow> go_float" where
  "parse_float_value s =
     (case parse_float64 s of
        Some f \<Rightarrow> f
      | None \<Rightarrow>
          (case read_float s of
             Some (v, n) \<Rightarrow> if n = length s \<and> float64_overflow v then GF_inf (v < 0) else GF_num 0
           | None \<Rightarrow> GF_num 0))"

subsection \<open>path/filepath.Ext\<close>

text \<open>The suffix of the last path element from its last dot, or the empty string.\<close>

definition path_ext :: "string \<Rightarrow> string" where
  "path_ext p =
     (let r = takeWhile (\<lambda>c. c \<noteq> CHR ''/'') (rev p)
      in if CHR ''.'' \<in> set r then CHR ''.'' # rev (takeWhile (\<lambda>c. c \<noteq> CHR ''.'') r) else [])"

subsection \<open>bufio.Scanner with ScanLines\<close>

text \<open>
  The scanner returns the lines of its input without their \<open>\n\<close> and without one
  trailing \<open>\r\<close>; a last line without \<open>\n\<close> is returned when it is not empty. A line
  of \<open>bufio.MaxScanTokenSize\<close> (64 KiB) bytes or more does not fit the buffer: the
  scan stops there with \<open>ErrTooLong\<close> (the boolean of the result).
\<close>

definition max_scan_token_size :: nat where "max_scan_token_size = 65536"

definition drop_cr :: "string \<Rightarrow> string" where
  "drop_cr l = (if l \<noteq> [] \<and> last l = cr then butlast l else l)"

fun take_lines :: "string list \<Rightarrow> string list \<times> bool" where
  "take_lines [] = ([], False)"
| "take_lines (l # ls) =
     (if max_scan_token_size \<le> length l then ([], True)
      else (let (r, e) = take_lines ls in (drop_cr l # r, e)))"

definition scan_lines :: "string \<Rightarrow> string list \<times> bool" where
  "scan_lines s =
     (let segs = split_on nl s in take_lines (if last segs = [] then butlast segs else segs))"

subsection \<open>strings.TrimRight and fmt's fixed-point verbs\<close>

text \<open>\<open>strings.TrimRight(s, cutset)\<close> with a one-byte cut set.\<close>

definition trim_right :: "char \<Rightarrow> string \<Rightarrow> string" where
  "trim_right c s = rev (dropWhile (\<lambda>x. x = c) (rev s))"

text \<open>
  \<open>fmt.Sprintf("%.<p>f", v)\<close> for a float64 \<open>v\<close>. \<open>strconv\<close> formats the
  exact value and rounds it at \<open>p\<close> decimals to the nearest, a tie to the even
  neighbour (\<open>decimal.Round\<close>, \<open>shouldRoundUp\<close>); the sign is printed for every
  negative value, also one that rounds to zero; \<open>fmt\<close> prints the infinities with
  their sign and NaN without.
\<close>

definition round_half_even :: "rat \<Rightarrow> int" where
  "round_half_even x =
     (let f = \<lfloor>x\<rfloor>; r = x - of_int f
      in if r < 1/2 then f else if 1/2 < r then f + 1 else if even f then f else f + 1)"

definition pad_left :: "nat \<Rightarrow> string \<Rightarrow> string" where
  "pad_left n s = replicate (n - length s) (CHR ''0'') @ s"

definition fmt_fixed :: "nat \<Rightarrow> go_float \<Rightarrow> string" where
  "fmt_fixed p v =
     (case v of
        GF_nan \<Rightarrow> ''NaN''
      | GF_inf neg \<Rightarrow> (if neg then ''-Inf'' else ''+Inf'')
      | GF_num q \<Rightarrow>
          (let ds = pad_left (Suc p) (nat_to_dec (nat (round_half_even (\<bar>q\<bar> * of_int (10 ^ p)))))
           in (if q < 0 then ''-'' else []) @ take (length ds - p) ds
              @ (if p = 0 then [] else CHR ''.'' # drop (length ds - p) ds)))"

subsection \<open>os/exec: the stderr that Cmd.Output keeps\<close>

text \<open>\<open>Cmd.Output\<close> without a \<open>Stderr\<close> writer collects stderr in a
  \<open>prefixSuffixSaver\<close> of 32 KiB: the first and the last 32 KiB, and between them
  the line \<open>... omitting N bytes ...\<close> when bytes were skipped
  (\<open>prefixSuffixSaver.Bytes\<close>).\<close>

definition saver_n :: nat where "saver_n = 32768"

definition stderr_capture :: "string \<Rightarrow> string" where
  "stderr_capture s =
     (if length s \<le> 2 * saver_n then s
      else take saver_n s @ [nl] @ ''... omitting '' @ itoa (int (length s - 2 * saver_n))
           @ '' bytes ...'' @ [nl] @ drop (length s - saver_n) s)"

subsection \<open>Lemmas\<close>

lemma float64_overflow_bound_eq: "float64_overflow_bound = 2 ^ 1024 - 2 ^ 970"
  by (simp add: float64_overflow_bound_def)

lemma trim_space_trimmed [simp]: "trimmed s \<Longrightarrow> trim_space s = s"
proof (cases s)
  case Nil
  then show ?thesis by (simp add: trim_space_def)
next
  case (Cons c cs)
  assume t: "trimmed s"
  with Cons have hd: "\<not> is_space c" and lst: "\<not> is_space (last s)"
    by (auto simp: trimmed_def)
  have "rev s = last s # rev (butlast s)"
    using Cons by (metis append_butlast_last_id list.distinct(1) rev.simps(2) rev_rev_ident)
  with hd lst Cons show ?thesis by (simp add: trim_space_def)
qed

lemma set_trim_space: "set (trim_space s) \<subseteq> set s"
proof
  fix x
  assume "x \<in> set (trim_space s)"
  then have "x \<in> set (rev (dropWhile is_space s))"
    unfolding trim_space_def by (metis set_dropWhileD set_rev)
  then show "x \<in> set s" by (metis set_dropWhileD set_rev)
qed

lemma trim_space_lead_nonspace:
  assumes "list_all is_space w" "\<not> is_space c"
  shows "\<exists>t. trim_space (w @ c # v) = c # t"
proof -
  have d: "dropWhile is_space (w @ c # v) = c # v"
    using assms by (simp add: dropWhile_append list_all_iff)
  have "dropWhile is_space (rev v @ [c]) = dropWhile is_space (rev v) @ [c] \<or>
        dropWhile is_space (rev v @ [c]) = [c]"
    using assms(2) by (simp add: dropWhile_append)
  then show ?thesis
  proof
    assume "dropWhile is_space (rev v @ [c]) = dropWhile is_space (rev v) @ [c]"
    then have "trim_space (w @ c # v) = c # rev (dropWhile is_space (rev v))"
      by (simp add: trim_space_def d)
    then show ?thesis by blast
  next
    assume "dropWhile is_space (rev v @ [c]) = [c]"
    then have "trim_space (w @ c # v) = [c]"
      by (simp add: trim_space_def d)
    then show ?thesis by blast
  qed
qed

lemma is_digit_not_space: "is_digit c \<Longrightarrow> \<not> is_space c"
  by (auto simp: is_digit_def is_space_def)

lemma index_byte_not_mem: "c \<notin> set s \<Longrightarrow> index_byte s c = -1"
  by (induction s) (auto simp: Let_def)

lemma index_byte_append: "c \<notin> set k \<Longrightarrow> index_byte (k @ c # v) c = int (length k)"
  by (induction k) (auto simp: Let_def)

lemma trimmed_kv:
  "k \<noteq> [] \<Longrightarrow> \<not> is_space (hd k) \<Longrightarrow> (v = [] \<or> \<not> is_space (last v)) \<Longrightarrow> trimmed (k @ ''='' @ v)"
  by (auto simp: trimmed_def is_space_def)

lemma parse_int64_range: "parse_int64 v = Some n \<Longrightarrow> in_int64 n"
  by (auto simp: parse_int64_def Let_def split: if_splits prod.splits list.splits)

lemma parse_int64_value_range: "in_int64 (parse_int64_value s)"
  by (auto simp: parse_int64_value_def Let_def int64_min_def int64_max_def
           split: prod.splits list.splits)

lemma parse_int64_value_ok: "parse_int64 s = Some v \<Longrightarrow> parse_int64_value s = v"
  by (auto simp: parse_int64_def parse_int64_value_def Let_def split: if_splits prod.splits list.splits)

lemma digit_char_props:
  assumes "d < 10"
  shows "is_digit (digit_char d) \<and> digit_val (digit_char d) = d"
proof -
  from assms have "d = 0 \<or> d = 1 \<or> d = 2 \<or> d = 3 \<or> d = 4 \<or> d = 5 \<or> d = 6 \<or> d = 7 \<or> d = 8 \<or> d = 9"
    by arith
  then show ?thesis
    by (elim disjE) (simp_all add: is_digit_def digit_val_def digit_char_def)
qed

lemma dec_value_snoc: "dec_value (xs @ [c]) = 10 * dec_value xs + digit_val c"
  by (simp add: dec_value_def)

lemma nat_to_dec_props:
  "nat_to_dec n \<noteq> [] \<and> list_all is_digit (nat_to_dec n) \<and> dec_value (nat_to_dec n) = n"
proof (induction n rule: nat_to_dec.induct)
  case (1 n)
  show ?case
  proof (cases "n < 10")
    case True
    then show ?thesis
      using digit_char_props [OF True] by (simp add: nat_to_dec.simps [of n] dec_value_def)
  next
    case False
    have "n mod 10 < 10" by simp
    note d = digit_char_props [OF this]
    from False "1.IH" d show ?thesis
      by (simp add: nat_to_dec.simps [of n] dec_value_snoc)
  qed
qed

text \<open>\<open>Atoi(Itoa(i)) = i\<close> on the int64 range.\<close>

lemma parse_int64_itoa: "in_int64 i \<Longrightarrow> parse_int64 (itoa i) = Some i"
proof -
  assume r: "in_int64 i"
  obtain c cs where nd: "nat_to_dec (nat \<bar>i\<bar>) = c # cs"
    using nat_to_dec_props by (metis list.exhaust)
  have "is_digit c" using nat_to_dec_props [of "nat \<bar>i\<bar>"] nd by simp
  then have "c \<noteq> CHR ''-'' \<and> c \<noteq> CHR ''+''" by (auto simp: is_digit_def)
  then show ?thesis
    using r nat_to_dec_props [of "nat \<bar>i\<bar>"] nd
    by (auto simp: itoa_def parse_int64_def)
qed

lemma itoa_abs: "itoa i = (if i < 0 then ''-'' else []) @ nat_to_dec (nat \<bar>i\<bar>)"
  by (simp add: itoa_def)

lemma itoa_digits: "0 \<le> i \<Longrightarrow> itoa i \<noteq> [] \<and> list_all is_digit (itoa i)"
  using nat_to_dec_props [of "nat i"] by (simp add: itoa_def)

lemma split_on_ne: "split_on c s \<noteq> []"
  by (induction s) (auto split: list.split)

lemma split_on_append_sep: "c \<notin> set a \<Longrightarrow> split_on c (a @ c # b) = a # split_on c b"
proof (induction a)
  case Nil
  then show ?case by simp
next
  case (Cons x xs)
  then show ?case by auto
qed

lemma replace_all_del: "replace_all s c [] = filter (\<lambda>x. x \<noteq> c) s"
  by (induction s) (auto simp: replace_all_def)

lemma trim_space_pad:
  assumes "list_all is_space w1" "list_all is_space w2" "x \<noteq> []" "\<not> is_space (hd x)" "\<not> is_space (last x)"
  shows "trim_space (w1 @ x @ w2) = x"
proof -
  have hd: "ys \<noteq> [] \<Longrightarrow> \<not> is_space (hd ys) \<Longrightarrow> dropWhile is_space (ys @ zs) = ys @ zs" for ys zs
    by (cases ys) auto
  have "dropWhile is_space (w1 @ x @ w2) = x @ w2"
    using assms(1,3,4) hd [of x w2] by (simp add: list_all_iff)
  moreover have "dropWhile is_space (rev w2 @ rev x) = rev x"
    using assms(2,3,5) hd [of "rev x" "[]"] dropWhile_append2 [of "rev w2" is_space "rev x"]
    by (simp add: list_all_iff hd_rev)
  ultimately show ?thesis by (simp add: trim_space_def)
qed

lemma itoa_ends:
  "itoa n \<noteq> [] \<and> \<not> is_space (hd (itoa n)) \<and> \<not> is_space (last (itoa n))"
proof -
  obtain c cs where nd: "nat_to_dec (nat \<bar>n\<bar>) = c # cs"
    using nat_to_dec_props by (metis list.exhaust)
  have "list_all is_digit (c # cs)" using nat_to_dec_props [of "nat \<bar>n\<bar>"] nd by simp
  then have "\<not> is_space c \<and> \<not> is_space (last (c # cs))"
    by (auto simp: is_digit_not_space list_all_iff)
  then show ?thesis
    using nd by (auto simp: itoa_abs is_space_def)
qed

end
