(* ===== verification/Progress.thy ===== *)
theory Progress
  imports GoLib
begin

text \<open>
  The progress decoder of \<open>src/unnamed/part_000\<close> (its first file: \<open>FFmpegProgress\<close>,
  \<open>applyKV\<close>, \<open>parseProgressLine\<close>) and the reading loop \<open>scanProgress\<close> of
  \<open>src/media/ffmpeg/run.go\<close>. The field \<open>Extra\<close> is a Go map, that is a reference:
  copies of a progress value share it. It is modelled as an address into a store of
  maps (\<open>map_heap\<close>); \<open>nil\<close> is \<open>None\<close>.
\<close>

type_synonym str_map = "string \<rightharpoonup> string"
type_synonym map_heap = "str_map list"

record ffmpeg_progress =
  Frame :: int
  FPS :: go_float
  Bitrate :: string
  Speed :: string
  OutTimeMs :: int
  Done :: bool
  Extra :: "nat option"

type_synonym progress_state = "ffmpeg_progress \<times> map_heap"

text \<open>The zero value \<open>var p FFmpegProgress\<close>.\<close>

definition zero_progress :: ffmpeg_progress where
  "zero_progress = \<lparr>Frame = 0, FPS = GF_num 0, Bitrate = [], Speed = [], OutTimeMs = 0,
                    Done = False, Extra = None\<rparr>"

text \<open>\<open>p.Extra[k] = v\<close>, allocating the map first when it is \<open>nil\<close>.\<close>

definition set_extra :: "string \<Rightarrow> string \<Rightarrow> progress_state \<Rightarrow> progress_state" where
  "set_extra k v ph =
     (case ph of (p, h) \<Rightarrow>
       (case Extra p of
          None \<Rightarrow> (p\<lparr>Extra := Some (length h)\<rparr>, h @ [Map.empty(k \<mapsto> v)])
        | Some a \<Rightarrow> (p, h[a := (h ! a)(k \<mapsto> v)])))"

definition applyKV :: "string \<Rightarrow> string \<Rightarrow> progress_state \<Rightarrow> progress_state" where
  "applyKV k v ph =
     (case ph of (p, h) \<Rightarrow>
       if k = ''frame'' then (case parse_int64 v of Some n \<Rightarrow> (p\<lparr>Frame := n\<rparr>, h) | None \<Rightarrow> (p, h))
       else if k = ''fps'' then (case parse_float64 v of Some f \<Rightarrow> (p\<lparr>FPS := f\<rparr>, h) | None \<Rightarrow> (p, h))
       else if k = ''bitrate'' then (p\<lparr>Bitrate := v\<rparr>, h)
       else if k = ''speed'' then (p\<lparr>Speed := v\<rparr>, h)
       else if k = ''out_time_ms'' then
         (case parse_int64 v of Some n \<Rightarrow> (p\<lparr>OutTimeMs := n\<rparr>, h) | None \<Rightarrow> (p, h))
       else if k = ''progress'' then (p\<lparr>Done := (v = ''end'')\<rparr>, h)
       else set_extra k v (p, h))"

definition parseProgressLine :: "string \<Rightarrow> progress_state \<Rightarrow> progress_state" where
  "parseProgressLine line0 ph =
     (let line = trim_space line0
      in if line = [] then ph
         else (let i = index_byte line (CHR ''='')
               in if i \<le> 0 then ph else applyKV (take (nat i) line) (drop (nat i + 1) line) ph))"

text \<open>
  \<open>scanProgress\<close>. The callback \<open>cb\<close> is \<open>None\<close> for a nil function; otherwise it
  gets the caller's state, the snapshot \<open>p\<close> (a copy that shares \<open>Extra\<close>) and the
  store, and returns the new caller state and whether it returned a non-nil error.
  The loop runs over the lines the scanner yields, keeps the decoder state \<open>p\<close>
  (starting from the zero value) and writes every new state to \<open>*last\<close>. It
  returns the last state, the caller state, and why it stopped: end of input
  (including a scanner error), \<open>progress=end\<close>, or an abort, after which
  \<open>cancel()\<close> has been called.
\<close>

datatype scan_end = Scan_eof | Scan_done | Scan_abort

type_synonym 's progress_cb = "'s \<Rightarrow> ffmpeg_progress \<Rightarrow> map_heap \<Rightarrow> 's \<times> bool"

fun scan_loop ::
  "'s progress_cb option \<Rightarrow> string list \<Rightarrow> progress_state \<Rightarrow> ffmpeg_progress \<Rightarrow> 's
   \<Rightarrow> ffmpeg_progress \<times> map_heap \<times> 's \<times> scan_end" where
  "scan_loop cb [] (p, h) lastp s = (lastp, h, s, Scan_eof)"
| "scan_loop cb (l # ls) ph lastp s =
     (case parseProgressLine l ph of (p', h') \<Rightarrow>
       (case cb of
          Some f \<Rightarrow>
            (case f s p' h' of (s', err) \<Rightarrow>
              if err then (p', h', s', Scan_abort)
              else if Done p' then (p', h', s', Scan_done)
              else scan_loop cb ls (p', h') p' s')
        | None \<Rightarrow> if Done p' then (p', h', s, Scan_done) else scan_loop cb ls (p', h') p' s))"

definition scanProgress ::
  "string \<Rightarrow> ffmpeg_progress \<Rightarrow> map_heap \<Rightarrow> 's progress_cb option \<Rightarrow> 's
   \<Rightarrow> ffmpeg_progress \<times> map_heap \<times> 's \<times> scan_end" where
  "scanProgress r lastp h cb s = scan_loop cb (fst (scan_lines r)) (zero_progress, h) lastp s"

subsection \<open>Invariant, views and reference definitions\<close>

text \<open>Well-formedness of a decoder state: the \<open>Extra\<close> reference points into the store,
  and the integer fields hold int64 values.\<close>

definition progress_wf :: "progress_state \<Rightarrow> bool" where
  "progress_wf ph \<longleftrightarrow>
     (case ph of (p, h) \<Rightarrow>
       (\<forall>a. Extra p = Some a \<longrightarrow> a < length h) \<and> in_int64 (Frame p) \<and> in_int64 (OutTimeMs p))"

text \<open>The map a progress value shows through \<open>Extra\<close> in a given store.\<close>

definition extra_of :: "progress_state \<Rightarrow> str_map option" where
  "extra_of ph = (case ph of (p, h) \<Rightarrow> map_option (\<lambda>a. h ! a) (Extra p))"

definition known_key :: "string \<Rightarrow> bool" where
  "known_key k \<longleftrightarrow> k \<in> {''frame'', ''fps'', ''bitrate'', ''speed'', ''out_time_ms'', ''progress''}"

text \<open>The decoder states after each line, and the prefix of a list up to and including
  the first element with a property: the reference behaviour of the reading loop.\<close>

fun decode_trace :: "progress_state \<Rightarrow> string list \<Rightarrow> progress_state list" where
  "decode_trace ph [] = []"
| "decode_trace ph (l # ls) = parseProgressLine l ph # decode_trace (parseProgressLine l ph) ls"

fun take_until :: "('a \<Rightarrow> bool) \<Rightarrow> 'a list \<Rightarrow> 'a list" where
  "take_until P [] = []"
| "take_until P (x # xs) = (if P x then [x] else x # take_until P xs)"

text \<open>A sink that records every snapshot it is given and never aborts.\<close>

definition record_cb :: "ffmpeg_progress list progress_cb" where
  "record_cb tr p h = (tr @ [p], False)"

subsection \<open>The decoder\<close>

text \<open>C16: a progress line \<open>k=v\<close> whose key is non-empty and holds no \<open>=\<close>, and which TrimSpace leaves unchanged, is folded into the decoder state exactly as the pair \<open>(k, v)\<close> by applyKV: the wire format \<open>key=value\<close> decodes to its key and value.\<close>

lemma parseProgressLine_kv:
  assumes "k \<noteq> []" "CHR ''='' \<notin> set k" "trimmed (k @ ''='' @ v)"
  shows "parseProgressLine (k @ ''='' @ v) ph = applyKV k v ph"
proof -
  have "index_byte (k @ ''='' @ v) (CHR ''='') = int (length k)"
    using assms(2) index_byte_append [of "CHR ''=''" k v] by simp
  then show ?thesis
    using assms by (simp add: parseProgressLine_def Let_def)
qed

lemma parseProgressLine_kv_witness:
  "''speed'' \<noteq> [] \<and> CHR ''='' \<notin> set ''speed'' \<and> trimmed (''speed'' @ ''='' @ ''1.02x'') \<and>
   parseProgressLine (''speed'' @ ''='' @ ''1.02x'') (zero_progress, []) = applyKV ''speed'' ''1.02x'' (zero_progress, [])"
proof -
  have t: "trimmed (''speed'' @ ''='' @ ''1.02x'')" by (simp add: trimmed_def is_space_def)
  show ?thesis using parseProgressLine_kv [of "''speed''" "''1.02x''" "(zero_progress, [])"] t by simp
qed

text \<open>a line without \<open>=\<close>, or whose key is empty once white space is trimmed, leaves the decoder state (and the map store) unchanged: such lines are silently ignored.\<close>

lemma parseProgressLine_ignored:
  assumes "CHR ''='' \<notin> set l \<or> (\<exists>w v. l = w @ ''='' @ v \<and> list_all is_space w)"
  shows "parseProgressLine l ph = ph"
  using assms
proof
  assume "CHR ''='' \<notin> set l"
  then have "CHR ''='' \<notin> set (trim_space l)" using set_trim_space by blast
  then show ?thesis by (simp add: parseProgressLine_def index_byte_not_mem Let_def)
next
  assume "\<exists>w v. l = w @ ''='' @ v \<and> list_all is_space w"
  then obtain w v where l: "l = w @ CHR ''='' # v" and w: "list_all is_space w" by auto
  have "\<not> is_space (CHR ''='')" by (simp add: is_space_def)
  with w obtain t where "trim_space l = CHR ''='' # t"
    using trim_space_lead_nonspace l by blast
  then show ?thesis by (simp add: parseProgressLine_def Let_def)
qed

lemma parseProgressLine_ignored_witness:
  "CHR ''='' \<notin> set ''garbage'' \<and> parseProgressLine ''garbage'' (zero_progress, []) = (zero_progress, [])"
  using parseProgressLine_ignored [of "''garbage''" "(zero_progress, [])"] by simp

lemma zero_progress_wf [simp]: "progress_wf (zero_progress, h)"
  by (simp add: progress_wf_def zero_progress_def int64_min_def int64_max_def)





lemma applyKV_frame:
  "applyKV ''frame'' v (p, h) = (case parse_int64 v of Some n \<Rightarrow> (p\<lparr>Frame := n\<rparr>, h) | None \<Rightarrow> (p, h))"
  by (simp add: applyKV_def)

text \<open>for every int64 value n, the line \<open>frame=\<close> followed by the decimal text of n (strconv.Itoa) sets Frame to n.\<close>

lemma frame_line_decodes:
  assumes "in_int64 n"
  shows "Frame (fst (parseProgressLine (''frame='' @ itoa n) ph)) = n"
proof -
  have dg: "list_all is_digit (nat_to_dec (nat \<bar>n\<bar>))"
    using nat_to_dec_props [of "nat \<bar>n\<bar>"] by simp
  have "\<not> is_space (last (itoa n))"
  proof -
    have "last (itoa n) = last (nat_to_dec (nat \<bar>n\<bar>))"
      using nat_to_dec_props [of "nat \<bar>n\<bar>"] by (simp add: itoa_abs)
    moreover have "is_digit (last (nat_to_dec (nat \<bar>n\<bar>)))"
      using dg nat_to_dec_props [of "nat \<bar>n\<bar>"] by (simp add: list_all_iff)
    ultimately show ?thesis by (simp add: is_digit_not_space)
  qed
  then have "trimmed (''frame'' @ ''='' @ itoa n)"
    by (intro trimmed_kv) (simp_all add: is_space_def)
  then have "parseProgressLine (''frame'' @ ''='' @ itoa n) ph = applyKV ''frame'' (itoa n) ph"
    by (intro parseProgressLine_kv) simp_all
  then show ?thesis
    using parse_int64_itoa [OF assms] by (cases ph) (simp add: applyKV_frame)
qed

lemma frame_line_decodes_witness:
  "in_int64 120 \<and> Frame (fst (parseProgressLine (''frame='' @ itoa 120) (zero_progress, []))) = 120"
proof -
  have r: "in_int64 120" by (simp add: int64_min_def int64_max_def)
  show ?thesis using frame_line_decodes [OF r] r by simp
qed

text \<open>a \<open>frame=\<close> line whose value is not a valid int64 literal leaves the whole decoder state unchanged, so the previous Frame is kept (the spec example: frame=120 then frame=abc gives 120).\<close>

lemma frame_malformed_kept:
  assumes "parse_int64 v = None" "trimmed (''frame='' @ v)"
  shows "parseProgressLine (''frame='' @ v) ph = ph"
proof -
  have "parseProgressLine (''frame'' @ ''='' @ v) ph = applyKV ''frame'' v ph"
    using assms(2) by (intro parseProgressLine_kv) simp_all
  then show ?thesis using assms(1) by (cases ph) (simp add: applyKV_frame)
qed

lemma frame_malformed_kept_witness:
  "parse_int64 ''abc'' = None \<and> trimmed (''frame='' @ ''abc'') \<and>
   Frame (fst (parseProgressLine (''frame='' @ ''abc'') (zero_progress\<lparr>Frame := 120\<rparr>, []))) = 120"
proof -
  have p: "parse_int64 ''abc'' = None" by (simp add: parse_int64_def is_digit_def)
  have t: "trimmed (''frame='' @ ''abc'')" by (simp add: trimmed_def is_space_def)
  show ?thesis using frame_malformed_kept [OF p t, of "(zero_progress\<lparr>Frame := 120\<rparr>, [])"] p t by simp
qed

text \<open>a key that is none of frame, fps, bitrate, speed, out_time_ms, progress is stored verbatim in Extra: the map seen through the new state is the old one (or the empty map when Extra was nil) updated at the key.\<close>

lemma applyKV_unknown:
  assumes "progress_wf (p, h)" "\<not> known_key k"
  shows "extra_of (applyKV k v (p, h)) =
           Some ((case extra_of (p, h) of None \<Rightarrow> Map.empty | Some m \<Rightarrow> m)(k \<mapsto> v))"
proof -
  have ak: "applyKV k v (p, h) = set_extra k v (p, h)"
    using assms(2) by (simp add: applyKV_def known_key_def)
  show ?thesis
  proof (cases "Extra p")
    case None
    then show ?thesis by (simp add: ak set_extra_def extra_of_def)
  next
    case (Some a)
    with assms(1) have "a < length h" by (simp add: progress_wf_def)
    with Some show ?thesis by (simp add: ak set_extra_def extra_of_def)
  qed
qed

lemma applyKV_unknown_witness:
  "progress_wf (zero_progress, []) \<and> \<not> known_key ''dup_frames'' \<and>
   extra_of (applyKV ''dup_frames'' ''0'' (zero_progress, [])) = Some (Map.empty(''dup_frames'' \<mapsto> ''0''))"
proof -
  have k: "\<not> known_key ''dup_frames''" by (simp add: known_key_def)
  have e: "extra_of (zero_progress, []) = None" by (simp add: extra_of_def zero_progress_def)
  show ?thesis using applyKV_unknown [OF zero_progress_wf k, of "''0''"] k e by simp
qed

lemma applyKV_extra_stable:
  "Extra p = Some a \<Longrightarrow> Extra (fst (applyKV k v (p, h))) = Some a"
  unfolding applyKV_def by (simp add: set_extra_def split: option.splits)

lemma parseProgressLine_extra_stable:
  "Extra (fst ph) = Some a \<Longrightarrow> Extra (fst (parseProgressLine l ph)) = Some a"
  by (cases ph) (simp add: parseProgressLine_def applyKV_extra_stable Let_def)

lemma parseProgressLine_end: "parseProgressLine ''progress=end'' (p, h) = (p\<lparr>Done := True\<rparr>, h)"
  by (simp add: parseProgressLine_def trim_space_def is_space_def applyKV_def)

lemma parseProgressLine_end_done: "Done (fst (parseProgressLine ''progress=end'' ph))"
  by (cases ph) (simp add: parseProgressLine_end)

subsection \<open>The reading loop\<close>

text \<open>C17: for any callback, the reading loop never reads a line after \<open>progress=end\<close>: the lines that follow it do not change the result, the snapshots delivered or the caller state.\<close>

lemma scan_loop_after_end:
  "scan_loop cb (ls @ ''progress=end'' # rest) ph lastp s = scan_loop cb (ls @ [''progress=end'']) ph lastp s"
proof (induction ls arbitrary: ph lastp s)
  case Nil
  have "Done (fst (parseProgressLine ''progress=end'' ph))" by (rule parseProgressLine_end_done)
  then show ?case
    by (cases "parseProgressLine ''progress=end'' ph") (auto split: option.splits prod.splits)
next
  case (Cons l ls)
  then show ?case
    by (cases "parseProgressLine l ph") (auto split: option.splits prod.splits)
qed

text \<open>C18: the snapshots handed to the sink are, in order, the decoder states after each line read, up to and including the first one with Done set: the loop is the fold of parseProgressLine over the lines, stopped at progress=end.\<close>

lemma scan_loop_record:
  "fst (snd (snd (scan_loop (Some record_cb) ls ph lastp tr)))
     = tr @ map fst (take_until (\<lambda>q. Done (fst q)) (decode_trace ph ls))"
proof (induction ls arbitrary: ph lastp tr)
  case Nil
  then show ?case by (cases ph) simp
next
  case (Cons l ls)
  then show ?case by (cases "parseProgressLine l ph") (simp add: record_cb_def)
qed

end
