(* ===== verification/Tool.thy ===== *)
theory Tool
  imports GoLib
begin

text \<open>
  The ffmpeg tool of \<open>src/unnamed/part_000\<close> (its second file): the struct \<open>FFmpegTool\<close>, its
  readiness check \<open>ensureReady\<close> (resolve the binary on the search path, run it with
  \<open>-version\<close> under a 5 second deadline, cache the outcome), \<open>Version\<close> and
  \<open>parseFFmpegVersion\<close>. The outside world is an explicit input (\<open>tool_env\<close>): what
  \<open>exec.LookPath\<close> resolves a name to, and how a \<open>-version\<close> run of a path ends.
  The theory also holds the error type that the runner (theory \<open>Run\<close>) shares, and an
  interleaving model of concurrent first calls of \<open>ensureReady\<close>, which releases its
  mutex while the check runs.
\<close>

subsection \<open>Errors and the outside world\<close>

text \<open>How \<open>Cmd.Wait\<close> (or \<open>Cmd.Run\<close>) ends: no error, an \<open>*exec.ExitError\<close> with its
  exit code (-1 when the process was killed by a signal), or another error.\<close>

datatype wait_result = W_ok | W_exit int | W_other string

text \<open>The errors that \<open>ensureReady\<close> and \<open>RunWithProgress\<close> return, one constructor per
  \<open>fmt.Errorf\<close> of the source, with the values the message prints.\<close>

datatype ff_error =
    Not_found string
  | Check_timed_out string
  | Cannot_run string wait_result string
  | Stdout_pipe
  | Stderr_pipe
  | Start_failed
  | Timed_out int string
  | Run_failed wait_result string
  | Exec_error wait_result string

datatype version_run = Version_ok string | Version_timeout | Version_failed wait_result string

record tool_env =
  look_path :: "string \<Rightarrow> string option"
  run_version :: "string \<Rightarrow> version_run"

subsection \<open>The tool and its readiness check\<close>

text \<open>\<open>Timeout\<close> is a \<open>time.Duration\<close> in nanoseconds.\<close>

record ffmpeg_tool =
  FFmpegPath :: string
  Timeout :: int
  checked :: bool
  resolvedPath :: string
  version :: string
  checkErr :: "ff_error option"

definition NewDefaultFFmpeg :: ffmpeg_tool where
  "NewDefaultFFmpeg = \<lparr>FFmpegPath = ''ffmpeg'', Timeout = 0, checked = False, resolvedPath = [],
                       version = [], checkErr = None\<rparr>"

fun find_version :: "string list \<Rightarrow> string" where
  "find_version (a # b # r) = (if to_lower a = ''version'' then b else find_version (b # r))"
| "find_version _ = []"

definition parseFFmpegVersion :: "string \<Rightarrow> string" where
  "parseFFmpegVersion s =
     (case split_on nl s of [] \<Rightarrow> [] | l # _ \<Rightarrow> find_version (str_fields (trim_space l)))"

definition tool_path :: "ffmpeg_tool \<Rightarrow> string" where
  "tool_path t = (if FFmpegPath t = [] then ''ffmpeg'' else FFmpegPath t)"

definition ensureReady :: "tool_env \<Rightarrow> ffmpeg_tool \<Rightarrow> ffmpeg_tool \<times> ff_error option" where
  "ensureReady env t =
     (if checked t then (t, checkErr t)
      else (case look_path env (tool_path t) of
              None \<Rightarrow>
                (let e = Not_found (tool_path t) in (t\<lparr>checked := True, checkErr := Some e\<rparr>, Some e))
            | Some resolved \<Rightarrow>
                (case run_version env resolved of
                   Version_timeout \<Rightarrow>
                     (let e = Check_timed_out resolved
                      in (t\<lparr>checked := True, resolvedPath := resolved, checkErr := Some e\<rparr>, Some e))
                 | Version_failed w err \<Rightarrow>
                     (let e = Cannot_run resolved w (trim_space err)
                      in (t\<lparr>checked := True, resolvedPath := resolved, checkErr := Some e\<rparr>, Some e))
                 | Version_ok out \<Rightarrow>
                     (let ver = parseFFmpegVersion out; ver = (if ver = [] then ''unknown'' else ver)
                      in (t\<lparr>checked := True, resolvedPath := resolved, version := ver, checkErr := None\<rparr>,
                          None)))))"

definition Version :: "tool_env \<Rightarrow> ffmpeg_tool \<Rightarrow> ffmpeg_tool \<times> (ff_error + string)" where
  "Version env t =
     (case ensureReady env t of
        (t', Some e) \<Rightarrow> (t', Inl e)
      | (t', None) \<Rightarrow> (t', Inr (version t')))"

text \<open>A checked tool without error has a version string (possibly \<open>unknown\<close>).\<close>

definition tool_inv :: "ffmpeg_tool \<Rightarrow> bool" where
  "tool_inv t \<longleftrightarrow> (checked t \<and> checkErr t = None \<longrightarrow> version t \<noteq> [])"

subsection \<open>Concurrent first calls\<close>

text \<open>
  \<open>ensureReady\<close> holds the mutex only to read \<open>checked\<close> and to publish the outcome;
  the check itself runs unlocked. Each caller is idle, checking, or has returned an
  outcome. A caller that finds \<open>checked\<close> set returns the cached error; otherwise it
  starts a check (counted in \<open>checks\<close>), and when the check ends it publishes
  whatever outcome the outside world gave it.
\<close>

datatype caller = Idle | Checking | Returned "ff_error option"

record once_state =
  o_checked :: bool
  o_err :: "ff_error option"
  checks :: nat
  callers :: "nat \<Rightarrow> caller"

definition once_init :: once_state where
  "once_init = \<lparr>o_checked = False, o_err = None, checks = 0, callers = (\<lambda>_. Idle)\<rparr>"

inductive once_step :: "once_state \<Rightarrow> once_state \<Rightarrow> bool" where
  cached: "callers s i = Idle \<Longrightarrow> o_checked s \<Longrightarrow>
     once_step s (s\<lparr>callers := (callers s)(i := Returned (o_err s))\<rparr>)"
| start_check: "callers s i = Idle \<Longrightarrow> \<not> o_checked s \<Longrightarrow>
     once_step s (s\<lparr>checks := Suc (checks s), callers := (callers s)(i := Checking)\<rparr>)"
| finish_check: "callers s i = Checking \<Longrightarrow>
     once_step s (s\<lparr>o_checked := True, o_err := r, callers := (callers s)(i := Returned r)\<rparr>)"

inductive once_reach :: "once_state \<Rightarrow> bool" where
  init: "once_reach once_init"
| step: "once_reach s \<Longrightarrow> once_step s s' \<Longrightarrow> once_reach s'"

text \<open>Two callers that both found the cache empty and are both checking.\<close>

definition once_two :: once_state where
  "once_two = once_init\<lparr>checks := 2, callers := (\<lambda>i. if i = 0 \<or> i = 1 then Checking else Idle)\<rparr>"

subsection \<open>Lemmas\<close>

lemma ensureReady_checked: "checked (fst (ensureReady env t))"
  by (auto simp: ensureReady_def Let_def split: option.splits version_run.splits)

lemma ensureReady_err: "checkErr (fst (ensureReady env t)) = snd (ensureReady env t)"
  by (auto simp: ensureReady_def Let_def split: option.splits version_run.splits)

text \<open>C1: after a first call of ensureReady, a second call returns the same tool state and the same error whatever the outside world does: the readiness outcome is cached and replayed verbatim, and the binary is not looked up or run again.\<close>

lemma ensureReady_cached: "ensureReady env' (fst (ensureReady env t)) = ensureReady env t"
proof -
  obtain t' e where r: "ensureReady env t = (t', e)" by fastforce
  have "checked t'" and "checkErr t' = e"
    using ensureReady_checked [of env t] ensureReady_err [of env t] r by simp_all
  then show ?thesis using r by (simp add: ensureReady_def)
qed

lemma ensureReady_inv: "tool_inv t \<Longrightarrow> tool_inv (fst (ensureReady env t))"
  by (auto simp: ensureReady_def tool_inv_def Let_def split: option.splits version_run.splits)

text \<open>on a tool satisfying the invariant, a successful Version returns a non-empty string: an empty or unparsable banner gives the sentinel unknown.\<close>

lemma Version_nonempty: "tool_inv t \<Longrightarrow> Version env t = (t', Inr v) \<Longrightarrow> v \<noteq> []"
proof -
  assume inv: "tool_inv t" and v: "Version env t = (t', Inr v)"
  obtain t'' e where r: "ensureReady env t = (t'', e)" by fastforce
  with v have "e = None" "t'' = t'" "v = version t'"
    by (auto simp: Version_def split: option.splits)
  moreover have "tool_inv t''" "checked t''" "checkErr t'' = e"
    using ensureReady_inv [OF inv, of env] ensureReady_checked [of env t] ensureReady_err [of env t] r
    by simp_all
  ultimately show ?thesis by (simp add: tool_inv_def)
qed

lemma Version_nonempty_witness:
  "tool_inv NewDefaultFFmpeg \<and>
   Version \<lparr>look_path = (\<lambda>_. Some ''/usr/bin/ffmpeg''), run_version = (\<lambda>_. Version_ok ''ffmpeg version 6.1'')\<rparr> NewDefaultFFmpeg =
     (fst (Version \<lparr>look_path = (\<lambda>_. Some ''/usr/bin/ffmpeg''), run_version = (\<lambda>_. Version_ok ''ffmpeg version 6.1'')\<rparr> NewDefaultFFmpeg), Inr ''6.1'') \<and>
   ''6.1'' \<noteq> []"
proof -
  have i: "tool_inv NewDefaultFFmpeg" by (simp add: tool_inv_def NewDefaultFFmpeg_def)
  have v: "Version \<lparr>look_path = (\<lambda>_. Some ''/usr/bin/ffmpeg''), run_version = (\<lambda>_. Version_ok ''ffmpeg version 6.1'')\<rparr> NewDefaultFFmpeg =
             (fst (Version \<lparr>look_path = (\<lambda>_. Some ''/usr/bin/ffmpeg''), run_version = (\<lambda>_. Version_ok ''ffmpeg version 6.1'')\<rparr> NewDefaultFFmpeg), Inr ''6.1'')"
    by (simp add: Version_def ensureReady_def NewDefaultFFmpeg_def tool_path_def parseFFmpegVersion_def
        nl_def trim_space_def is_space_def to_lower_def ascii_lower_def)
  show ?thesis using Version_nonempty [OF i v] i v by simp
qed

text \<open>ensureReady reports no error exactly when the tool was already checked without error, or the path resolves and the -version run succeeds; a missing binary, a check timeout and a failing run are each an error.\<close>

lemma ensureReady_ok_iff:
  "snd (ensureReady env t) = None \<longleftrightarrow>
     (if checked t then checkErr t = None
      else \<exists>r out. look_path env (tool_path t) = Some r \<and> run_version env r = Version_ok out)"
  by (auto simp: ensureReady_def Let_def split: option.splits version_run.splits)

text \<open>once the cache is filled, no step of any caller starts a new check and the cache stays filled: every later caller is served from the cache.\<close>

lemma once_checked_no_new_check:
  assumes "once_step s s'" "o_checked s"
  shows "checks s' = checks s \<and> o_checked s'"
  using assms by (cases rule: once_step.cases) auto

lemma once_checked_no_new_check_witness:
  "once_step (once_two\<lparr>o_checked := True, o_err := None, callers := (callers once_two)(0 := Returned None)\<rparr>)
     ((once_two\<lparr>o_checked := True, o_err := None, callers := (callers once_two)(0 := Returned None)\<rparr>)\<lparr>callers := (callers (once_two\<lparr>o_checked := True, o_err := None, callers := (callers once_two)(0 := Returned None)\<rparr>))(2 := Returned None)\<rparr>) \<and>
   o_checked (once_two\<lparr>o_checked := True, o_err := None, callers := (callers once_two)(0 := Returned None)\<rparr>) \<and>
   checks ((once_two\<lparr>o_checked := True, o_err := None, callers := (callers once_two)(0 := Returned None)\<rparr>)\<lparr>callers := (callers (once_two\<lparr>o_checked := True, o_err := None, callers := (callers once_two)(0 := Returned None)\<rparr>))(2 := Returned None)\<rparr>) = checks (once_two\<lparr>o_checked := True, o_err := None, callers := (callers once_two)(0 := Returned None)\<rparr>)"
proof -
  let ?s = "once_two\<lparr>o_checked := True, o_err := None, callers := (callers once_two)(0 := Returned None)\<rparr>"
  have st: "once_step ?s (?s\<lparr>callers := (callers ?s)(2 := Returned None)\<rparr>)"
    using once_step.cached [of ?s 2] by (simp add: once_two_def once_init_def)
  have c: "o_checked ?s" by simp
  show ?thesis using once_checked_no_new_check [OF st c] st c by simp
qed

lemma once_two_reach: "once_reach once_two"
proof -
  let ?s1 = "once_init\<lparr>checks := Suc (checks once_init), callers := (callers once_init)(0 := Checking)\<rparr>"
  have r1: "once_reach ?s1"
    by (rule once_reach.step [OF once_reach.init]) (rule once_step.start_check, simp_all add: once_init_def)
  have "once_step ?s1 (?s1\<lparr>checks := Suc (checks ?s1), callers := (callers ?s1)(1 := Checking)\<rparr>)"
    by (rule once_step.start_check) (simp_all add: once_init_def)
  with r1 have "once_reach (?s1\<lparr>checks := Suc (checks ?s1), callers := (callers ?s1)(1 := Checking)\<rparr>)"
    by (rule once_reach.step)
  moreover have "?s1\<lparr>checks := Suc (checks ?s1), callers := (callers ?s1)(1 := Checking)\<rparr> = once_two"
    by (auto simp: once_two_def once_init_def)
  ultimately show ?thesis by simp
qed

text \<open>C7: two concurrent first callers can both find the cache empty and both run the expensive check: some reachable interleaving has performed two checks, so the check does not run at most once (the spec, section 8, says it does).\<close>

theorem ensureReady_checks_twice: "\<exists>s. once_reach s \<and> checks s = 2"
  using once_two_reach by (auto simp: once_two_def once_init_def)

text \<open>C8: once checked is set, a caller whose check is still running can overwrite the cached outcome with a different one: the cached triple is not frozen after the first check completes.\<close>

theorem ensureReady_cache_overwritten:
  "\<exists>s s'. once_reach s \<and> o_checked s \<and> once_step s s' \<and> o_err s' \<noteq> o_err s"
proof -
  let ?e = "Some (Check_timed_out ''/usr/bin/ffmpeg'')"
  let ?s = "once_two\<lparr>o_checked := True, o_err := ?e, callers := (callers once_two)(0 := Returned ?e)\<rparr>"
  have "once_step once_two ?s"
    by (rule once_step.finish_check) (simp add: once_two_def)
  then have r: "once_reach ?s" by (rule once_reach.step [OF once_two_reach])
  have "once_step ?s (?s\<lparr>o_checked := True, o_err := None, callers := (callers ?s)(1 := Returned None)\<rparr>)"
    by (rule once_step.finish_check) (simp add: once_two_def)
  with r show ?thesis by fastforce
qed

end
