(* ===== verification/Run.thy ===== *)
theory Run
  imports Progress Tool
begin

text \<open>
  The runner of \<open>src/media/ffmpeg/run.go\<close>: \<open>RunWithProgress\<close> and \<open>Run\<close>.
  The process and the operating system are an input: for a binary and an argument
  list, \<open>launch\<close> says whether the pipes and \<open>Start\<close> succeed and, for a started
  process, what it writes on stdout and stderr, how \<open>Wait\<close> ends when the process
  exits by itself or when the context kills it, and how the races of the code fall:
  whether the process outlives the run's deadline, whether a kill requested by the
  sink lands before the process exits by itself, and whether \<open>Wait\<close> (called before
  \<open>wg.Wait\<close>) closes a pipe before its reader has drained it (\<open>out_cut\<close>,
  \<open>err_cut\<close>: the number of bytes the reader got). The two drain goroutines and the
  wait are joined before the function returns, so the model runs them in sequence.
\<close>

datatype ctx_err = Ctx_deadline | Ctx_canceled

record proc_run =
  out_written :: string
  err_written :: string
  natural_exit :: wait_result
  killed_exit :: wait_result
  outlasts_timeout :: bool
  kill_beats_exit :: bool
  out_cut :: "nat option"
  err_cut :: "nat option"

datatype launch_result = Stdout_pipe_fails | Stderr_pipe_fails | Start_fails | Started proc_run

record run_env =
  tool_world :: tool_env
  launch :: "string \<Rightarrow> string list \<Rightarrow> launch_result"

definition progress_flags :: "string list" where
  "progress_flags = [''-progress'', ''pipe:1'', ''-nostats'']"

definition cut_at :: "nat option \<Rightarrow> string \<Rightarrow> string" where
  "cut_at c s = (case c of None \<Rightarrow> s | Some n \<Rightarrow> take n s)"

text \<open>How the run-scoped context ends and what \<open>Wait\<close> returns: an abort by the sink
  cancels the context; otherwise a positive \<open>Timeout\<close> that the process outlives
  fires the deadline. The process is killed when the context ends while it runs.\<close>

definition wait_outcome :: "int \<Rightarrow> proc_run \<Rightarrow> bool \<Rightarrow> wait_result \<times> ctx_err option" where
  "wait_outcome timeout pr aborted =
     (if aborted then (if kill_beats_exit pr then killed_exit pr else natural_exit pr, Some Ctx_canceled)
      else if 0 < timeout \<and> outlasts_timeout pr then (killed_exit pr, Some Ctx_deadline)
      else (natural_exit pr, None))"

text \<open>The error mapping after \<open>Wait\<close>, in the order of the source.\<close>

definition run_error :: "int \<Rightarrow> wait_result \<Rightarrow> ctx_err option \<Rightarrow> string \<Rightarrow> ff_error option" where
  "run_error timeout w cerr stderr =
     (if w = W_ok then None
      else if cerr = Some Ctx_deadline then Some (Timed_out timeout stderr)
      else (case w of W_exit _ \<Rightarrow> Some (Run_failed w stderr) | _ \<Rightarrow> Some (Exec_error w stderr)))"

text \<open>The result: the tool state after \<open>ensureReady\<close>, \<open>last\<close>, the map store, the
  sink's state and the error.\<close>

type_synonym 's run_result = "ffmpeg_tool \<times> ffmpeg_progress \<times> map_heap \<times> 's \<times> ff_error option"

definition RunWithProgress ::
  "run_env \<Rightarrow> ffmpeg_tool \<Rightarrow> string list \<Rightarrow> 's progress_cb option \<Rightarrow> 's \<Rightarrow> 's run_result" where
  "RunWithProgress env t args cb s =
     (case ensureReady (tool_world env) t of
        (t', Some e) \<Rightarrow> (t', zero_progress, [], s, Some e)
      | (t', None) \<Rightarrow>
          (case launch env (resolvedPath t') (if cb = None then args else args @ progress_flags) of
             Stdout_pipe_fails \<Rightarrow> (t', zero_progress, [], s, Some Stdout_pipe)
           | Stderr_pipe_fails \<Rightarrow> (t', zero_progress, [], s, Some Stderr_pipe)
           | Start_fails \<Rightarrow> (t', zero_progress, [], s, Some Start_failed)
           | Started pr \<Rightarrow>
               (let stderr = trim_space (cut_at (err_cut pr) (err_written pr))
                in case (if cb = None then (zero_progress, [], s, Scan_eof)
                         else scanProgress (cut_at (out_cut pr) (out_written pr)) zero_progress [] cb s) of
                     (lastp, h, s', fin) \<Rightarrow>
                       (case wait_outcome (Timeout t') pr (fin = Scan_abort) of
                          (w, cerr) \<Rightarrow> (t', lastp, h, s', run_error (Timeout t') w cerr stderr)))))"

definition Run :: "run_env \<Rightarrow> ffmpeg_tool \<Rightarrow> string list \<Rightarrow> ffmpeg_tool \<times> ff_error option" where
  "Run env t args =
     (case RunWithProgress env t args (None :: unit progress_cb option) () of
        (t', _, _, _, e) \<Rightarrow> (t', e))"

subsection \<open>Example runs\<close>

text \<open>A world where ffmpeg resolves and reports version 6.1, and a process that prints
  one progress block ending in \<open>progress=end\<close> and exits with status 0.\<close>

definition demo_world :: tool_env where
  "demo_world = \<lparr>look_path = (\<lambda>_. Some ''/usr/bin/ffmpeg''), run_version = (\<lambda>_. Version_ok ''ffmpeg version 6.1'')\<rparr>"

definition demo_proc :: proc_run where
  "demo_proc = \<lparr>out_written = ''frame=1'' @ [nl] @ ''progress=end'' @ [nl], err_written = ''err'',
                natural_exit = W_ok, killed_exit = W_exit (-1), outlasts_timeout = False,
                kill_beats_exit = True, out_cut = None, err_cut = None\<rparr>"

definition demo_env :: "proc_run \<Rightarrow> run_env" where
  "demo_env pr = \<lparr>tool_world = demo_world, launch = (\<lambda>_ _. Started pr)\<rparr>"

abbreviation demo_tool :: "int \<Rightarrow> ffmpeg_tool" where
  "demo_tool n \<equiv> NewDefaultFFmpeg\<lparr>Timeout := n\<rparr>"

abbreviation demo_ready_tool :: "int \<Rightarrow> ffmpeg_tool" where
  "demo_ready_tool n \<equiv> NewDefaultFFmpeg\<lparr>Timeout := n, checked := True, resolvedPath := ''/usr/bin/ffmpeg'',
                                       version := ''6.1'', checkErr := None\<rparr>"

definition abort_cb :: "unit progress_cb" where
  "abort_cb u p h = (u, True)"

subsection \<open>Lemmas\<close>

lemma demo_ready: "ensureReady demo_world (demo_tool n) = (demo_ready_tool n, None)"
  by (simp add: ensureReady_def demo_world_def NewDefaultFFmpeg_def tool_path_def parseFFmpegVersion_def
      nl_def trim_space_def is_space_def to_lower_def ascii_lower_def)

lemma demo_lines: "fst (scan_lines (out_written demo_proc)) = [''frame=1'', ''progress=end'']"
  by (simp add: demo_proc_def scan_lines_def drop_cr_def cr_def nl_def max_scan_token_size_def)

lemma scan_loop_no_abort:
  "(\<forall>s p h. \<not> snd (f s p h)) \<Longrightarrow> snd (snd (snd (scan_loop (Some f) ls ph lp s))) \<noteq> Scan_abort"
proof (induction ls arbitrary: ph lp s)
  case Nil
  then show ?case by (cases ph) simp
next
  case (Cons l ls)
  obtain p' h' where pl: "parseProgressLine l ph = (p', h')" by fastforce
  obtain s' err where fr: "f s p' h' = (s', err)" by fastforce
  from Cons.prems fr have "\<not> err" by (metis snd_conv)
  with Cons pl fr show ?case by simp
qed

lemma scan_loop_abort:
  assumes "\<forall>s p h. snd (f s p h)" "ls \<noteq> []"
  shows "snd (snd (snd (scan_loop (Some f) ls ph lp s))) = Scan_abort"
proof -
  obtain l ls' where ls: "ls = l # ls'" using assms(2) by (cases ls) auto
  obtain p' h' where pl: "parseProgressLine l ph = (p', h')" by fastforce
  obtain s' err where fr: "f s p' h' = (s', err)" by fastforce
  from assms(1) fr have "err" by (metis snd_conv)
  with ls pl fr show ?thesis by simp
qed

text \<open>when the readiness check fails, RunWithProgress returns its error verbatim with the zero progress and the sink state untouched, without launching a process.\<close>

lemma RunWithProgress_not_ready:
  "ensureReady (tool_world env) t = (t', Some e) \<Longrightarrow> RunWithProgress env t args cb s = (t', zero_progress, [], s, Some e)"
  by (simp add: RunWithProgress_def)

lemma RunWithProgress_not_ready_witness:
  "ensureReady (tool_world (demo_env demo_proc\<lparr>tool_world := demo_world\<lparr>look_path := (\<lambda>_. None)\<rparr>\<rparr>)) (demo_tool 0)
     = (NewDefaultFFmpeg\<lparr>checked := True, checkErr := Some (Not_found ''ffmpeg'')\<rparr>, Some (Not_found ''ffmpeg'')) \<and>
   RunWithProgress (demo_env demo_proc\<lparr>tool_world := demo_world\<lparr>look_path := (\<lambda>_. None)\<rparr>\<rparr>) (demo_tool 0) [] (Some record_cb) []
     = (NewDefaultFFmpeg\<lparr>checked := True, checkErr := Some (Not_found ''ffmpeg'')\<rparr>, zero_progress, [], [], Some (Not_found ''ffmpeg''))"
proof -
  have a: "ensureReady (tool_world (demo_env demo_proc\<lparr>tool_world := demo_world\<lparr>look_path := (\<lambda>_. None)\<rparr>\<rparr>)) (demo_tool 0)
     = (NewDefaultFFmpeg\<lparr>checked := True, checkErr := Some (Not_found ''ffmpeg'')\<rparr>, Some (Not_found ''ffmpeg''))"
    by (simp add: ensureReady_def demo_world_def NewDefaultFFmpeg_def tool_path_def Let_def)
  show ?thesis using RunWithProgress_not_ready [OF a] a by simp
qed

lemma RunWithProgress_started:
  assumes "ensureReady (tool_world env) t = (t', None)"
    and "launch env (resolvedPath t') (args @ progress_flags) = Started pr"
  shows "RunWithProgress env t args (Some f) s =
    (case scanProgress (cut_at (out_cut pr) (out_written pr)) zero_progress [] (Some f) s of
       (lastp, h, s', fin) \<Rightarrow>
         (case wait_outcome (Timeout t') pr (fin = Scan_abort) of
            (w, cerr) \<Rightarrow> (t', lastp, h, s', run_error (Timeout t') w cerr (trim_space (cut_at (err_cut pr) (err_written pr))))))"
  using assms by (simp add: RunWithProgress_def Let_def)

text \<open>C3: when the process is started with a positive Timeout that it outlives, and the sink never aborts, RunWithProgress reports the timeout error carrying the trimmed captured stderr, whatever exit status the killed process has.\<close>

lemma run_timeout:
  assumes "ensureReady (tool_world env) t = (t', None)"
    and "launch env (resolvedPath t') (args @ progress_flags) = Started pr"
    and "\<forall>s p h. \<not> snd (f s p h)"
    and "0 < Timeout t'" "outlasts_timeout pr" "killed_exit pr \<noteq> W_ok"
  shows "snd (snd (snd (snd (RunWithProgress env t args (Some f) s))))
           = Some (Timed_out (Timeout t') (trim_space (cut_at (err_cut pr) (err_written pr))))"
proof -
  obtain lp h s' fin where sc: "scanProgress (cut_at (out_cut pr) (out_written pr)) zero_progress [] (Some f) s = (lp, h, s', fin)"
    by (metis prod.exhaust)
  have "fin \<noteq> Scan_abort"
    using scan_loop_no_abort [OF assms(3)] sc unfolding scanProgress_def by (metis snd_conv)
  then show ?thesis
    using assms sc by (simp add: RunWithProgress_started wait_outcome_def run_error_def)
qed

lemma run_timeout_witness:
  "ensureReady (tool_world (demo_env (demo_proc\<lparr>outlasts_timeout := True\<rparr>))) (demo_tool 1000000000) = (demo_ready_tool 1000000000, None) \<and>
   launch (demo_env (demo_proc\<lparr>outlasts_timeout := True\<rparr>)) (resolvedPath (demo_ready_tool 1000000000)) ([] @ progress_flags) = Started (demo_proc\<lparr>outlasts_timeout := True\<rparr>) \<and>
   (\<forall>s p h. \<not> snd (record_cb s p h)) \<and> 0 < Timeout (demo_ready_tool 1000000000) \<and>
   outlasts_timeout (demo_proc\<lparr>outlasts_timeout := True\<rparr>) \<and> killed_exit (demo_proc\<lparr>outlasts_timeout := True\<rparr>) \<noteq> W_ok \<and>
   snd (snd (snd (snd (RunWithProgress (demo_env (demo_proc\<lparr>outlasts_timeout := True\<rparr>)) (demo_tool 1000000000) [] (Some record_cb) []))))
     = Some (Timed_out (Timeout (demo_ready_tool 1000000000)) (trim_space (cut_at (err_cut (demo_proc\<lparr>outlasts_timeout := True\<rparr>)) (err_written (demo_proc\<lparr>outlasts_timeout := True\<rparr>)))))"
proof -
  have a: "ensureReady (tool_world (demo_env (demo_proc\<lparr>outlasts_timeout := True\<rparr>))) (demo_tool 1000000000) = (demo_ready_tool 1000000000, None)"
    using demo_ready by (simp add: demo_env_def)
  have b: "launch (demo_env (demo_proc\<lparr>outlasts_timeout := True\<rparr>)) (resolvedPath (demo_ready_tool 1000000000)) ([] @ progress_flags) = Started (demo_proc\<lparr>outlasts_timeout := True\<rparr>)" by (simp add: demo_env_def)
  have c: "\<forall>s p h. \<not> snd (record_cb s p h)" by (simp add: record_cb_def)
  have d: "0 < Timeout (demo_ready_tool 1000000000)" by (simp add: NewDefaultFFmpeg_def)
  have e: "outlasts_timeout (demo_proc\<lparr>outlasts_timeout := True\<rparr>)" "killed_exit (demo_proc\<lparr>outlasts_timeout := True\<rparr>) \<noteq> W_ok" by (simp_all add: demo_proc_def)
  show ?thesis using run_timeout [OF a b c d e] a b c d e by simp
qed

text \<open>C4: when the sink aborts and the resulting kill lands before the process exits, RunWithProgress reports the generic failure (ffmpeg failed, exit code -1) with the captured stderr, not the timeout error.\<close>

lemma run_abort_failed:
  assumes "ensureReady (tool_world env) t = (t', None)"
    and "launch env (resolvedPath t') (args @ progress_flags) = Started pr"
    and "\<forall>s p h. snd (f s p h)"
    and "fst (scan_lines (cut_at (out_cut pr) (out_written pr))) \<noteq> []"
    and "kill_beats_exit pr" "killed_exit pr = W_exit (-1)"
  shows "snd (snd (snd (snd (RunWithProgress env t args (Some f) s))))
           = Some (Run_failed (W_exit (-1)) (trim_space (cut_at (err_cut pr) (err_written pr))))"
proof -
  obtain lp h s' fin where sc: "scanProgress (cut_at (out_cut pr) (out_written pr)) zero_progress [] (Some f) s = (lp, h, s', fin)"
    by (metis prod.exhaust)
  have "fin = Scan_abort"
    using scan_loop_abort [OF assms(3,4)] sc unfolding scanProgress_def by (metis snd_conv)
  then show ?thesis
    using assms sc by (simp add: RunWithProgress_started wait_outcome_def run_error_def)
qed

lemma run_abort_failed_witness:
  "ensureReady (tool_world (demo_env demo_proc)) (demo_tool 0) = (demo_ready_tool 0, None) \<and>
   launch (demo_env demo_proc) (resolvedPath (demo_ready_tool 0)) ([] @ progress_flags) = Started demo_proc \<and>
   (\<forall>s p h. snd (abort_cb s p h)) \<and> fst (scan_lines (cut_at (out_cut demo_proc) (out_written demo_proc))) \<noteq> [] \<and>
   kill_beats_exit demo_proc \<and> killed_exit demo_proc = W_exit (-1) \<and>
   snd (snd (snd (snd (RunWithProgress (demo_env demo_proc) (demo_tool 0) [] (Some abort_cb) ()))))
     = Some (Run_failed (W_exit (-1)) (trim_space (cut_at (err_cut demo_proc) (err_written demo_proc))))"
proof -
  have a: "ensureReady (tool_world (demo_env demo_proc)) (demo_tool 0) = (demo_ready_tool 0, None)"
    using demo_ready by (simp add: demo_env_def)
  have b: "launch (demo_env demo_proc) (resolvedPath (demo_ready_tool 0)) ([] @ progress_flags) = Started demo_proc" by (simp add: demo_env_def)
  have c: "\<forall>s p h. snd (abort_cb s p h)" by (simp add: abort_cb_def)
  have d: "fst (scan_lines (cut_at (out_cut demo_proc) (out_written demo_proc))) \<noteq> []"
    using demo_lines by (simp add: cut_at_def demo_proc_def)
  have e: "kill_beats_exit demo_proc" "killed_exit demo_proc = W_exit (-1)" by (simp_all add: demo_proc_def)
  show ?thesis using run_abort_failed [OF a b c d e] a b c d e by simp
qed

text \<open>C6: When the sink aborts but the process exits with status 0 before the kill lands, RunWithProgress reports success: an aborted run can end without error (the case the spec, section 9, leaves open).\<close>

lemma run_abort_clean_exit:
  assumes "ensureReady (tool_world env) t = (t', None)"
    and "launch env (resolvedPath t') (args @ progress_flags) = Started pr"
    and "\<forall>s p h. snd (f s p h)"
    and "fst (scan_lines (cut_at (out_cut pr) (out_written pr))) \<noteq> []"
    and "\<not> kill_beats_exit pr" "natural_exit pr = W_ok"
  shows "snd (snd (snd (snd (RunWithProgress env t args (Some f) s)))) = None"
proof -
  obtain lp h s' fin where sc: "scanProgress (cut_at (out_cut pr) (out_written pr)) zero_progress [] (Some f) s = (lp, h, s', fin)"
    by (metis prod.exhaust)
  have "fin = Scan_abort"
    using scan_loop_abort [OF assms(3,4)] sc unfolding scanProgress_def by (metis snd_conv)
  then show ?thesis
    using assms sc by (simp add: RunWithProgress_started wait_outcome_def run_error_def)
qed

lemma run_abort_clean_exit_witness:
  "ensureReady (tool_world (demo_env (demo_proc\<lparr>kill_beats_exit := False\<rparr>))) (demo_tool 0) = (demo_ready_tool 0, None) \<and>
   launch (demo_env (demo_proc\<lparr>kill_beats_exit := False\<rparr>)) (resolvedPath (demo_ready_tool 0)) ([] @ progress_flags) = Started (demo_proc\<lparr>kill_beats_exit := False\<rparr>) \<and>
   (\<forall>s p h. snd (abort_cb s p h)) \<and> fst (scan_lines (cut_at (out_cut (demo_proc\<lparr>kill_beats_exit := False\<rparr>)) (out_written (demo_proc\<lparr>kill_beats_exit := False\<rparr>)))) \<noteq> [] \<and>
   \<not> kill_beats_exit (demo_proc\<lparr>kill_beats_exit := False\<rparr>) \<and> natural_exit (demo_proc\<lparr>kill_beats_exit := False\<rparr>) = W_ok \<and>
   snd (snd (snd (snd (RunWithProgress (demo_env (demo_proc\<lparr>kill_beats_exit := False\<rparr>)) (demo_tool 0) [] (Some abort_cb) ())))) = None"
proof -
  have a: "ensureReady (tool_world (demo_env (demo_proc\<lparr>kill_beats_exit := False\<rparr>))) (demo_tool 0) = (demo_ready_tool 0, None)"
    using demo_ready by (simp add: demo_env_def)
  have b: "launch (demo_env (demo_proc\<lparr>kill_beats_exit := False\<rparr>)) (resolvedPath (demo_ready_tool 0)) ([] @ progress_flags) = Started (demo_proc\<lparr>kill_beats_exit := False\<rparr>)" by (simp add: demo_env_def)
  have c: "\<forall>s p h. snd (abort_cb s p h)" by (simp add: abort_cb_def)
  have d: "fst (scan_lines (cut_at (out_cut (demo_proc\<lparr>kill_beats_exit := False\<rparr>)) (out_written (demo_proc\<lparr>kill_beats_exit := False\<rparr>)))) \<noteq> []"
    using demo_lines by (simp add: cut_at_def demo_proc_def)
  have e: "\<not> kill_beats_exit (demo_proc\<lparr>kill_beats_exit := False\<rparr>)" "natural_exit (demo_proc\<lparr>kill_beats_exit := False\<rparr>) = W_ok" by (simp_all add: demo_proc_def)
  show ?thesis using run_abort_clean_exit [OF a b c d e] a b c d e by simp
qed

text \<open>C2: for a started run, the sink receives exactly the decoder states of the stdout lines the reader got, in order, up to and including the first with Done set.\<close>

lemma run_delivers_decoded:
  assumes "ensureReady (tool_world env) t = (t', None)"
    and "launch env (resolvedPath t') (args @ progress_flags) = Started pr"
  shows "fst (snd (snd (snd (RunWithProgress env t args (Some record_cb) tr)))) =
           tr @ map fst (take_until (\<lambda>q. Done (fst q))
                  (decode_trace (zero_progress, []) (fst (scan_lines (cut_at (out_cut pr) (out_written pr))))))"
proof -
  obtain lp h s' fin where sc: "scanProgress (cut_at (out_cut pr) (out_written pr)) zero_progress [] (Some record_cb) tr = (lp, h, s', fin)"
    by (metis prod.exhaust)
  have "s' = tr @ map fst (take_until (\<lambda>q. Done (fst q))
                  (decode_trace (zero_progress, []) (fst (scan_lines (cut_at (out_cut pr) (out_written pr))))))"
    using scan_loop_record [of "fst (scan_lines (cut_at (out_cut pr) (out_written pr)))" "(zero_progress, [])" zero_progress tr] sc
    unfolding scanProgress_def by simp
  then show ?thesis
    using assms sc by (simp add: RunWithProgress_started split: prod.splits)
qed

lemma run_delivers_decoded_witness:
  "ensureReady (tool_world (demo_env demo_proc)) (demo_tool 0) = (demo_ready_tool 0, None) \<and>
   launch (demo_env demo_proc) (resolvedPath (demo_ready_tool 0)) ([] @ progress_flags) = Started demo_proc \<and>
   fst (snd (snd (snd (RunWithProgress (demo_env demo_proc) (demo_tool 0) [] (Some record_cb) [])))) =
     map fst (take_until (\<lambda>q. Done (fst q))
       (decode_trace (zero_progress, []) [''frame=1'', ''progress=end'']))"
proof -
  have a: "ensureReady (tool_world (demo_env demo_proc)) (demo_tool 0) = (demo_ready_tool 0, None)"
    using demo_ready by (simp add: demo_env_def)
  have b: "launch (demo_env demo_proc) (resolvedPath (demo_ready_tool 0)) ([] @ progress_flags) = Started demo_proc" by (simp add: demo_env_def)
  show ?thesis using run_delivers_decoded [OF a b, of "[]"] a b demo_lines by (simp add: cut_at_def demo_proc_def)
qed



end
