(* ===== verification/Command.thy ===== *)
theory Command
  imports GoLib
begin

text \<open>
  The argument builder \<open>FFmpegCommand\<close> of \<open>src/unnamed/part_001\<close> and the presets
  of \<open>src/media/ffmpeg/preset.go\<close>. A command is its argument list; each fluent
  method of the source mutates the list behind the pointer and returns the pointer,
  which the model writes as a function from command to command (\<open>Args\<close> copies the
  list, so a launched run never sees a later mutation). The data-model invariant of
  the specification, that every flag taking a value is followed by it, is the
  predicate \<open>wf_args\<close> over the flags the builder emits.
\<close>

record ffmpeg_command =
  args :: "string list"

definition NewFFmpegCommand :: ffmpeg_command where
  "NewFFmpegCommand = \<lparr>args = [''-y'']\<rparr>"

definition Args :: "ffmpeg_command \<Rightarrow> string list" where
  "Args c = args c"

definition AppendArgs :: "string list \<Rightarrow> ffmpeg_command \<Rightarrow> ffmpeg_command" where
  "AppendArgs xs c = c\<lparr>args := args c @ xs\<rparr>"

definition HideBanner :: "ffmpeg_command \<Rightarrow> ffmpeg_command" where
  "HideBanner c = AppendArgs [''-hide_banner''] c"

definition LogLevel :: "string \<Rightarrow> ffmpeg_command \<Rightarrow> ffmpeg_command" where
  "LogLevel level c = AppendArgs [''-v'', level] c"

definition Input :: "string \<Rightarrow> ffmpeg_command \<Rightarrow> ffmpeg_command" where
  "Input path c = AppendArgs [''-i'', path] c"

text \<open>\<open>Overwrite(false)\<close> removes every \<open>-y\<close> token of the list, wherever it is,
  and appends \<open>-n\<close>.\<close>

definition Overwrite :: "bool \<Rightarrow> ffmpeg_command \<Rightarrow> ffmpeg_command" where
  "Overwrite on c =
     (if on then c
      else AppendArgs [''-n''] (c\<lparr>args := filter (\<lambda>a. a \<noteq> ''-y'') (args c)\<rparr>))"

definition Output :: "string \<Rightarrow> ffmpeg_command \<Rightarrow> ffmpeg_command" where
  "Output path c = AppendArgs [path] c"

definition VideoCodec :: "string \<Rightarrow> ffmpeg_command \<Rightarrow> ffmpeg_command" where
  "VideoCodec codec c = AppendArgs [''-c:v'', codec] c"

definition AudioCodec :: "string \<Rightarrow> ffmpeg_command \<Rightarrow> ffmpeg_command" where
  "AudioCodec codec c = AppendArgs [''-c:a'', codec] c"

definition CopyVideo :: "ffmpeg_command \<Rightarrow> ffmpeg_command" where
  "CopyVideo c = VideoCodec ''copy'' c"

definition CopyAudio :: "ffmpeg_command \<Rightarrow> ffmpeg_command" where
  "CopyAudio c = AudioCodec ''copy'' c"

definition CRF :: "int \<Rightarrow> ffmpeg_command \<Rightarrow> ffmpeg_command" where
  "CRF v c = AppendArgs [''-crf'', itoa v] c"

definition Preset :: "string \<Rightarrow> ffmpeg_command \<Rightarrow> ffmpeg_command" where
  "Preset p c = AppendArgs [''-preset'', p] c"

definition Tune :: "string \<Rightarrow> ffmpeg_command \<Rightarrow> ffmpeg_command" where
  "Tune t c = AppendArgs [''-tune'', t] c"

definition MovFlagsFastStart :: "ffmpeg_command \<Rightarrow> ffmpeg_command" where
  "MovFlagsFastStart c = AppendArgs [''-movflags'', ''+faststart''] c"

definition Map_stream :: "string \<Rightarrow> ffmpeg_command \<Rightarrow> ffmpeg_command" where
  "Map_stream spec c = AppendArgs [''-map'', spec] c"

definition Scale :: "int \<Rightarrow> int \<Rightarrow> ffmpeg_command \<Rightarrow> ffmpeg_command" where
  "Scale w h c = AppendArgs [''-vf'', ''scale='' @ itoa w @ '':'' @ itoa h] c"

definition FPS_rate :: "string \<Rightarrow> ffmpeg_command \<Rightarrow> ffmpeg_command" where
  "FPS_rate fps c = AppendArgs [''-r'', fps] c"

text \<open>\<open>trimFloat\<close>: \<open>%.3f\<close>, then the trailing zeros and the trailing point cut.\<close>

definition trimFloat :: "go_float \<Rightarrow> string" where
  "trimFloat f =
     (let s = trim_right (CHR ''.'') (trim_right (CHR ''0'') (fmt_fixed 3 f))
      in if s = [] then ''0'' else s)"

definition StartAt :: "go_float \<Rightarrow> ffmpeg_command \<Rightarrow> ffmpeg_command" where
  "StartAt seconds c = AppendArgs [''-ss'', trimFloat seconds] c"

subsection \<open>Presets\<close>

definition PresetTranscodeMP4H264AAC :: "string \<Rightarrow> string \<Rightarrow> int \<Rightarrow> string \<Rightarrow> ffmpeg_command" where
  "PresetTranscodeMP4H264AAC input output crf preset =
     (let crf = (if crf \<le> 0 then 23 else crf);
          preset = (if preset = [] then ''medium'' else preset)
      in Output output (MovFlagsFastStart (Preset preset (CRF crf (AudioCodec ''aac''
           (VideoCodec ''libx264'' (Input input (LogLevel ''error'' (HideBanner NewFFmpegCommand)))))))))"

definition PresetRemux :: "string \<Rightarrow> string \<Rightarrow> ffmpeg_command" where
  "PresetRemux input output =
     Output output (CopyAudio (CopyVideo (Input input (LogLevel ''error'' (HideBanner NewFFmpegCommand)))))"

definition PresetExtractAAC :: "string \<Rightarrow> string \<Rightarrow> string \<Rightarrow> ffmpeg_command" where
  "PresetExtractAAC input output bitrate =
     (let bitrate = (if bitrate = [] then ''128k'' else bitrate)
      in Output output (AppendArgs [''-b:a'', bitrate] (AudioCodec ''aac'' (AppendArgs [''-vn'']
           (Input input (LogLevel ''error'' (HideBanner NewFFmpegCommand)))))))"

definition PresetSnapshot :: "string \<Rightarrow> string \<Rightarrow> go_float \<Rightarrow> ffmpeg_command" where
  "PresetSnapshot input output atSeconds =
     Output output (AppendArgs [''-frames:v'', ''1''] (Input input
       (AppendArgs [''-ss'', fmt_fixed 3 atSeconds] (LogLevel ''error'' (HideBanner NewFFmpegCommand)))))"

subsection \<open>Well-formed argument lists\<close>

text \<open>The flags of the builder and the presets that take a value.\<close>

definition value_flags :: "string list" where
  "value_flags = [''-v'', ''-i'', ''-c:v'', ''-c:a'', ''-crf'', ''-preset'', ''-tune'', ''-movflags'',
                  ''-map'', ''-vf'', ''-r'', ''-ss'', ''-b:a'', ''-frames:v'', ''-progress'']"

fun wf_args :: "string list \<Rightarrow> bool" where
  "wf_args [] = True"
| "wf_args (a # rest) =
     (if a \<in> set value_flags then (case rest of [] \<Rightarrow> False | v # r \<Rightarrow> wf_args r) else wf_args rest)"

text \<open>The value of the first occurrence of a flag, reading the list as ffmpeg does.\<close>

fun opt_value :: "string \<Rightarrow> string list \<Rightarrow> string option" where
  "opt_value f [] = None"
| "opt_value f (a # rest) =
     (if a \<in> set value_flags then
        (case rest of [] \<Rightarrow> None | v # r \<Rightarrow> if a = f then Some v else opt_value f r)
      else opt_value f rest)"

subsection \<open>Lemmas\<close>

lemmas builder_defs = Args_def AppendArgs_def HideBanner_def LogLevel_def Input_def Output_def
  VideoCodec_def AudioCodec_def CopyVideo_def CopyAudio_def CRF_def Preset_def MovFlagsFastStart_def
  NewFFmpegCommand_def

lemma value_flags_set:
  "set value_flags = {''-v'', ''-i'', ''-c:v'', ''-c:a'', ''-crf'', ''-preset'', ''-tune'', ''-movflags'',
                      ''-map'', ''-vf'', ''-r'', ''-ss'', ''-b:a'', ''-frames:v'', ''-progress''}"
  by (simp add: value_flags_def)

lemma wf_args_append:
  "wf_args xs \<Longrightarrow> wf_args (xs @ ys) = wf_args ys"
proof (induction xs rule: wf_args.induct)
  case (2 a rest)
  show ?case
  proof (cases "a \<in> set value_flags")
    case True
    with "2.prems" obtain v r where "rest = v # r" "wf_args r" by (auto split: list.splits)
    with True "2.IH"(1) show ?thesis by simp
  next
    case False
    with 2 show ?thesis by simp
  qed
qed simp

lemma opt_value_append:
  "wf_args xs \<Longrightarrow> opt_value f (xs @ ys) = (case opt_value f xs of None \<Rightarrow> opt_value f ys | v \<Rightarrow> v)"
proof (induction xs rule: wf_args.induct)
  case (2 a rest)
  show ?case
  proof (cases "a \<in> set value_flags")
    case True
    with "2.prems" obtain v r where "rest = v # r" "wf_args r" by (auto split: list.splits)
    with True "2.IH"(1) show ?thesis by simp
  next
    case False
    with 2 show ?thesis by simp
  qed
qed simp
text \<open>C21: The fluent methods keep an argument list well formed: each appends a
  flag with its value or a flag that takes none, and \<open>Output\<close> appends a path that
  is not a flag.\<close>

lemma builder_wf:
  assumes "wf_args (Args c)"
  shows "wf_args (Args (HideBanner c)) \<and> wf_args (Args (LogLevel level c)) \<and> wf_args (Args (Input path c))
       \<and> wf_args (Args (VideoCodec codec c)) \<and> wf_args (Args (AudioCodec codec c))
       \<and> wf_args (Args (CopyVideo c)) \<and> wf_args (Args (CopyAudio c)) \<and> wf_args (Args (CRF v c))
       \<and> wf_args (Args (Preset pr c)) \<and> wf_args (Args (Tune t c)) \<and> wf_args (Args (MovFlagsFastStart c))
       \<and> wf_args (Args (Map_stream spec c)) \<and> wf_args (Args (Scale w h c)) \<and> wf_args (Args (FPS_rate fps c))
       \<and> wf_args (Args (StartAt sec c)) \<and> wf_args (Args (Overwrite True c))
       \<and> (out \<notin> set value_flags \<longrightarrow> wf_args (Args (Output out c)))"
  using assms by (simp add: builder_defs Tune_def Map_stream_def Scale_def FPS_rate_def StartAt_def
      Overwrite_def wf_args_append value_flags_set)

lemma builder_wf_witness:
  "wf_args (Args NewFFmpegCommand)
   \<and> wf_args (Args (HideBanner NewFFmpegCommand)) \<and> wf_args (Args (Input ''a.mp4'' NewFFmpegCommand))
   \<and> wf_args (Args (Scale 1280 720 NewFFmpegCommand))
   \<and> wf_args (Args (Output ''b.mp4'' NewFFmpegCommand))"
proof -
  have ok: "wf_args (Args NewFFmpegCommand)" by (simp add: builder_defs value_flags_def)
  show ?thesis using builder_wf [OF ok, where path = "''a.mp4''" and w = 1280 and h = 720 and out = "''b.mp4''"] ok
    by (simp add: value_flags_def)
qed

text \<open>The argument vectors the presets build.\<close>

lemma preset_args:
  "Args (PresetTranscodeMP4H264AAC input output crf preset) =
     [''-y'', ''-hide_banner'', ''-v'', ''error'', ''-i'', input, ''-c:v'', ''libx264'', ''-c:a'', ''aac'',
      ''-crf'', itoa (if crf \<le> 0 then 23 else crf), ''-preset'', if preset = [] then ''medium'' else preset,
      ''-movflags'', ''+faststart'', output]"
  "Args (PresetRemux input output) =
     [''-y'', ''-hide_banner'', ''-v'', ''error'', ''-i'', input, ''-c:v'', ''copy'', ''-c:a'', ''copy'', output]"
  "Args (PresetExtractAAC input output bitrate) =
     [''-y'', ''-hide_banner'', ''-v'', ''error'', ''-i'', input, ''-vn'', ''-c:a'', ''aac'',
      ''-b:a'', if bitrate = [] then ''128k'' else bitrate, output]"
  "Args (PresetSnapshot input output atSec) =
     [''-y'', ''-hide_banner'', ''-v'', ''error'', ''-ss'', fmt_fixed 3 atSec, ''-i'', input,
      ''-frames:v'', ''1'', output]"
  by (simp_all add: PresetTranscodeMP4H264AAC_def PresetRemux_def PresetExtractAAC_def PresetSnapshot_def
      builder_defs Let_def)



text \<open>C22: The transcoding preset passes the effective CRF: the value of \<open>-crf\<close> in
  its argument vector reads back, with \<open>strconv.Atoi\<close>, as the given CRF when it is
  positive and as the default 23 otherwise.\<close>

lemma transcode_crf:
  assumes "in_int64 crf"
  shows "map_option parse_int64 (opt_value ''-crf'' (Args (PresetTranscodeMP4H264AAC input output crf preset)))
           = Some (Some (if crf \<le> 0 then 23 else crf))"
proof -
  have "in_int64 (if crf \<le> 0 then 23 else crf)" using assms by (simp add: int64_min_def int64_max_def)
  then show ?thesis unfolding preset_args by (simp add: value_flags_set parse_int64_itoa)
qed

lemma transcode_crf_witness:
  "in_int64 (-5) \<and> map_option parse_int64 (opt_value ''-crf'' (Args (PresetTranscodeMP4H264AAC ''a'' ''b'' (-5) [])))
           = Some (Some 23)"
proof -
  have h: "in_int64 (-5)" by (simp add: int64_min_def int64_max_def)
  show ?thesis using transcode_crf [OF h, of "''a''" "''b''" "[]"] h by simp
qed


end
