(* ===== verification/Hub.thy ===== *)
theory Hub
  imports Run Command
begin

text \<open>
  The job of the web demo (\<open>src/example/demo/main.go\<close>): \<open>FFJob\<close> with its
  subscriber registry (\<open>subscribe\<close>, \<open>unsubscribe\<close>, \<open>broadcast\<close>), the goroutine
  that runs a job (the \<open>go func()\<close> of \<open>/ffmpeg/start\<close>) and the SSE handler
  \<open>/ffmpeg/events/:id\<close>. Channels are references: they live in a store \<open>chan list\<close>
  indexed by their address, each with its buffer (capacity 16) and its closed flag.
  The job's goroutine is the list of its remaining actions (set the status, set the
  error text, broadcast an event), computed from the run of ffmpeg; the handlers are
  clients with a program counter. The inductive relation \<open>hub_step\<close> interleaves
  one action of the goroutine or of one client at a time, which is how the mutex of
  the job and the channel operations serialise them. Two fields are auxiliary and not
  in the code: \<open>sent\<close>, the log of the events broadcast so far, and the log position
  at which a client subscribed, kept in its program counter.
\<close>

record sse_event =
  Event :: string
  Data :: string

abbreviation sse :: "string \<Rightarrow> string \<Rightarrow> sse_event" where
  "sse e d \<equiv> \<lparr>Event = e, Data = d\<rparr>"

record chan =
  buf :: "sse_event list"
  is_closed :: bool

definition chan_cap :: nat where "chan_cap = 16"

record ff_job =
  ID :: string
  Status :: string
  InputPath :: string
  InputDesc :: string
  InputCleanup :: bool
  OutputPath :: string
  OutputName :: string
  ErrText :: string
  subs :: "nat list option"

subsection \<open>The subscriber registry\<close>

text \<open>\<open>subscribe\<close>: a new channel of capacity 16, registered in \<open>subs\<close> (made on
  first use).\<close>

definition subscribe :: "ff_job \<Rightarrow> chan list \<Rightarrow> nat \<times> ff_job \<times> chan list" where
  "subscribe j cs =
     (let ch = length cs;
          s = (case subs j of None \<Rightarrow> [] | Some l \<Rightarrow> l)
      in (ch, j\<lparr>subs := Some (List.insert ch s)\<rparr>, cs @ [\<lparr>buf = [], is_closed = False\<rparr>]))"

text \<open>\<open>unsubscribe\<close>: deregister, then \<open>close(ch)\<close>, which panics (\<open>None\<close>) on a
  closed channel.\<close>

definition unsubscribe :: "nat \<Rightarrow> ff_job \<Rightarrow> chan list \<Rightarrow> (ff_job \<times> chan list) option" where
  "unsubscribe ch j cs =
     (let j' = (case subs j of None \<Rightarrow> j | Some l \<Rightarrow> j\<lparr>subs := Some (removeAll ch l)\<rparr>)
      in if ch < length cs \<and> \<not> is_closed (cs ! ch)
         then Some (j', cs[ch := (cs ! ch)\<lparr>is_closed := True\<rparr>]) else None)"

text \<open>The non-blocking send \<open>select { case ch <- ev: default: }\<close>: the event is
  queued when the buffer has room and dropped otherwise; a send on a closed channel
  panics.\<close>

definition enqueue :: "sse_event \<Rightarrow> chan \<Rightarrow> chan" where
  "enqueue e c = (if length (buf c) < chan_cap then c\<lparr>buf := buf c @ [e]\<rparr> else c)"

definition send_nb :: "sse_event \<Rightarrow> chan \<Rightarrow> chan option" where
  "send_nb e c = (if is_closed c then None else Some (enqueue e c))"

fun bcast_list :: "sse_event \<Rightarrow> nat list \<Rightarrow> chan list \<Rightarrow> chan list option" where
  "bcast_list e [] cs = Some cs"
| "bcast_list e (ch # chs) cs =
     (if ch < length cs then
        (case send_nb e (cs ! ch) of None \<Rightarrow> None | Some c \<Rightarrow> bcast_list e chs (cs[ch := c]))
      else None)"

text \<open>\<open>broadcast\<close> sends to every registered channel, in the order of the registry
  (Go's map order is random; the sends to distinct channels commute).\<close>

definition broadcast :: "sse_event \<Rightarrow> ff_job \<Rightarrow> chan list \<Rightarrow> chan list option" where
  "broadcast e j cs = bcast_list e (case subs j of None \<Rightarrow> [] | Some l \<Rightarrow> l) cs"

text \<open>A receive \<open>ev := <-sub\<close>: the first buffered event, or blocked (\<open>None\<close>).\<close>

definition recv :: "nat \<Rightarrow> chan list \<Rightarrow> (sse_event \<times> chan list) option" where
  "recv ch cs =
     (case buf (cs ! ch) of [] \<Rightarrow> None | e # r \<Rightarrow> Some (e, cs[ch := (cs ! ch)\<lparr>buf := r\<rparr>]))"

text \<open>The events after which the SSE handler returns.\<close>

definition terminal :: "sse_event \<Rightarrow> bool" where
  "terminal e \<longleftrightarrow> Event e = ''done'' \<or> Event e = ''fferror''"

subsection \<open>The job goroutine\<close>

datatype wact = Set_status string | Set_err string | Bcast sse_event

text \<open>The encoders the goroutine calls, which are library code: \<open>json.Marshal\<close> of
  the progress map and of the done payload, and the \<open>Error()\<close> text of a run error.\<close>

record hub_codec =
  progress_json :: "ffmpeg_progress \<Rightarrow> string"
  done_json :: "string \<Rightarrow> string \<Rightarrow> string"
  error_text :: "ff_error \<Rightarrow> string"

text \<open>The command the goroutine builds from the form's action.\<close>

definition job_command :: "string \<Rightarrow> ff_job \<Rightarrow> string \<Rightarrow> go_float \<Rightarrow> int \<Rightarrow> string \<Rightarrow> ffmpeg_command" where
  "job_command action j abitrate atSec crf preset =
     (if action = ''extract_aac'' then PresetExtractAAC (InputPath j) (OutputPath j) abitrate
      else if action = ''snapshot'' then PresetSnapshot (InputPath j) (OutputPath j) atSec
      else if action = ''remux'' then PresetRemux (InputPath j) (OutputPath j)
      else PresetTranscodeMP4H264AAC (InputPath j) (OutputPath j) crf preset)"

text \<open>The goroutine's actions once ffmpeg has delivered the snapshots \<open>ps\<close> to the
  sink and returned \<open>err\<close>: status running, one progress event per snapshot, then the
  error or the success tail.\<close>

definition job_script :: "hub_codec \<Rightarrow> ff_job \<Rightarrow> ffmpeg_progress list \<Rightarrow> ff_error option \<Rightarrow> wact list" where
  "job_script cd j ps err =
     [Set_status ''running'', Bcast (sse ''status'' ''running'')]
     @ map (\<lambda>p. Bcast (sse ''progress'' (progress_json cd p))) ps
     @ (case err of
          Some e \<Rightarrow> [Set_status ''error'', Set_err (error_text cd e), Bcast (sse ''status'' ''error''),
                    Bcast (sse ''fferror'' (error_text cd e))]
        | None \<Rightarrow> [Set_status ''done'', Bcast (sse ''status'' ''done''),
                    Bcast (sse ''done'' (done_json cd (''/ffmpeg/download/'' @ ID j) (OutputName j)))])"

text \<open>The sink the goroutine passes to \<open>RunWithProgress\<close>: broadcast a progress event
  and never abort. Its state is the channel store, \<open>None\<close> once a send panicked.\<close>

definition progress_sink :: "hub_codec \<Rightarrow> ff_job \<Rightarrow> chan list option progress_cb" where
  "progress_sink cd j cs p h =
     (Option.bind cs (broadcast (sse ''progress'' (progress_json cd p)) j), False)"

text \<open>The run of the goroutine: the tool state after it, the snapshots the sink
  receives and the error, read off a run whose sink records the snapshots.\<close>

definition job_run :: "run_env \<Rightarrow> ffmpeg_tool \<Rightarrow> ffmpeg_command
                       \<Rightarrow> ffmpeg_tool \<times> ffmpeg_progress list \<times> ff_error option" where
  "job_run env t cmd =
     (case RunWithProgress env t (Args cmd) (Some record_cb) [] of
        (t', _, _, tr, err) \<Rightarrow> (t', tr, err))"

subsection \<open>The interleaved system\<close>

text \<open>The SSE handler: not yet subscribed; subscribed on a channel (and the log
  position then); the current status written, waiting on the channel; returned.
  Handlers are numbered; a handler that has not run yet is \<open>C_new\<close>, so the family
  of all handlers that ever attach is a function from their number to their state.\<close>

datatype cstate = C_new | C_sub nat nat | C_wait nat nat | C_end nat

record client =
  cst :: cstate
  out :: "sse_event list"

record hub_sys =
  job :: ff_job
  chans :: "chan list"
  worker :: "wact list"
  clients :: "nat \<Rightarrow> client"
  sent :: "sse_event list"

definition worker_act :: "wact \<Rightarrow> hub_sys \<Rightarrow> hub_sys option" where
  "worker_act a s =
     (case a of
        Set_status st \<Rightarrow> Some (s\<lparr>job := (job s)\<lparr>Status := st\<rparr>\<rparr>)
      | Set_err e \<Rightarrow> Some (s\<lparr>job := (job s)\<lparr>ErrText := e\<rparr>\<rparr>)
      | Bcast e \<Rightarrow> map_option (\<lambda>cs. s\<lparr>chans := cs, sent := sent s @ [e]\<rparr>) (broadcast e (job s) (chans s)))"

definition set_client :: "nat \<Rightarrow> client \<Rightarrow> hub_sys \<Rightarrow> hub_sys" where
  "set_client i c s = s\<lparr>clients := (clients s)(i := c)\<rparr>"

text \<open>One step of the goroutine or of handler \<open>i\<close>. \<open>subscr\<close> is \<open>job.subscribe()\<close>;
  \<open>status\<close> is \<open>writeSSE(c.Writer, "status", job.Status)\<close>, a separate step
  because \<open>Status\<close> is read after \<open>subscribe\<close> returns, without the lock;
  \<open>receive\<close> and \<open>finish\<close> are the \<open>case ev := <-sub\<close> branch, the latter
  returning on \<open>done\<close>/\<open>fferror\<close> and running the deferred \<open>unsubscribe\<close>;
  \<open>disconnect\<close> is the \<open>Request.Context().Done()\<close> branch.\<close>

inductive hub_step :: "hub_sys \<Rightarrow> hub_sys \<Rightarrow> bool" where
  work: "worker s = a # w \<Longrightarrow> worker_act a s = Some s' \<Longrightarrow> hub_step s (s'\<lparr>worker := w\<rparr>)"
| subscr: "cst (clients s i) = C_new \<Longrightarrow> subscribe (job s) (chans s) = (ch, j', cs') \<Longrightarrow>
     hub_step s (set_client i ((clients s i)\<lparr>cst := C_sub ch (length (sent s))\<rparr>) (s\<lparr>job := j', chans := cs'\<rparr>))"
| status: "cst (clients s i) = C_sub ch n \<Longrightarrow>
     hub_step s (set_client i \<lparr>cst = C_wait ch n, out = out (clients s i) @ [sse ''status'' (Status (job s))]\<rparr> s)"
| receive: "cst (clients s i) = C_wait ch n \<Longrightarrow> recv ch (chans s) = Some (e, cs') \<Longrightarrow> \<not> terminal e \<Longrightarrow>
     hub_step s (set_client i \<lparr>cst = C_wait ch n, out = out (clients s i) @ [e]\<rparr> (s\<lparr>chans := cs'\<rparr>))"
| finish: "cst (clients s i) = C_wait ch n \<Longrightarrow> recv ch (chans s) = Some (e, cs') \<Longrightarrow> terminal e \<Longrightarrow>
     unsubscribe ch (job s) cs' = Some (j', cs'') \<Longrightarrow>
     hub_step s (set_client i \<lparr>cst = C_end n, out = out (clients s i) @ [e]\<rparr> (s\<lparr>job := j', chans := cs''\<rparr>))"
| disconnect: "cst (clients s i) = C_wait ch n \<Longrightarrow> unsubscribe ch (job s) (chans s) = Some (j', cs') \<Longrightarrow>
     hub_step s (set_client i ((clients s i)\<lparr>cst := C_end n\<rparr>) (s\<lparr>job := j', chans := cs'\<rparr>))"

inductive hub_reach :: "hub_sys \<Rightarrow> hub_sys \<Rightarrow> bool" for s0 where
  refl: "hub_reach s0 s0"
| step: "hub_reach s0 s \<Longrightarrow> hub_step s s' \<Longrightarrow> hub_reach s0 s'"

text \<open>A job as \<open>/ffmpeg/start\<close> creates it, with the goroutine about to start and
  no handler attached.\<close>

definition hub_init :: "ff_job \<Rightarrow> wact list \<Rightarrow> hub_sys" where
  "hub_init j w =
     \<lparr>job = j\<lparr>Status := ''created'', subs := None\<rparr>, chans = [], worker = w,
      clients = (\<lambda>_. \<lparr>cst = C_new, out = []\<rparr>), sent = []\<rparr>"

subsection \<open>Views and the invariant\<close>

definition subs_list :: "ff_job \<Rightarrow> nat list" where
  "subs_list j = (case subs j of None \<Rightarrow> [] | Some l \<Rightarrow> l)"

text \<open>The store after a broadcast to the channels \<open>l\<close>, channel by channel.\<close>

definition bcast_spec :: "sse_event \<Rightarrow> nat list \<Rightarrow> chan list \<Rightarrow> chan list" where
  "bcast_spec e l cs = map (\<lambda>i. if i \<in> set l then enqueue e (cs ! i) else cs ! i) [0..<length cs]"

definition client_chan :: "cstate \<Rightarrow> nat option" where
  "client_chan c = (case c of C_sub ch n \<Rightarrow> Some ch | C_wait ch n \<Rightarrow> Some ch | _ \<Rightarrow> None)"

text \<open>What a client has seen: nothing before its first write; then the status it
  read, followed by events that (with those still buffered) form a subsequence of
  the events broadcast since it subscribed.\<close>

definition client_ok :: "hub_sys \<Rightarrow> client \<Rightarrow> bool" where
  "client_ok s c \<longleftrightarrow>
     (case cst c of
        C_new \<Rightarrow> out c = []
      | C_sub ch n \<Rightarrow> ch \<in> set (subs_list (job s)) \<and> n \<le> length (sent s) \<and> out c = []
                     \<and> subseq (buf (chans s ! ch)) (drop n (sent s))
      | C_wait ch n \<Rightarrow> ch \<in> set (subs_list (job s)) \<and> n \<le> length (sent s) \<and> out c \<noteq> []
                     \<and> Event (hd (out c)) = ''status'' \<and> subseq (tl (out c) @ buf (chans s ! ch)) (drop n (sent s))
      | C_end n \<Rightarrow> n \<le> length (sent s) \<and> out c \<noteq> [] \<and> Event (hd (out c)) = ''status''
                   \<and> subseq (tl (out c)) (drop n (sent s)))"

text \<open>No two clients wait on the same channel.\<close>

definition owned_excl :: "(nat \<Rightarrow> client) \<Rightarrow> bool" where
  "owned_excl cls \<longleftrightarrow>
     (\<forall>i k ch. i \<noteq> k \<longrightarrow> client_chan (cst (cls i)) = Some ch \<longrightarrow> client_chan (cst (cls k)) \<noteq> Some ch)"

definition hub_inv :: "hub_sys \<Rightarrow> bool" where
  "hub_inv s \<longleftrightarrow>
     distinct (subs_list (job s))
   \<and> (\<forall>ch \<in> set (subs_list (job s)). ch < length (chans s) \<and> \<not> is_closed (chans s ! ch))
   \<and> (\<forall>c \<in> set (chans s). length (buf c) \<le> chan_cap)
   \<and> (\<forall>i. client_ok s (clients s i))
   \<and> owned_excl (clients s)"

text \<open>The events a goroutine script broadcasts, in order.\<close>

fun bcast_events :: "wact list \<Rightarrow> sse_event list" where
  "bcast_events [] = []"
| "bcast_events (Bcast e # w) = e # bcast_events w"
| "bcast_events (_ # w) = bcast_events w"

text \<open>A stream in which a terminal event can only be the last one.\<close>

fun term_last :: "sse_event list \<Rightarrow> bool" where
  "term_last [] = True"
| "term_last (e # es) = ((terminal e \<longrightarrow> es = []) \<and> term_last es)"

subsection \<open>An executable scheduler\<close>

text \<open>Concrete interleavings are written as a schedule: which goroutine moves next.
  \<open>hub_exec\<close> runs a schedule deterministically, refusing a move that is not
  enabled; every run it accepts is a run of \<open>hub_step\<close>.\<close>

datatype move = M_work | M_sub nat | M_status nat | M_recv nat | M_disc nat

definition hub_move :: "move \<Rightarrow> hub_sys \<Rightarrow> hub_sys option" where
  "hub_move m s =
     (case m of
        M_work \<Rightarrow>
          (case worker s of [] \<Rightarrow> None
           | a # w \<Rightarrow> map_option (\<lambda>s'. s'\<lparr>worker := w\<rparr>) (worker_act a s))
      | M_sub i \<Rightarrow>
          (if cst (clients s i) = C_new then
             (case subscribe (job s) (chans s) of (ch, j', cs') \<Rightarrow>
                Some (set_client i ((clients s i)\<lparr>cst := C_sub ch (length (sent s))\<rparr>) (s\<lparr>job := j', chans := cs'\<rparr>)))
           else None)
      | M_status i \<Rightarrow>
          (case cst (clients s i) of
             C_sub ch n \<Rightarrow>
               Some (set_client i \<lparr>cst = C_wait ch n, out = out (clients s i) @ [sse ''status'' (Status (job s))]\<rparr> s)
           | _ \<Rightarrow> None)
      | M_recv i \<Rightarrow>
          (case cst (clients s i) of
             C_wait ch n \<Rightarrow>
               (case recv ch (chans s) of
                  None \<Rightarrow> None
                | Some (e, cs') \<Rightarrow>
                    if terminal e then
                      (case unsubscribe ch (job s) cs' of
                         None \<Rightarrow> None
                       | Some (j', cs'') \<Rightarrow>
                           Some (set_client i \<lparr>cst = C_end n, out = out (clients s i) @ [e]\<rparr> (s\<lparr>job := j', chans := cs''\<rparr>)))
                    else Some (set_client i \<lparr>cst = C_wait ch n, out = out (clients s i) @ [e]\<rparr> (s\<lparr>chans := cs'\<rparr>)))
           | _ \<Rightarrow> None)
      | M_disc i \<Rightarrow>
          (case cst (clients s i) of
             C_wait ch n \<Rightarrow>
               (case unsubscribe ch (job s) (chans s) of
                  None \<Rightarrow> None
                | Some (j', cs') \<Rightarrow> Some (set_client i ((clients s i)\<lparr>cst := C_end n\<rparr>) (s\<lparr>job := j', chans := cs'\<rparr>)))
           | _ \<Rightarrow> None))"

fun hub_exec :: "move list \<Rightarrow> hub_sys \<Rightarrow> hub_sys option" where
  "hub_exec [] s = Some s"
| "hub_exec (m # ms) s = (case hub_move m s of None \<Rightarrow> None | Some s' \<Rightarrow> hub_exec ms s')"

text \<open>A handler waiting on an empty channel after the goroutine has finished.\<close>

definition quiet :: "nat \<Rightarrow> nat \<Rightarrow> nat \<Rightarrow> sse_event list \<Rightarrow> hub_sys \<Rightarrow> bool" where
  "quiet i ch n os s \<longleftrightarrow> worker s = [] \<and> out (clients s i) = os
     \<and> (cst (clients s i) = C_wait ch n \<and> buf (chans s ! ch) = [] \<or> cst (clients s i) = C_end n)"

text \<open>A schedule in which handler 0 attaches, then the goroutine runs to its end,
  then the handler reads 16 events.\<close>

abbreviation lost_sched :: "move list" where
  "lost_sched \<equiv> [M_sub 0, M_status 0] @ replicate 20 M_work @ replicate 16 (M_recv 0)"

text \<open>A job and encoders for example runs.\<close>

definition demo_job :: ff_job where
  "demo_job = \<lparr>ID = ''6f1c'', Status = [], InputPath = ''in.mov'', InputDesc = [], InputCleanup = False,
                OutputPath = ''/tmp/ffout-1.mp4'', OutputName = ''out.mp4'', ErrText = [], subs = None\<rparr>"

definition demo_codec :: hub_codec where
  "demo_codec = \<lparr>progress_json = (\<lambda>p. itoa (Frame p)), done_json = (\<lambda>d n. d),
                  error_text = (\<lambda>e. ''ffmpeg failed'')\<rparr>"

subsection \<open>The invariant of the hub\<close>

lemma length_bcast_spec [simp]: "length (bcast_spec e l cs) = length cs"
  by (simp add: bcast_spec_def)

lemma nth_bcast_spec [simp]:
  "i < length cs \<Longrightarrow> bcast_spec e l cs ! i = (if i \<in> set l then enqueue e (cs ! i) else cs ! i)"
  by (simp add: bcast_spec_def)

lemma is_closed_enqueue [simp]: "is_closed (enqueue e c) = is_closed c"
  by (simp add: enqueue_def)

lemma bcast_list_spec:
  "distinct l \<Longrightarrow> \<forall>ch \<in> set l. ch < length cs \<and> \<not> is_closed (cs ! ch) \<Longrightarrow>
   bcast_list e l cs = Some (bcast_spec e l cs)"
proof (induction l arbitrary: cs)
  case Nil
  then show ?case by (simp add: bcast_spec_def nth_equalityI)
next
  case (Cons ch chs)
  let ?cs = "cs[ch := enqueue e (cs ! ch)]"
  have "bcast_list e chs ?cs = Some (bcast_spec e chs ?cs)"
    using Cons by (intro Cons.IH) (auto simp: nth_list_update)
  moreover have "bcast_spec e chs ?cs = bcast_spec e (ch # chs) cs"
    using Cons.prems by (intro nth_equalityI) (auto simp: nth_list_update)
  ultimately show ?case using Cons.prems by (simp add: send_nb_def)
qed


lemma length_buf_enqueue: "length (buf c) \<le> chan_cap \<Longrightarrow> length (buf (enqueue e c)) \<le> chan_cap"
  by (simp add: enqueue_def)

lemma subseq_enqueue:
  "subseq (xs @ buf c) ys \<Longrightarrow> subseq (xs @ buf (enqueue e c)) (ys @ [e])"
  by (auto simp: enqueue_def subseq_snoc_right dest: subseq_append_single [where a = e])

lemma client_ok_clients [simp]: "client_ok (s\<lparr>clients := x\<rparr>) c = client_ok s c"
  by (simp add: client_ok_def split: cstate.split)

lemma set_bcast_spec: "set (bcast_spec e l cs) \<subseteq> set cs \<union> enqueue e ` set cs"
  by (auto simp: bcast_spec_def)

lemma client_ok_frame:
  assumes "client_ok s c" "client_chan (cst c) \<noteq> Some ch" "sent s' = sent s"
    "\<forall>x \<in> set (subs_list (job s)). x \<noteq> ch \<longrightarrow> x \<in> set (subs_list (job s')) \<and> chans s' ! x = chans s ! x"
  shows "client_ok s' c"
  using assms by (auto simp: client_ok_def client_chan_def split: cstate.splits)

lemma broadcast_spec:
  "hub_inv s \<Longrightarrow> broadcast e (job s) (chans s) = Some (bcast_spec e (subs_list (job s)) (chans s))"
  unfolding broadcast_def hub_inv_def subs_list_def [symmetric]
  by (rule bcast_list_spec) auto

lemma client_ok_bcast:
  assumes "client_ok s c" "\<forall>x \<in> set (subs_list (job s)). x < length (chans s)"
  shows "client_ok (s\<lparr>chans := bcast_spec e (subs_list (job s)) (chans s), sent := sent s @ [e]\<rparr>) c"
proof (cases "cst c")
  case (C_sub ch n)
  with assms have "ch < length (chans s)" by (auto simp: client_ok_def)
  with assms C_sub subseq_enqueue [of "[]" "chans s ! ch" "drop n (sent s)" e] show ?thesis
    by (auto simp: client_ok_def)
next
  case (C_wait ch n)
  with assms have "ch < length (chans s)" by (auto simp: client_ok_def)
  with assms C_wait subseq_enqueue [of "tl (out c)" "chans s ! ch" "drop n (sent s)" e] show ?thesis
    by (auto simp: client_ok_def)
qed (use assms in \<open>auto simp: client_ok_def subseq_snoc_right\<close>)

lemma inv_bcast:
  assumes "hub_inv s"
  shows "hub_inv (s\<lparr>chans := bcast_spec e (subs_list (job s)) (chans s), sent := sent s @ [e]\<rparr>)"
proof -
  have v: "\<forall>x \<in> set (subs_list (job s)). x < length (chans s)" using assms by (simp add: hub_inv_def)
  have "\<forall>c \<in> set (bcast_spec e (subs_list (job s)) (chans s)). length (buf c) \<le> chan_cap"
    using assms set_bcast_spec [of e "subs_list (job s)" "chans s"]
    by (auto simp: hub_inv_def length_buf_enqueue)
  with assms v show ?thesis by (auto simp: hub_inv_def client_ok_bcast)
qed


lemma subscribe_eq:
  "subscribe j cs = (ch, j', cs') \<Longrightarrow>
   ch = length cs \<and> subs_list j' = List.insert ch (subs_list j) \<and> cs' = cs @ [\<lparr>buf = [], is_closed = False\<rparr>]"
  by (auto simp: subscribe_def subs_list_def Let_def split: option.splits)

lemma unsubscribe_eq:
  "unsubscribe ch j cs = Some (j', cs') \<Longrightarrow>
   ch < length cs \<and> \<not> is_closed (cs ! ch) \<and> subs_list j' = removeAll ch (subs_list j)
   \<and> cs' = cs[ch := (cs ! ch)\<lparr>is_closed := True\<rparr>]"
  by (auto simp: unsubscribe_def subs_list_def Let_def split: option.splits if_splits)

lemma recv_eq:
  "recv ch cs = Some (e, cs') \<Longrightarrow> \<exists>r. buf (cs ! ch) = e # r \<and> cs' = cs[ch := (cs ! ch)\<lparr>buf := r\<rparr>]"
  by (auto simp: recv_def split: list.splits)

lemma owned_update:
  assumes "owned_excl cls"
    "\<forall>ch. client_chan (cst c) = Some ch \<longrightarrow>
          client_chan (cst (cls i)) = Some ch \<or> (\<forall>k. k \<noteq> i \<longrightarrow> client_chan (cst (cls k)) \<noteq> Some ch)"
  shows "owned_excl (cls(i := c))"
  using assms unfolding owned_excl_def by (metis fun_upd_apply)

lemma client_ok_job:
  "subs_list j = subs_list (job s) \<Longrightarrow> client_ok (s\<lparr>job := j\<rparr>) c = client_ok s c"
  by (simp add: client_ok_def split: cstate.split)

lemma inv_job:
  "subs_list j = subs_list (job s) \<Longrightarrow> hub_inv (s\<lparr>job := j\<rparr>) = hub_inv s"
  by (simp add: hub_inv_def client_ok_job)

lemma subs_list_fields [simp]:
  "subs_list (j\<lparr>Status := x\<rparr>) = subs_list j" "subs_list (j\<lparr>ErrText := x\<rparr>) = subs_list j"
  by (simp_all add: subs_list_def)


lemma subseq_appendD: "subseq (xs @ ys) zs \<Longrightarrow> subseq xs zs"
  by (auto dest!: list_emb_appendD)

lemma client_ok_worker [simp]: "client_ok (s\<lparr>worker := w\<rparr>) c = client_ok s c"
  by (simp add: client_ok_def split: cstate.split)

lemma hub_inv_worker [simp]: "hub_inv (s\<lparr>worker := w\<rparr>) = hub_inv s"
  by (simp add: hub_inv_def)

lemma hub_inv_chan:
  assumes "hub_inv s" "client_chan (cst (clients s k)) = Some x"
  shows "x \<in> set (subs_list (job s)) \<and> x < length (chans s) \<and> \<not> is_closed (chans s ! x)"
proof -
  have "client_ok s (clients s k)" using assms(1) by (simp add: hub_inv_def)
  then have "x \<in> set (subs_list (job s))"
    using assms(2) by (auto simp: client_ok_def client_chan_def split: cstate.splits)
  with assms(1) show ?thesis by (simp add: hub_inv_def)
qed

lemma inv_work:
  assumes "hub_inv s" "worker_act a s = Some s'"
  shows "hub_inv s'"
proof (cases a)
  case (Bcast e)
  with assms broadcast_spec [OF assms(1), of e] show ?thesis
    by (auto simp: worker_act_def intro: inv_bcast)
qed (use assms in \<open>auto simp: worker_act_def inv_job\<close>)


lemma inv_subscr:
  assumes inv: "hub_inv s" and new: "cst (clients s i) = C_new"
    and sub: "subscribe (job s) (chans s) = (ch, j', cs')"
  shows "hub_inv (set_client i ((clients s i)\<lparr>cst := C_sub ch (length (sent s))\<rparr>) (s\<lparr>job := j', chans := cs'\<rparr>))"
    (is "hub_inv ?s")
proof -
  have ch: "ch = length (chans s)" and sl: "subs_list j' = List.insert ch (subs_list (job s))"
    and cs: "cs' = chans s @ [\<lparr>buf = [], is_closed = False\<rparr>]"
    using subscribe_eq [OF sub] by auto
  have old: "\<forall>x \<in> set (subs_list (job s)). x < length (chans s) \<and> \<not> is_closed (chans s ! x)"
    using inv by (simp add: hub_inv_def)
  have other: "client_chan (cst (clients s k)) \<noteq> Some ch" for k
    using hub_inv_chan [OF inv, of k] ch by (cases "client_chan (cst (clients s k))") auto
  have "client_ok s (clients s i)" using inv by (simp add: hub_inv_def)
  with new have out0: "out (clients s i) = []" by (simp add: client_ok_def)
  have "distinct (subs_list (job s))" using inv by (simp add: hub_inv_def)
  then have d: "distinct (subs_list (job ?s))" by (simp add: set_client_def sl)
  have v: "\<forall>x \<in> set (subs_list (job ?s)). x < length (chans ?s) \<and> \<not> is_closed (chans ?s ! x)"
    using old by (auto simp: set_client_def sl cs ch nth_append)
  have b: "\<forall>c \<in> set (chans ?s). length (buf c) \<le> chan_cap"
    using inv by (auto simp: set_client_def cs hub_inv_def)
  have ok: "client_ok ?s (clients ?s k)" for k
  proof (cases "k = i")
    case True
    then show ?thesis using out0 by (simp add: set_client_def client_ok_def sl cs ch)
  next
    case False
    have "client_ok s (clients s k)" using inv by (simp add: hub_inv_def)
    then have "client_ok (s\<lparr>job := j', chans := cs'\<rparr>) (clients s k)"
      by (rule client_ok_frame [where ch = ch]) (use other old in \<open>auto simp: sl cs nth_append\<close>)
    with False show ?thesis by (simp add: set_client_def)
  qed
  have own: "owned_excl (clients ?s)"
    using inv other by (auto simp: set_client_def hub_inv_def client_chan_def intro!: owned_update)
  show ?thesis using d v b ok own by (simp add: hub_inv_def)
qed


lemma hub_inv_client:
  assumes "hub_inv s" shows "client_ok s (clients s k)"
  using assms by (simp add: hub_inv_def)

lemma owned_other:
  assumes "hub_inv s" "client_chan (cst (clients s i)) = Some ch" "k \<noteq> i"
  shows "client_chan (cst (clients s k)) \<noteq> Some ch"
  using assms by (auto simp: hub_inv_def owned_excl_def)

lemma inv_status:
  assumes inv: "hub_inv s" and c: "cst (clients s i) = C_sub ch n"
  shows "hub_inv (set_client i \<lparr>cst = C_wait ch n, out = out (clients s i) @ [sse ''status'' (Status (job s))]\<rparr> s)"
proof -
  have "client_ok s (clients s i)" by (rule hub_inv_client [OF inv])
  with c have "client_ok s \<lparr>cst = C_wait ch n, out = out (clients s i) @ [sse ''status'' (Status (job s))]\<rparr>"
    by (simp add: client_ok_def)
  moreover have "owned_excl ((clients s)(i := \<lparr>cst = C_wait ch n, out = out (clients s i) @ [sse ''status'' (Status (job s))]\<rparr>))"
    using inv c by (intro owned_update) (auto simp: hub_inv_def client_chan_def)
  ultimately show ?thesis using inv by (simp add: hub_inv_def set_client_def)
qed

lemma is_closed_update_buf [simp]:
  "x < length cs \<Longrightarrow> is_closed (cs[ch := (cs ! ch)\<lparr>buf := r\<rparr>] ! x) = is_closed (cs ! x)"
  by (cases "x = ch") (auto simp: nth_list_update)

lemma bound_update:
  "\<forall>c \<in> set cs. length (buf c) \<le> chan_cap \<Longrightarrow> length (buf x) \<le> chan_cap \<Longrightarrow>
   \<forall>c \<in> set (cs[i := x]). length (buf c) \<le> chan_cap"
  by (metis insert_iff set_update_subset_insert subsetD)

lemma inv_receive:
  assumes inv: "hub_inv s" and c: "cst (clients s i) = C_wait ch n" and r: "recv ch (chans s) = Some (e, cs')"
  shows "hub_inv (set_client i \<lparr>cst = C_wait ch n, out = out (clients s i) @ [e]\<rparr> (s\<lparr>chans := cs'\<rparr>))"
    (is "hub_inv ?s")
proof -
  obtain rest where b: "buf (chans s ! ch) = e # rest" and cs: "cs' = (chans s)[ch := (chans s ! ch)\<lparr>buf := rest\<rparr>]"
    using recv_eq [OF r] by blast
  have ci: "client_ok s (clients s i)" by (rule hub_inv_client [OF inv])
  have chv: "ch < length (chans s)" using hub_inv_chan [OF inv, of i ch] c by (simp add: client_chan_def)
  have v: "\<forall>x \<in> set (subs_list (job ?s)). x < length (chans ?s) \<and> \<not> is_closed (chans ?s ! x)"
    using inv by (auto simp: set_client_def cs hub_inv_def)
  have all: "\<forall>c \<in> set (chans s). length (buf c) \<le> chan_cap" using inv by (simp add: hub_inv_def)
  then have "length (buf (chans s ! ch)) \<le> chan_cap" using chv by simp
  then have bd: "\<forall>c \<in> set (chans ?s). length (buf c) \<le> chan_cap"
    using bound_update [OF all, of "(chans s ! ch)\<lparr>buf := rest\<rparr>" ch] b by (simp add: set_client_def cs)
  have ok: "client_ok ?s (clients ?s k)" for k
  proof (cases "k = i")
    case True
    with ci c b show ?thesis by (simp add: set_client_def client_ok_def cs chv)
  next
    case False
    have "client_ok (s\<lparr>chans := cs'\<rparr>) (clients s k)"
      by (rule client_ok_frame [OF hub_inv_client [OF inv], where ch = ch])
         (use owned_other [OF inv _ False, of ch] c in \<open>auto simp: cs client_chan_def\<close>)
    with False show ?thesis by (simp add: set_client_def)
  qed
  have own: "owned_excl (clients ?s)"
    using inv c by (auto simp: set_client_def hub_inv_def client_chan_def intro!: owned_update)
  show ?thesis using inv v bd ok own by (simp add: hub_inv_def set_client_def)
qed


lemma is_closed_update_closed:
  "x < length cs \<Longrightarrow> x \<noteq> ch \<Longrightarrow> cs[ch := v] ! x = cs ! x"
  by simp

lemma inv_close:
  assumes inv: "hub_inv s" and c: "cst (clients s i) = C_wait ch n"
    and u: "unsubscribe ch (job s) (chans s) = Some (j', cs')"
    and c': "cst c' = C_end n" "out c' \<noteq> []" "Event (hd (out c')) = ''status''"
       "subseq (tl (out c')) (drop n (sent s))"
  shows "hub_inv (set_client i c' (s\<lparr>job := j', chans := cs'\<rparr>))"
    (is "hub_inv ?s")
proof -
  have chv: "ch < length (chans s)" and sl: "subs_list j' = removeAll ch (subs_list (job s))"
    and cs: "cs' = (chans s)[ch := (chans s ! ch)\<lparr>is_closed := True\<rparr>]"
    using unsubscribe_eq [OF u] by auto
  have ci: "client_ok s (clients s i)" by (rule hub_inv_client [OF inv])
  have "distinct (subs_list (job s))" using inv by (simp add: hub_inv_def)
  then have d: "distinct (subs_list (job ?s))" by (simp add: set_client_def sl distinct_removeAll)
  have v: "\<forall>x \<in> set (subs_list (job ?s)). x < length (chans ?s) \<and> \<not> is_closed (chans ?s ! x)"
    using inv by (auto simp: set_client_def sl cs hub_inv_def)
  have all: "\<forall>c \<in> set (chans s). length (buf c) \<le> chan_cap" using inv by (simp add: hub_inv_def)
  then have "length (buf (chans s ! ch)) \<le> chan_cap" using chv by simp
  then have bd: "\<forall>c \<in> set (chans ?s). length (buf c) \<le> chan_cap"
    using bound_update [OF all, of "(chans s ! ch)\<lparr>is_closed := True\<rparr>" ch] by (simp add: set_client_def cs)
  have ok: "client_ok ?s (clients ?s k)" for k
  proof (cases "k = i")
    case True
    with c' ci c show ?thesis by (simp add: set_client_def client_ok_def)
  next
    case False
    have "client_ok (s\<lparr>job := j', chans := cs'\<rparr>) (clients s k)"
      by (rule client_ok_frame [OF hub_inv_client [OF inv], where ch = ch])
         (use owned_other [OF inv _ False, of ch] c in \<open>auto simp: cs sl client_chan_def\<close>)
    with False show ?thesis by (simp add: set_client_def)
  qed
  have own: "owned_excl (clients ?s)"
    using inv c' by (auto simp: set_client_def hub_inv_def client_chan_def intro!: owned_update)
  show ?thesis using d v bd ok own by (simp add: hub_inv_def)
qed

lemma set_client_twice [simp]: "set_client i c (set_client i c' s) = set_client i c s"
  by (simp add: set_client_def)

lemma set_client_fields [simp]:
  "job (set_client i c s) = job s" "chans (set_client i c s) = chans s" "sent (set_client i c s) = sent s"
  "clients (set_client i c s) = (clients s)(i := c)" "worker (set_client i c s) = worker s"
  by (simp_all add: set_client_def)

lemma inv_finish:
  assumes inv: "hub_inv s" and c: "cst (clients s i) = C_wait ch n" and r: "recv ch (chans s) = Some (e, cs')"
    and u: "unsubscribe ch (job s) cs' = Some (j', cs'')"
  shows "hub_inv (set_client i \<lparr>cst = C_end n, out = out (clients s i) @ [e]\<rparr> (s\<lparr>job := j', chans := cs''\<rparr>))"
proof -
  let ?s1 = "set_client i \<lparr>cst = C_wait ch n, out = out (clients s i) @ [e]\<rparr> (s\<lparr>chans := cs'\<rparr>)"
  have i1: "hub_inv ?s1" by (rule inv_receive [OF inv c r])
  have ok1: "client_ok ?s1 (clients ?s1 i)" by (rule hub_inv_client [OF i1])
  have "hub_inv (set_client i \<lparr>cst = C_end n, out = out (clients s i) @ [e]\<rparr> (?s1\<lparr>job := j', chans := cs''\<rparr>))"
    by (rule inv_close [OF i1]) (use ok1 u in \<open>auto simp: client_ok_def dest: subseq_appendD\<close>)
  then show ?thesis by (simp add: set_client_def)
qed

lemma inv_disconnect:
  assumes inv: "hub_inv s" and c: "cst (clients s i) = C_wait ch n"
    and u: "unsubscribe ch (job s) (chans s) = Some (j', cs')"
  shows "hub_inv (set_client i ((clients s i)\<lparr>cst := C_end n\<rparr>) (s\<lparr>job := j', chans := cs'\<rparr>))"
proof -
  have "client_ok s (clients s i)" by (rule hub_inv_client [OF inv])
  then show ?thesis
    by (intro inv_close [OF inv c u]) (use c in \<open>auto simp: client_ok_def dest: subseq_appendD\<close>)
qed

lemma hub_step_inv: "hub_step s s' \<Longrightarrow> hub_inv s \<Longrightarrow> hub_inv s'"
  by (induction rule: hub_step.induct)
     (auto intro: inv_work inv_subscr inv_status inv_receive inv_finish inv_disconnect)

lemma hub_init_inv: "hub_inv (hub_init j w)"
  by (simp add: hub_inv_def hub_init_def subs_list_def client_ok_def owned_excl_def client_chan_def)

lemma hub_reach_inv: "hub_reach (hub_init j w) s \<Longrightarrow> hub_inv s"
  by (induction rule: hub_reach.induct) (auto intro: hub_init_inv hub_step_inv)

subsection \<open>Runs of the hub\<close>
lemma hub_move_step: "hub_move m s = Some s' \<Longrightarrow> hub_step s s'"
  by (auto simp: hub_move_def split: move.splits list.splits cstate.splits option.splits prod.splits if_splits
           intro: hub_step.intros)

lemma hub_reach_trans: "hub_reach s1 s2 \<Longrightarrow> hub_reach s0 s1 \<Longrightarrow> hub_reach s0 s2"
  by (induction rule: hub_reach.induct) (auto intro: hub_reach.step)

lemma hub_exec_reach: "hub_exec ms s = Some s' \<Longrightarrow> hub_reach s s'"
proof (induction ms arbitrary: s)
  case Nil then show ?case by (simp add: hub_reach.refl)
next
  case (Cons m ms)
  then obtain s1 where m: "hub_move m s = Some s1" and r: "hub_exec ms s1 = Some s'"
    by (auto split: option.splits)
  have "hub_reach s s1" by (rule hub_reach.step [OF hub_reach.refl hub_move_step [OF m]])
  with Cons.IH [OF r] show ?case by (rule hub_reach_trans)
qed


lemma quiet_step:
  assumes st: "hub_step s s'" and inv: "hub_inv s" and q: "quiet i ch n os s"
  shows "quiet i ch n os s'"
  using st
proof cases
  case (work a w s1)
  with q show ?thesis by (simp add: quiet_def)
next
  case (subscr k ch' j' cs')
  with q have "k \<noteq> i" by (auto simp: quiet_def)
  moreover have "cst (clients s i) = C_wait ch n \<longrightarrow> ch < length (chans s)"
    using hub_inv_chan [OF inv, of i ch] by (simp add: client_chan_def)
  ultimately show ?thesis using q subscribe_eq [OF subscr(3)] subscr(1)
    by (auto simp: quiet_def nth_append)
next
  case (status k ch' n')
  with q have "k \<noteq> i" by (auto simp: quiet_def)
  with q status show ?thesis by (simp add: quiet_def)
next
  case (receive k ch' n' e cs')
  obtain r where b: "buf (chans s ! ch') = e # r" and cs: "cs' = (chans s)[ch' := (chans s ! ch')\<lparr>buf := r\<rparr>]"
    using recv_eq [OF receive(3)] by blast
  have "k \<noteq> i" using q receive b by (auto simp: quiet_def)
  moreover have "cst (clients s i) = C_wait ch n \<longrightarrow> ch' \<noteq> ch"
    using owned_other [OF inv, of k ch' i] receive(2) \<open>k \<noteq> i\<close> by (auto simp: client_chan_def)
  ultimately show ?thesis using q receive cs by (auto simp: quiet_def)
next
  case (finish k ch' n' e cs' j' cs'')
  obtain r where b: "buf (chans s ! ch') = e # r" and cs: "cs' = (chans s)[ch' := (chans s ! ch')\<lparr>buf := r\<rparr>]"
    using recv_eq [OF finish(3)] by blast
  have cs2: "cs'' = cs'[ch' := (cs' ! ch')\<lparr>is_closed := True\<rparr>]" using unsubscribe_eq [OF finish(5)] by simp
  have "k \<noteq> i" using q finish b by (auto simp: quiet_def)
  moreover have "cst (clients s i) = C_wait ch n \<longrightarrow> ch' \<noteq> ch"
    using owned_other [OF inv, of k ch' i] finish(2) \<open>k \<noteq> i\<close> by (auto simp: client_chan_def)
  ultimately show ?thesis using q finish cs cs2 by (auto simp: quiet_def)
next
  case (disconnect k ch' n' j' cs')
  have cs: "cs' = (chans s)[ch' := (chans s ! ch')\<lparr>is_closed := True\<rparr>]" using unsubscribe_eq [OF disconnect(3)] by simp
  show ?thesis
  proof (cases "k = i")
    case True
    with q disconnect show ?thesis by (auto simp: quiet_def)
  next
    case False
    moreover have "cst (clients s i) = C_wait ch n \<longrightarrow> ch' \<noteq> ch"
      using owned_other [OF inv, of k ch' i] disconnect(2) False by (auto simp: client_chan_def)
    ultimately show ?thesis using q disconnect cs by (auto simp: quiet_def)
  qed
qed

lemma quiet_reach:
  assumes "hub_reach s s'" "hub_reach (hub_init j w) s" "quiet i ch n os s"
  shows "quiet i ch n os s'"
  using assms
proof (induction rule: hub_reach.induct)
  case refl then show ?case by simp
next
  case (step s1 s2)
  have "hub_inv s1" using hub_reach_inv [OF hub_reach_trans [OF step.hyps(1) step.prems(1)]] .
  with step show ?case by (blast intro: quiet_step)
qed


lemma bcast_events_append [simp]: "bcast_events (xs @ ys) = bcast_events xs @ bcast_events ys"
  by (induction xs rule: bcast_events.induct) simp_all

lemma bcast_events_script:
  "bcast_events (job_script cd j ps err) =
     sse ''status'' ''running'' # map (\<lambda>p. sse ''progress'' (progress_json cd p)) ps
     @ (case err of
          Some e \<Rightarrow> [sse ''status'' ''error'', sse ''fferror'' (error_text cd e)]
        | None \<Rightarrow> [sse ''status'' ''done'', sse ''done'' (done_json cd (''/ffmpeg/download/'' @ ID j) (OutputName j))])"
  by (induction ps) (simp_all add: job_script_def split: option.split)

lemma sent_step:
  assumes "hub_step s s'"
  shows "sent s' @ bcast_events (worker s') = sent s @ bcast_events (worker s)"
  using assms
proof cases
  case (work a w s1)
  then show ?thesis
    by (cases a) (auto simp: worker_act_def split: option.splits)
qed auto

lemma sent_log: "hub_reach (hub_init j w) s \<Longrightarrow> sent s @ bcast_events (worker s) = bcast_events w"
  by (induction rule: hub_reach.induct) (auto simp: hub_init_def dest: sent_step)

lemma client_view:
  assumes "hub_reach (hub_init j w) s" "out (clients s i) \<noteq> []"
  shows "Event (hd (out (clients s i))) = ''status'' \<and> subseq (tl (out (clients s i))) (sent s)"
proof -
  have ok: "client_ok s (clients s i)" using hub_inv_client [OF hub_reach_inv [OF assms(1)]] .
  have sfx: "subseq (drop n (sent s)) (sent s)" for n
    by (metis append_take_drop_id list_emb_append2 subseq_append' subseq_order.order_refl)
  show ?thesis using ok assms(2) sfx
    by (auto simp: client_ok_def split: cstate.splits dest: subseq_appendD intro: subseq_order.order_trans)
qed

lemma term_last_subseq: "subseq xs ys \<Longrightarrow> term_last ys \<Longrightarrow> term_last xs"
  by (induction rule: list_emb.induct) auto

lemma term_last_appendD: "term_last (xs @ ys) \<Longrightarrow> term_last xs"
  by (induction xs) auto

lemma term_last_append: "list_all (\<lambda>e. \<not> terminal e) xs \<Longrightarrow> term_last (xs @ ys) = term_last ys"
  by (induction xs) auto

lemma term_last_script: "term_last (bcast_events (job_script cd j ps err))"
  by (simp add: bcast_events_script term_last_append [where xs = "map _ ps", simplified] list_all_iff
      terminal_def split: option.split)

text \<open>C9: In every reachable state no operation of the registry panics: broadcasting
  any event succeeds (no send on a closed channel), and the deferred unsubscribe of a
  waiting handler succeeds (its channel is open and closed only once).\<close>

theorem hub_no_panic:
  assumes "hub_reach (hub_init j w) s"
  shows "broadcast e (job s) (chans s) \<noteq> None
       \<and> (cst (clients s i) = C_wait ch n \<longrightarrow> unsubscribe ch (job s) (chans s) \<noteq> None)"
proof -
  have inv: "hub_inv s" by (rule hub_reach_inv [OF assms])
  have "cst (clients s i) = C_wait ch n \<longrightarrow> ch < length (chans s) \<and> \<not> is_closed (chans s ! ch)"
    using hub_inv_chan [OF inv, of i ch] by (simp add: client_chan_def)
  then show ?thesis using broadcast_spec [OF inv] by (auto simp: unsubscribe_def Let_def)
qed


text \<open>C11: What an SSE handler writes is the job status it read, followed by a
  subsequence of the events the goroutine broadcasts, in the goroutine's order:
  events may be dropped for a slow handler but never reordered or invented.\<close>

theorem hub_client_order:
  assumes "hub_reach (hub_init j w) s" "out (clients s i) \<noteq> []"
  shows "Event (hd (out (clients s i))) = ''status'' \<and> subseq (tl (out (clients s i))) (bcast_events w)"
proof -
  have "prefix (sent s) (bcast_events w)" using sent_log [OF assms(1)] by (metis prefixI)
  then have "subseq (sent s) (bcast_events w)" by blast
  with client_view [OF assms] show ?thesis by (auto intro: subseq_order.order_trans)
qed

text \<open>C12: A done or fferror event is always the last event a handler writes: after
  it the handler has returned, and the job broadcasts nothing after it.\<close>

theorem hub_terminal_last:
  assumes "hub_reach (hub_init j (job_script cd j' ps err)) s"
  shows "term_last (out (clients s i))"
proof (cases "out (clients s i)")
  case (Cons e es)
  have "term_last (sent s)"
    using term_last_script [of cd j' ps err] sent_log [OF assms] by (metis term_last_appendD)
  moreover have "out (clients s i) \<noteq> []" using Cons by simp
  from client_view [OF assms this] Cons have "Event e = ''status''" "subseq es (sent s)" by auto
  ultimately show ?thesis using Cons by (auto simp: terminal_def dest: term_last_subseq)
qed simp

text \<open>C13: The goroutine of a job broadcasts exactly one terminal event, as its last
  event: \<open>done\<close> when ffmpeg succeeded and \<open>fferror\<close> when it failed. No event is
  named \<open>error\<close>, the name the specification gives the failure event.\<close>

theorem job_script_terminal:
  "filter terminal (bcast_events (job_script cd j ps err)) = [last (bcast_events (job_script cd j ps err))]
   \<and> Event (last (bcast_events (job_script cd j ps err))) = (case err of None \<Rightarrow> ''done'' | Some _ \<Rightarrow> ''fferror'')
   \<and> ''error'' \<notin> Event ` set (bcast_events (job_script cd j ps err))"
  by (auto simp: bcast_events_script terminal_def filter_empty_conv split: option.split)

text \<open>C14: A handler can report the job's statuses out of order: it subscribes, the
  goroutine broadcasts \<open>status=running\<close> into its buffer and sets the status to
  done, and the handler, which reads \<open>job.Status\<close> only after subscribing, writes
  \<open>status=done\<close> and then the buffered \<open>status=running\<close>.\<close>

theorem hub_stale_status:
  "\<exists>s. hub_reach (hub_init j (job_script cd j [] None)) s
     \<and> out (clients s 0) = [sse ''status'' ''done'', sse ''status'' ''running'']"
proof -
  let ?ms = "[M_sub 0, M_work, M_work, M_work, M_status 0, M_recv 0]"
  have "hub_exec ?ms (hub_init j (job_script cd j [] None)) =
          Some (the (hub_exec ?ms (hub_init j (job_script cd j [] None))))"
    and "out (clients (the (hub_exec ?ms (hub_init j (job_script cd j [] None)))) 0)
           = [sse ''status'' ''done'', sse ''status'' ''running'']"
    by (simp_all add: hub_init_def job_script_def hub_move_def subscribe_def worker_act_def broadcast_def
        send_nb_def enqueue_def chan_cap_def recv_def terminal_def set_client_def)
  then show ?thesis by (blast dest: hub_exec_reach)
qed


lemmas hub_run_simps = hub_init_def job_script_def hub_move_def subscribe_def worker_act_def broadcast_def
  send_nb_def enqueue_def chan_cap_def recv_def terminal_def set_client_def unsubscribe_def Let_def

lemma lost_run_ok:
  "hub_exec lost_sched (hub_init j (job_script cd j (replicate 15 p) None)) \<noteq> None"
  by (simp add: hub_run_simps numeral_eq_Suc)

lemma lost_run_state:
  "quiet 0 0 0 (out (clients (the (hub_exec lost_sched (hub_init j (job_script cd j (replicate 15 p) None)))) 0))
     (the (hub_exec lost_sched (hub_init j (job_script cd j (replicate 15 p) None))))
   \<and> list_ex terminal (sent (the (hub_exec lost_sched (hub_init j (job_script cd j (replicate 15 p) None)))))
   \<and> \<not> list_ex terminal (out (clients (the (hub_exec lost_sched (hub_init j (job_script cd j (replicate 15 p) None)))) 0))"
  by (simp add: hub_run_simps numeral_eq_Suc quiet_def)

text \<open>C15: A handler that does not read while the job broadcasts 16 events misses
  the terminal event: with 15 progress snapshots its buffer is full when
  \<open>status=done\<close> and \<open>done\<close> are broadcast, both are dropped, and after the
  goroutine has finished the handler waits forever on its empty channel; no later
  run writes done or fferror to it.\<close>

theorem hub_terminal_lost:
  "\<exists>s. hub_reach (hub_init j (job_script cd j (replicate 15 p) None)) s
     \<and> worker s = [] \<and> list_ex terminal (sent s)
     \<and> {s'. hub_reach s s'} \<subseteq> {s'. \<not> list_ex terminal (out (clients s' 0))}"
proof -
  let ?init = "hub_init j (job_script cd j (replicate 15 p) None)"
  let ?s = "the (hub_exec lost_sched ?init)"
  have ex: "hub_exec lost_sched ?init = Some ?s" by (rule option.collapse [OF lost_run_ok, symmetric])
  have r: "hub_reach ?init ?s" using hub_exec_reach [OF ex] .
  have q: "quiet 0 0 0 (out (clients ?s 0)) ?s" and t: "list_ex terminal (sent ?s)"
    and o: "\<not> list_ex terminal (out (clients ?s 0))"
    using lost_run_state [of j cd p] by auto
  have "{s'. hub_reach ?s s'} \<subseteq> {s'. \<not> list_ex terminal (out (clients s' 0))}"
    using quiet_reach [OF _ r q] o by (auto simp: quiet_def)
  with r q t show ?thesis by (auto simp: quiet_def)
qed

lemma hub_exec_the_reach: "hub_exec ms s \<noteq> None \<Longrightarrow> hub_reach s (the (hub_exec ms s))"
  by (rule hub_exec_reach) simp

abbreviation demo_attach :: hub_sys where
  "demo_attach \<equiv> the (hub_exec [M_sub 0, M_status 0, M_work, M_work] (hub_init demo_job (job_script demo_codec demo_job [] None)))"

lemma demo_attach_reach: "hub_reach (hub_init demo_job (job_script demo_codec demo_job [] None)) demo_attach"
  by (rule hub_exec_the_reach) (simp add: hub_run_simps)

lemma hub_no_panic_witness:
  "hub_reach (hub_init demo_job (job_script demo_codec demo_job [] None)) demo_attach
   \<and> cst (clients demo_attach 0) = C_wait 0 0
   \<and> broadcast (sse ''status'' ''done'') (job demo_attach) (chans demo_attach) \<noteq> None
   \<and> unsubscribe 0 (job demo_attach) (chans demo_attach) \<noteq> None"
proof -
  have c: "cst (clients demo_attach 0) = C_wait 0 0" by (simp add: hub_run_simps)
  show ?thesis using hub_no_panic [OF demo_attach_reach, of "sse ''status'' ''done''" 0 0 0] demo_attach_reach c
    by simp
qed


abbreviation demo_done :: hub_sys where
  "demo_done \<equiv> the (hub_exec [M_sub 0, M_status 0, M_work, M_work, M_work, M_work, M_work,
                               M_recv 0, M_recv 0, M_recv 0]
                    (hub_init demo_job (job_script demo_codec demo_job [] None)))"

lemma demo_done_reach: "hub_reach (hub_init demo_job (job_script demo_codec demo_job [] None)) demo_done"
  by (rule hub_exec_the_reach) (simp add: hub_run_simps)

lemma demo_done_out:
  "out (clients demo_done 0) = [sse ''status'' ''created'', sse ''status'' ''running'', sse ''status'' ''done'',
                                sse ''done'' ''/ffmpeg/download/6f1c'']"
  by (simp add: hub_run_simps demo_job_def demo_codec_def)

lemma hub_client_order_witness:
  "hub_reach (hub_init demo_job (job_script demo_codec demo_job [] None)) demo_done
   \<and> out (clients demo_done 0) \<noteq> []
   \<and> subseq [sse ''status'' ''running'', sse ''status'' ''done'', sse ''done'' ''/ffmpeg/download/6f1c'']
            (bcast_events (job_script demo_codec demo_job [] None))"
proof -
  have n: "out (clients demo_done 0) \<noteq> []" unfolding demo_done_out by simp
  show ?thesis using hub_client_order [OF demo_done_reach n] demo_done_reach n unfolding demo_done_out by simp
qed

lemma hub_terminal_last_witness:
  "hub_reach (hub_init demo_job (job_script demo_codec demo_job [] None)) demo_done
   \<and> term_last [sse ''status'' ''created'', sse ''status'' ''running'', sse ''status'' ''done'',
                sse ''done'' ''/ffmpeg/download/6f1c'']"
  using hub_terminal_last [OF demo_done_reach, of 0] demo_done_reach unfolding demo_done_out by simp

end
