(* ===== verification/Probe.thy ===== *)
theory Probe
  imports Tool
begin

text \<open>
  The ffprobe tool of \<open>src/media/ffprobe/media.go\<close> and the extra probes of
  \<open>src/unnamed/part_004\<close>: the document types that ffprobe's JSON output decodes
  to, the struct \<open>Tool\<close> with its readiness check (\<open>ensureReady\<close>, like ffmpeg's
  but with the \<open>-version\<close> deadline \<open>minDuration(timeout, 5s)\<close>), \<open>Version\<close>,
  \<open>Probe\<close>, \<open>ProbeSafe\<close>, \<open>FirstVideo\<close>/\<open>FirstAudio\<close>, \<open>parseFFProbeVersion\<close>,
  \<open>runFFProbeJSON\<close> and the argument lists of \<open>ProbePackets\<close>, \<open>ProbeFrames\<close>,
  \<open>ProbeChapters\<close> and \<open>ProbePrograms\<close>. The search path, the processes and
  \<open>json.Unmarshal\<close> are inputs (\<open>probe_env\<close>). Record fields carry a prefix
  (\<open>st_\<close> for \<open>Stream\<close>, \<open>fmt_\<close> for \<open>Format\<close>, ...) because Go reuses the same
  field names in several structs. Durations are nanoseconds.
\<close>

subsection \<open>The documents\<close>

record probe_format =
  fmt_Filename :: string
  fmt_NbStreams :: int
  fmt_NbPrograms :: int
  fmt_FormatName :: string
  fmt_FormatLongName :: string
  fmt_StartTime :: string
  fmt_Duration :: string
  fmt_Size :: string
  fmt_BitRate :: string
  fmt_ProbeScore :: int
  fmt_Tags :: "string \<rightharpoonup> string"

record probe_stream =
  st_Index :: int
  st_CodecName :: string
  st_CodecLongName :: string
  st_CodecType :: string
  st_Profile :: string
  st_CodecTagString :: string
  st_CodecTimeBase :: string
  st_Width :: int
  st_Height :: int
  st_PixFmt :: string
  st_RFrameRate :: string
  st_AvgFrameRate :: string
  st_TimeBase :: string
  st_BitRate :: string
  st_SampleRate :: string
  st_Channels :: int
  st_ChannelLayout :: string
  st_Duration :: string
  st_Disposition :: "string \<rightharpoonup> int"
  st_Tags :: "string \<rightharpoonup> string"

record ffprobe_json =
  Streams :: "probe_stream list"
  Format :: probe_format

text \<open>\<open>Packet\<close>: the \<open>*int64\<close> fields are \<open>int option\<close>, \<open>nil\<close> being \<open>None\<close>.\<close>

record probe_packet =
  pk_CodecType :: string
  pk_StreamIndex :: int
  pk_Pts :: "int option"
  pk_PtsTime :: string
  pk_Dts :: "int option"
  pk_DtsTime :: string
  pk_Duration :: "int option"
  pk_DurationTime :: string
  pk_Size :: string
  pk_Pos :: string
  pk_Flags :: string

record packets_json =
  Packets :: "probe_packet list"

text \<open>\<open>Frame\<close>; its \<open>SideDataList\<close> (maps to values of any JSON type) is not
  modelled: no code of the repository reads it.\<close>

record probe_frame =
  fr_MediaType :: string
  fr_KeyFrame :: int
  fr_PictType :: string
  fr_PtsTime :: string
  fr_DtsTime :: string
  fr_BestEffortTimestampTime :: string
  fr_PktDurationTime :: string
  fr_Width :: int
  fr_Height :: int
  fr_PixFmt :: string
  fr_SampleRate :: string
  fr_NbSamples :: int
  fr_Channels :: int
  fr_Tags :: "string \<rightharpoonup> string"

record frames_json =
  Frames :: "probe_frame list"

record probe_chapter =
  ch_ID :: int
  ch_TimeBase :: string
  ch_Start :: int
  ch_StartTime :: string
  ch_End :: int
  ch_EndTime :: string
  ch_Tags :: "string \<rightharpoonup> string"

record chapters_json =
  Chapters :: "probe_chapter list"

record probe_program =
  pg_ProgramID :: int
  pg_ProgramNum :: int
  pg_NbStreams :: int
  pg_Tags :: "string \<rightharpoonup> string"

record programs_json =
  Programs :: "probe_program list"

subsection \<open>Errors and the outside world\<close>

text \<open>One constructor per \<open>fmt.Errorf\<close> of \<open>media.go\<close> and \<open>part_004\<close>.\<close>

datatype probe_error =
    P_not_found string
  | P_check_timed_out string
  | P_cannot_run string wait_result string
  | P_failed wait_result string
  | P_timed_out int
  | P_exec_error wait_result
  | P_parse_json

text \<open>How \<open>cmd.Output()\<close> of a started process goes: what it writes, how it exits
  by itself and when it is killed, and whether it outlives the context's deadline.\<close>

record probe_proc =
  po_stdout :: string
  po_stderr :: string
  po_exit :: wait_result
  po_killed :: wait_result
  po_outlasts :: bool

datatype probe_launch = P_start_fails string | P_started probe_proc

text \<open>The world: the search path, the \<open>-version\<close> run of a path under a deadline,
  the processes, and \<open>json.Unmarshal\<close> into \<open>FFProbeJSON\<close>.\<close>

record probe_env =
  p_look_path :: "string \<Rightarrow> string option"
  p_run_version :: "string \<Rightarrow> int \<Rightarrow> version_run"
  p_output :: "string \<Rightarrow> string list \<Rightarrow> probe_launch"
  p_decode :: "string \<Rightarrow> ffprobe_json option"

subsection \<open>The tool\<close>

definition sec :: int where "sec = 1000000000"

record probe_tool =
  FFProbePath :: string
  p_Timeout :: int
  p_checked :: bool
  p_resolvedPath :: string
  p_version :: string
  p_checkErr :: "probe_error option"

definition NewDefaultTool :: probe_tool where
  "NewDefaultTool = \<lparr>FFProbePath = ''ffprobe'', p_Timeout = 15 * sec, p_checked = False,
                     p_resolvedPath = [], p_version = [], p_checkErr = None\<rparr>"

definition minDuration :: "int \<Rightarrow> int \<Rightarrow> int" where
  "minDuration a b = (if a \<le> b then a else b)"

definition probe_timeout :: "probe_tool \<Rightarrow> int" where
  "probe_timeout t = (if p_Timeout t \<le> 0 then 15 * sec else p_Timeout t)"

text \<open>\<open>parseFFProbeVersion\<close>: the first line must mention \<open>ffprobe version\<close> in any
  case; the version is the field after the first field \<open>version\<close>.\<close>

definition parseFFProbeVersion :: "string \<Rightarrow> string" where
  "parseFFProbeVersion s =
     (case split_on nl s of
        [] \<Rightarrow> []
      | l # _ \<Rightarrow>
          (let origFirst = trim_space l
           in if \<not> contains (to_lower origFirst) ''ffprobe version'' then []
              else find_version (str_fields origFirst)))"

definition probe_path :: "probe_tool \<Rightarrow> string" where
  "probe_path t = (if FFProbePath t = [] then ''ffprobe'' else FFProbePath t)"

definition probe_ensureReady :: "probe_env \<Rightarrow> probe_tool \<Rightarrow> probe_tool \<times> probe_error option" where
  "probe_ensureReady env t =
     (if p_checked t then (t, p_checkErr t)
      else (case p_look_path env (probe_path t) of
              None \<Rightarrow>
                (let e = P_not_found (probe_path t) in (t\<lparr>p_checked := True, p_checkErr := Some e\<rparr>, Some e))
            | Some resolved \<Rightarrow>
                (case p_run_version env resolved (minDuration (probe_timeout t) (5 * sec)) of
                   Version_timeout \<Rightarrow>
                     (let e = P_check_timed_out resolved
                      in (t\<lparr>p_checked := True, p_resolvedPath := resolved, p_checkErr := Some e\<rparr>, Some e))
                 | Version_failed w err \<Rightarrow>
                     (let e = P_cannot_run resolved w (trim_space err)
                      in (t\<lparr>p_checked := True, p_resolvedPath := resolved, p_checkErr := Some e\<rparr>, Some e))
                 | Version_ok out \<Rightarrow>
                     (let ver = parseFFProbeVersion out; ver = (if ver = [] then ''unknown'' else ver)
                      in (t\<lparr>p_checked := True, p_resolvedPath := resolved, p_version := ver, p_checkErr := None\<rparr>,
                          None)))))"

definition probe_Version :: "probe_env \<Rightarrow> probe_tool \<Rightarrow> probe_tool \<times> (probe_error + string)" where
  "probe_Version env t =
     (case probe_ensureReady env t of
        (t', Some e) \<Rightarrow> (t', Inl e)
      | (t', None) \<Rightarrow> (t', Inr (p_version t')))"

definition probe_args :: "string \<Rightarrow> string list" where
  "probe_args input = [''-v'', ''error'', ''-hide_banner'', ''-show_format'', ''-show_streams'', ''-of'', ''json'', input]"

text \<open>The outcome of \<open>cmd.Output()\<close> under a positive deadline: \<open>Wait\<close>'s result and
  whether the deadline expired.\<close>

definition output_outcome :: "probe_proc \<Rightarrow> wait_result \<times> bool" where
  "output_outcome pr = (if po_outlasts pr then (po_killed pr, True) else (po_exit pr, False))"

text \<open>\<open>Probe\<close>: the error tests in the order of the source, an \<open>*exec.ExitError\<close>
  first, then the deadline.\<close>

definition Probe :: "probe_env \<Rightarrow> probe_tool \<Rightarrow> string \<Rightarrow> probe_tool \<times> (probe_error + ffprobe_json)" where
  "Probe env t input =
     (case probe_ensureReady env t of
        (t', Some e) \<Rightarrow> (t', Inl e)
      | (t', None) \<Rightarrow>
          (let timeout = probe_timeout t'
           in case p_output env (p_resolvedPath t') (probe_args input) of
                P_start_fails m \<Rightarrow> (t', Inl (P_exec_error (W_other m)))
              | P_started pr \<Rightarrow>
                  (case output_outcome pr of
                     (W_ok, _) \<Rightarrow>
                       (case p_decode env (po_stdout pr) of
                          None \<Rightarrow> (t', Inl P_parse_json)
                        | Some v \<Rightarrow> (t', Inr v))
                   | (W_exit c, _) \<Rightarrow> (t', Inl (P_failed (W_exit c) (stderr_capture (po_stderr pr))))
                   | (w, dl) \<Rightarrow> (t', Inl (if dl then P_timed_out timeout else P_exec_error w)))))"

text \<open>\<open>ProbeSafe\<close>: the document, the version (empty when \<open>Version\<close> fails) and
  the error of \<open>Probe\<close>; the version's own error is dropped.\<close>

definition ProbeSafe :: "probe_env \<Rightarrow> probe_tool \<Rightarrow> string
                         \<Rightarrow> probe_tool \<times> ffprobe_json option \<times> string \<times> probe_error option" where
  "ProbeSafe env t input =
     (case Probe env t input of
        (t1, Inl err) \<Rightarrow>
          (case probe_Version env t1 of
             (t2, Inl _) \<Rightarrow> (t2, None, [], Some err)
           | (t2, Inr ver) \<Rightarrow> (t2, None, ver, Some err))
      | (t1, Inr info) \<Rightarrow>
          (case probe_Version env t1 of
             (t2, Inl _) \<Rightarrow> (t2, Some info, [], None)
           | (t2, Inr ver) \<Rightarrow> (t2, Some info, ver, None)))"

fun first_stream :: "string \<Rightarrow> probe_stream list \<Rightarrow> probe_stream option" where
  "first_stream ty [] = None"
| "first_stream ty (s # ss) = (if st_CodecType s = ty then Some s else first_stream ty ss)"

definition FirstVideo :: "ffprobe_json \<Rightarrow> probe_stream option" where
  "FirstVideo p = first_stream ''video'' (Streams p)"

definition FirstAudio :: "ffprobe_json \<Rightarrow> probe_stream option" where
  "FirstAudio p = first_stream ''audio'' (Streams p)"

subsection \<open>The extra probes of part_004\<close>

text \<open>\<open>runFFProbeJSON\<close>: the same readiness check, then \<open>cmd.Output()\<close> under the
  caller's context (whose deadline is not tested here), then \<open>json.Unmarshal\<close>
  into the given target (\<open>None\<close>: a nil target, nothing decoded).\<close>

definition runFFProbeJSON ::
  "probe_env \<Rightarrow> probe_tool \<Rightarrow> string list \<Rightarrow> (string \<Rightarrow> 'a option) option
   \<Rightarrow> probe_tool \<times> (probe_error + 'a option)" where
  "runFFProbeJSON env t args dec =
     (case probe_ensureReady env t of
        (t', Some e) \<Rightarrow> (t', Inl e)
      | (t', None) \<Rightarrow>
          (case p_output env (p_resolvedPath t') args of
             P_start_fails m \<Rightarrow> (t', Inl (P_exec_error (W_other m)))
           | P_started pr \<Rightarrow>
               (case fst (output_outcome pr) of
                  W_ok \<Rightarrow>
                    (case dec of
                       None \<Rightarrow> (t', Inr None)
                     | Some d \<Rightarrow> (case d (po_stdout pr) of None \<Rightarrow> (t', Inl P_parse_json) | Some v \<Rightarrow> (t', Inr (Some v))))
                | W_exit c \<Rightarrow> (t', Inl (P_failed (W_exit c) (stderr_capture (po_stderr pr))))
                | w \<Rightarrow> (t', Inl (P_exec_error w)))))"

definition packets_args :: "string \<Rightarrow> string \<Rightarrow> string list" where
  "packets_args input selectStreams =
     [''-v'', ''error'', ''-hide_banner'', ''-show_packets'', ''-of'', ''json'']
     @ (if selectStreams \<noteq> [] then [''-select_streams'', selectStreams] else []) @ [input]"

definition frames_args :: "string \<Rightarrow> string \<Rightarrow> string \<Rightarrow> string list" where
  "frames_args input selectStreams readIntervals =
     [''-v'', ''error'', ''-hide_banner'', ''-show_frames'', ''-of'', ''json'']
     @ (if selectStreams \<noteq> [] then [''-select_streams'', selectStreams] else [])
     @ (if readIntervals \<noteq> [] then [''-read_intervals'', readIntervals] else []) @ [input]"

definition chapters_args :: "string \<Rightarrow> string list" where
  "chapters_args input = [''-v'', ''error'', ''-hide_banner'', ''-show_chapters'', ''-of'', ''json'', input]"

definition programs_args :: "string \<Rightarrow> string list" where
  "programs_args input = [''-v'', ''error'', ''-hide_banner'', ''-show_programs'', ''-of'', ''json'', input]"

text \<open>The four probes: the result is the decoded document or the error; \<open>Inr None\<close>
  cannot occur since a target is always given.\<close>

definition probe_with :: "probe_env \<Rightarrow> probe_tool \<Rightarrow> string list \<Rightarrow> (string \<Rightarrow> 'a option)
                          \<Rightarrow> probe_tool \<times> (probe_error + 'a)" where
  "probe_with env t args d =
     (case runFFProbeJSON env t args (Some d) of
        (t', Inl e) \<Rightarrow> (t', Inl e)
      | (t', Inr (Some v)) \<Rightarrow> (t', Inr v)
      | (t', Inr None) \<Rightarrow> (t', Inl P_parse_json))"

definition ProbePackets :: "probe_env \<Rightarrow> (string \<Rightarrow> packets_json option) \<Rightarrow> probe_tool \<Rightarrow> string \<Rightarrow> string
                            \<Rightarrow> probe_tool \<times> (probe_error + packets_json)" where
  "ProbePackets env d t input selectStreams = probe_with env t (packets_args input selectStreams) d"

definition ProbeFrames :: "probe_env \<Rightarrow> (string \<Rightarrow> frames_json option) \<Rightarrow> probe_tool \<Rightarrow> string \<Rightarrow> string
                           \<Rightarrow> string \<Rightarrow> probe_tool \<times> (probe_error + frames_json)" where
  "ProbeFrames env d t input selectStreams readIntervals =
     probe_with env t (frames_args input selectStreams readIntervals) d"

definition ProbeChapters :: "probe_env \<Rightarrow> (string \<Rightarrow> chapters_json option) \<Rightarrow> probe_tool \<Rightarrow> string
                             \<Rightarrow> probe_tool \<times> (probe_error + chapters_json)" where
  "ProbeChapters env d t input = probe_with env t (chapters_args input) d"

definition ProbePrograms :: "probe_env \<Rightarrow> (string \<Rightarrow> programs_json option) \<Rightarrow> probe_tool \<Rightarrow> string
                             \<Rightarrow> probe_tool \<times> (probe_error + programs_json)" where
  "ProbePrograms env d t input = probe_with env t (programs_args input) d"

subsection \<open>Example world\<close>

text \<open>ffprobe is found, its \<open>-version\<close> run prints nothing, and every probe outlives
  its deadline and is killed (exit status -1).\<close>

definition demo_probe_env :: probe_env where
  "demo_probe_env = \<lparr>p_look_path = (\<lambda>_. Some ''/usr/bin/ffprobe''), p_run_version = (\<lambda>_ _. Version_ok []),
     p_output = (\<lambda>_ _. P_started \<lparr>po_stdout = [], po_stderr = ''killed'', po_exit = W_ok, po_killed = W_exit (-1),
                                  po_outlasts = True\<rparr>),
     p_decode = (\<lambda>_. None)\<rparr>"

abbreviation demo_probe_tool :: probe_tool where
  "demo_probe_tool \<equiv> NewDefaultTool\<lparr>p_checked := True, p_resolvedPath := ''/usr/bin/ffprobe'', p_version := ''unknown''\<rparr>"

subsection \<open>Lemmas\<close>

lemma probe_ensureReady_checked: "p_checked (fst (probe_ensureReady env t))"
  by (auto simp: probe_ensureReady_def Let_def split: option.splits version_run.splits)

lemma probe_ensureReady_err: "snd (probe_ensureReady env t) = p_checkErr (fst (probe_ensureReady env t))"
  by (auto simp: probe_ensureReady_def Let_def split: option.splits version_run.splits)

lemma probe_ensureReady_again:
  "probe_ensureReady env t = (t1, r) \<Longrightarrow> probe_ensureReady env' t1 = (t1, r)"
  using probe_ensureReady_checked [of env t] probe_ensureReady_err [of env t]
  by (simp add: probe_ensureReady_def [of env' t1])

lemma Probe_tool: "probe_ensureReady env t = (t1, r) \<Longrightarrow> fst (Probe env t input) = t1"
  by (auto simp: Probe_def Let_def output_outcome_def split: probe_launch.splits wait_result.splits option.splits prod.splits)

lemma runFFProbeJSON_tool: "probe_ensureReady env t = (t1, r) \<Longrightarrow> fst (runFFProbeJSON env t xs dec) = t1"
  by (auto simp: runFFProbeJSON_def split: probe_launch.splits wait_result.splits option.splits)

lemma probe_with_tool: "probe_ensureReady env t = (t1, r) \<Longrightarrow> fst (probe_with env t xs d) = t1"
  using runFFProbeJSON_tool [of env t t1 r xs "Some d"]
  by (auto simp: probe_with_def split: prod.splits sum.splits option.splits)

lemma probe_Version_tool: "probe_ensureReady env t = (t1, r) \<Longrightarrow> fst (probe_Version env t) = t1"
  by (auto simp: probe_Version_def split: option.splits)



lemma probe_with_tool_eq:
  "probe_with env t xs d = (t', v) \<Longrightarrow> probe_ensureReady env t = (t1, r) \<Longrightarrow> t' = t1"
  using probe_with_tool [of env t t1 r xs d] by simp

text \<open>C24: ffprobe that outlives the deadline and is killed by it is reported as
  \<open>ffprobe failed\<close>, not as a timeout: \<open>cmd.Output()\<close> returns an
  \<open>*exec.ExitError\<close> for the killed process and \<open>Probe\<close> tests for it before it
  looks at the deadline.\<close>

theorem probe_deadline_reported_failed:
  assumes "probe_ensureReady env t = (t', None)"
    "p_output env (p_resolvedPath t') (probe_args input) = P_started pr"
    "po_outlasts pr" "po_killed pr = W_exit c"
  shows "Probe env t input = (t', Inl (P_failed (W_exit c) (stderr_capture (po_stderr pr))))"
  using assms by (simp add: Probe_def output_outcome_def)

lemma nat_to_dec_length: "n < 10 ^ k \<Longrightarrow> length (nat_to_dec n) \<le> max 1 k"
proof (induction n arbitrary: k rule: nat_to_dec.induct)
  case (1 n)
  show ?case
  proof (cases "n < 10")
    case True then show ?thesis by (simp add: nat_to_dec.simps [of n])
  next
    case False
    then obtain k' where k: "k = Suc k'" using "1.prems" by (cases k) auto
    with "1.prems" have d: "n div 10 < 10 ^ k'" by (simp add: less_mult_imp_div_less)
    have "0 < k'" using False "1.prems" k by (cases k') auto
    moreover have "length (nat_to_dec (n div 10)) \<le> max 1 k'" using "1.IH" False d by simp
    ultimately show ?thesis using False k by (simp add: nat_to_dec.simps [of n])
  qed
qed

lemma stderr_capture_length:
  assumes "length s < 2 ^ 63"
  shows "length (stderr_capture s) \<le> 65580"
proof (cases "length s \<le> 2 * saver_n")
  case True then show ?thesis by (simp add: stderr_capture_def saver_n_def)
next
  case False
  have "length s - 2 * saver_n < 10 ^ 19" using assms by simp
  then have "length (nat_to_dec (length s - 2 * saver_n)) \<le> 19"
    using nat_to_dec_length [of "length s - 2 * saver_n" 19] by simp
  with False show ?thesis by (simp add: stderr_capture_def saver_n_def itoa_def del: of_nat_diff)
qed


lemma Probe_failed_text:
  "Probe env t input = (t', Inl (P_failed w e)) \<Longrightarrow> snd (probe_ensureReady env t) = None \<Longrightarrow>
   \<exists>p a pr. p_output env p a = P_started pr \<and> e = stderr_capture (po_stderr pr)"
  by (auto simp: Probe_def Let_def output_outcome_def
      split: prod.splits option.splits probe_launch.splits wait_result.splits if_splits)

text \<open>The diagnostic text of an \<open>ffprobe failed\<close> error of a probe run is bounded: whatever ffprobe
  writes on stderr (a Go string, shorter than 2^63 bytes), the message keeps at most
  65580 bytes of it, the first and last 32 KiB and a line counting the bytes left out.\<close>

theorem probe_failure_text_bounded:
  assumes "Probe env t input = (t', Inl (P_failed w e))" "snd (probe_ensureReady env t) = None"
    "\<forall>p a pr. p_output env p a = P_started pr \<longrightarrow> length (po_stderr pr) < 2 ^ 63"
  shows "length e \<le> 65580"
  using Probe_failed_text [OF assms(1,2)] assms(3) stderr_capture_length by blast

lemma check_deadline_range: "0 < minDuration (probe_timeout t) (5 * sec) \<and> minDuration (probe_timeout t) (5 * sec) \<le> 5 * sec"
  by (simp add: minDuration_def probe_timeout_def sec_def)

text \<open>C25: The readiness check runs \<open>ffprobe -version\<close> only under a deadline of at
  most 5 seconds, whatever the tool's \<open>Timeout\<close>: the check gives the same outcome
  in a world where every run with a deadline outside (0, 5s] would time out.\<close>

theorem probe_check_deadline:
  "probe_ensureReady env t =
     probe_ensureReady (env\<lparr>p_run_version := \<lambda>p d. if 0 < d \<and> d \<le> 5 * sec then p_run_version env p d
                                                  else Version_timeout\<rparr>) t"
  using check_deadline_range [of t] by (simp add: probe_ensureReady_def split: option.split)

text \<open>When the readiness check succeeded but the probe itself fails, \<open>ProbeSafe\<close>
  returns no document, the cached version and the probe's error.\<close>

theorem probesafe_keeps_version:
  assumes "probe_ensureReady env t = (t1, None)" "snd (Probe env t input) = Inl e"
  shows "ProbeSafe env t input = (t1, None, p_version t1, Some e)"
proof -
  have "Probe env t input = (t1, Inl e)" using Probe_tool [OF assms(1)] assms(2) by (metis prod.collapse)
  moreover have "probe_Version env t1 = (t1, Inr (p_version t1))"
    using probe_ensureReady_again [OF assms(1)] by (simp add: probe_Version_def)
  ultimately show ?thesis by (simp add: ProbeSafe_def)
qed

lemma demo_probe_ready: "probe_ensureReady demo_probe_env NewDefaultTool = (demo_probe_tool, None)"
  by (simp add: probe_ensureReady_def demo_probe_env_def NewDefaultTool_def probe_path_def parseFFProbeVersion_def
      nl_def trim_space_def to_lower_def contains_def)

lemma probe_deadline_reported_failed_witness:
  "probe_ensureReady demo_probe_env NewDefaultTool = (demo_probe_tool, None)
   \<and> Probe demo_probe_env NewDefaultTool ''a.mp4'' = (demo_probe_tool, Inl (P_failed (W_exit (-1)) ''killed''))"
proof -
  have o: "p_output demo_probe_env (p_resolvedPath demo_probe_tool) (probe_args ''a.mp4'') =
           P_started \<lparr>po_stdout = [], po_stderr = ''killed'', po_exit = W_ok, po_killed = W_exit (-1), po_outlasts = True\<rparr>"
    by (simp add: demo_probe_env_def)
  show ?thesis using probe_deadline_reported_failed [OF demo_probe_ready o] demo_probe_ready
    by (simp add: stderr_capture_def saver_n_def)
qed

lemma probe_failure_text_bounded_witness:
  "Probe demo_probe_env NewDefaultTool ''a.mp4'' = (demo_probe_tool, Inl (P_failed (W_exit (-1)) ''killed''))
   \<and> snd (probe_ensureReady demo_probe_env NewDefaultTool) = None
   \<and> length ''killed'' \<le> 65580"
proof -
  have pr: "Probe demo_probe_env NewDefaultTool ''a.mp4'' = (demo_probe_tool, Inl (P_failed (W_exit (-1)) ''killed''))"
    using demo_probe_ready by (simp add: Probe_def demo_probe_env_def output_outcome_def stderr_capture_def saver_n_def)
  have b: "\<forall>p a pr. p_output demo_probe_env p a = P_started pr \<longrightarrow> length (po_stderr pr) < 2 ^ 63"
    by (simp add: demo_probe_env_def)
  have r: "snd (probe_ensureReady demo_probe_env NewDefaultTool) = None" using demo_probe_ready by simp
  show ?thesis using probe_failure_text_bounded [OF pr r b] pr r by simp
qed

lemma probesafe_keeps_version_witness:
  "probe_ensureReady demo_probe_env NewDefaultTool = (demo_probe_tool, None)
   \<and> snd (Probe demo_probe_env NewDefaultTool ''a.mp4'') = Inl (P_failed (W_exit (-1)) ''killed'')
   \<and> ProbeSafe demo_probe_env NewDefaultTool ''a.mp4''
       = (demo_probe_tool, None, ''unknown'', Some (P_failed (W_exit (-1)) ''killed''))"
proof -
  have p: "snd (Probe demo_probe_env NewDefaultTool ''a.mp4'') = Inl (P_failed (W_exit (-1)) ''killed'')"
    using demo_probe_ready by (simp add: Probe_def demo_probe_env_def output_outcome_def stderr_capture_def saver_n_def)
  show ?thesis using probesafe_keeps_version [OF demo_probe_ready p] demo_probe_ready p by simp
qed

end
