(* ===== verification/Demo.thy ===== *)
theory Demo
  imports Hub Probe
begin

text \<open>
  The helpers of the demo server \<open>src/example/demo/main.go\<close> (the same helpers
  are in \<open>src/unnamed/part_003\<close>): the SSE framing of \<open>writeSSE\<close> and the
  stream the events handler writes, the \<open>/ffmpeg/download/:id\<close> handler with
  \<open>sanitizeFilename\<close>, the choice of the input in \<open>getInputFromRequest\<close> with
  \<open>saveUploadedToTemp\<close> and \<open>validateRemoteURL\<close>, the form options of
  \<open>readOptions\<close> and \<open>parseInt\<close>, \<open>parseInt64\<close>, \<open>chooseNonEmpty\<close>, and the
  frame and packet helpers \<open>filterKeyFrames\<close>, \<open>limitFrames\<close>, \<open>limitPackets\<close>,
  \<open>summarizeFrames\<close>, \<open>summarizePackets\<close>. The Chinese texts of the pages are
  their UTF-8 bytes.
\<close>

section \<open>Texts of the pages\<close>

definition dq :: char where "dq = CHR 0x22"
definition backslash :: char where "backslash = CHR 0x5C"

definition zh_remote :: string where
  "zh_remote = [CHR 0xE8, CHR 0xBF, CHR 0x9C, CHR 0xE7, CHR 0xA8, CHR 0x8B, CHR 0xE5, CHR 0x9C,
                CHR 0xB0, CHR 0xE5, CHR 0x9D, CHR 0x80, CHR 0xEF, CHR 0xBC, CHR 0x9A]"
definition zh_upload :: string where
  "zh_upload = [CHR 0xE4, CHR 0xB8, CHR 0x8A, CHR 0xE4, CHR 0xBC, CHR 0xA0, CHR 0xE6, CHR 0x96,
                CHR 0x87, CHR 0xE4, CHR 0xBB, CHR 0xB6, CHR 0xEF, CHR 0xBC, CHR 0x9A]"
definition zh_frames :: string where
  "zh_frames = [CHR 0xE5, CHR 0xB8, CHR 0xA7, CHR 0xE6, CHR 0x95, CHR 0xB0, CHR 0xE9, CHR 0x87,
                CHR 0x8F, CHR 0xEF, CHR 0xBC, CHR 0x9A]"
definition zh_key :: string where
  "zh_key = [CHR 0xEF, CHR 0xBC, CHR 0x9B, CHR 0xE5, CHR 0x85, CHR 0xB3, CHR 0xE9, CHR 0x94,
             CHR 0xAE, CHR 0xE5, CHR 0xB8, CHR 0xA7, CHR 0xEF, CHR 0xBC, CHR 0x9A]"
definition zh_ipb :: string where
  "zh_ipb = [CHR 0xEF, CHR 0xBC, CHR 0x9B, CHR 0x49, CHR 0x2F, CHR 0x50, CHR 0x2F, CHR 0x42,
             CHR 0xEF, CHR 0xBC, CHR 0x9A]"
definition zh_packets :: string where
  "zh_packets = [CHR 0xE5, CHR 0x8C, CHR 0x85, CHR 0xE6, CHR 0x95, CHR 0xB0, CHR 0xE9, CHR 0x87,
                 CHR 0x8F, CHR 0xEF, CHR 0xBC, CHR 0x9A]"
definition zh_video :: string where
  "zh_video = [CHR 0xEF, CHR 0xBC, CHR 0x88, CHR 0xE8, CHR 0xA7, CHR 0x86, CHR 0xE9, CHR 0xA2,
               CHR 0x91, CHR 0xEF, CHR 0xBC, CHR 0x9A]"
definition zh_audio :: string where
  "zh_audio = [CHR 0xEF, CHR 0xBC, CHR 0x8C, CHR 0xE9, CHR 0x9F, CHR 0xB3, CHR 0xE9, CHR 0xA2,
               CHR 0x91, CHR 0xEF, CHR 0xBC, CHR 0x9A]"
definition zh_close :: string where
  "zh_close = [CHR 0xEF, CHR 0xBC, CHR 0x89]"

section \<open>Server-sent events\<close>

text \<open>\<open>writeSSE\<close>: \<open>\r\<close> is deleted from the data and \<open>\n\<close> replaced by the two
  bytes \<open>\\n\<close>; then the event line, the data line and an empty line.\<close>

definition sse_escape :: "string \<Rightarrow> string" where
  "sse_escape d = replace_all (replace_all d cr []) nl [backslash, CHR ''n'']"

definition writeSSE :: "string \<Rightarrow> string \<Rightarrow> string" where
  "writeSSE event data = ''event: '' @ event @ [nl] @ ''data: '' @ sse_escape data @ [nl, nl]"




section \<open>Download\<close>

definition sanitizeFilename :: "string \<Rightarrow> string" where
  "sanitizeFilename name =
     (let n = trim_space (replace_all (replace_all (replace_all name dq []) nl []) cr [])
      in if n = [] then ''output.bin'' else n)"

datatype http_reply = R_text nat string | R_file string string

text \<open>\<open>GET /ffmpeg/download/:id\<close>: \<open>R_file\<close> carries the \<open>Content-Disposition\<close>
  header and the path \<open>c.File\<close> serves; \<open>get\<close> is \<open>jobs.Get\<close>.\<close>

definition download :: "(string \<Rightarrow> ff_job option) \<Rightarrow> string \<Rightarrow> http_reply" where
  "download get jid =
     (case get jid of
        None \<Rightarrow> R_text 404 ''job not found''
      | Some jb \<Rightarrow>
          if Status jb \<noteq> ''done'' then R_text 400 ''job not done''
          else R_file (''attachment; filename='' @ [dq] @ sanitizeFilename (OutputName jb) @ [dq])
                      (OutputPath jb))"

section \<open>Input of a request\<close>

text \<open>The multipart header of the uploaded file (\<open>c.FormFile("file")\<close>; \<open>None\<close>
  when it fails) and the text fields (\<open>c.PostForm\<close>, the empty string for a
  missing field).\<close>

record upload =
  up_Filename :: string
  up_Size :: int

record form_request =
  PostForm :: "string \<Rightarrow> string"
  FormFile :: "upload option"

text \<open>What the file system and \<open>net/url\<close> answer: \<open>fh.Open\<close>, \<open>os.CreateTemp\<close>
  (given its pattern, the name of the new file), \<open>io.Copy\<close>, and \<open>url.Parse\<close>
  (the scheme and the host, or the parse error).\<close>

record input_env =
  ie_open_err :: "upload \<Rightarrow> string option"
  ie_create_temp :: "string \<Rightarrow> string + string"
  ie_copy_err :: "upload \<Rightarrow> string option"
  ie_parse_url :: "string \<Rightarrow> string + (string \<times> string)"

datatype url_error = U_parse string | U_incomplete | U_scheme

datatype input_error = E_save string | E_no_input | E_url url_error

definition saveUploadedToTemp :: "input_env \<Rightarrow> upload \<Rightarrow> string + (string \<times> string)" where
  "saveUploadedToTemp env fh =
     (case ie_open_err env fh of
        Some e \<Rightarrow> Inl e
      | None \<Rightarrow>
          (let ext = path_ext (up_Filename fh);
               ext = (if ext = [] then ''.bin'' else ext)
           in case ie_create_temp env (''probe-*'' @ ext) of
                Inl e \<Rightarrow> Inl e
              | Inr tmp \<Rightarrow>
                  (case ie_copy_err env fh of
                     Some e \<Rightarrow> Inl e
                   | None \<Rightarrow> Inr (tmp, zh_upload @ up_Filename fh))))"

definition validateRemoteURL :: "input_env \<Rightarrow> string \<Rightarrow> url_error option" where
  "validateRemoteURL env raw =
     (case ie_parse_url env raw of
        Inl e \<Rightarrow> Some (U_parse e)
      | Inr (scheme, host) \<Rightarrow>
          if scheme = [] \<or> host = [] then Some U_incomplete
          else if to_lower scheme \<in> {''http'', ''https''} then None
          else Some U_scheme)"

text \<open>The URL branch of \<open>getInputFromRequest\<close>.\<close>

definition url_input :: "input_env \<Rightarrow> form_request \<Rightarrow> input_error + (string \<times> string \<times> string option)" where
  "url_input env r =
     (let raw = trim_space (PostForm r ''url'')
      in if raw = [] then Inl E_no_input
         else (case validateRemoteURL env raw of
                 Some e \<Rightarrow> Inl (E_url e)
               | None \<Rightarrow> Inr (raw, zh_remote @ raw, None)))"

text \<open>\<open>getInputFromRequest\<close>: the input, its description and the file the
  cleanup removes (\<open>None\<close> for a remote URL, whose cleanup is \<open>nil\<close>).\<close>

definition getInputFromRequest ::
  "input_env \<Rightarrow> form_request \<Rightarrow> input_error + (string \<times> string \<times> string option)" where
  "getInputFromRequest env r =
     (case FormFile r of
        Some fh \<Rightarrow>
          if 0 < up_Size fh then
            (case saveUploadedToTemp env fh of
               Inl e \<Rightarrow> Inl (E_save e)
             | Inr (path, d) \<Rightarrow> Inr (path, d, Some path))
          else url_input env r
      | None \<Rightarrow> url_input env r)"

section \<open>Form options\<close>

definition parseInt :: "string \<Rightarrow> int \<Rightarrow> int" where
  "parseInt s def =
     (let s = trim_space s
      in if s = [] then def
         else (case parse_int64 s of None \<Rightarrow> def | Some n \<Rightarrow> n))"

record options =
  EnableFrames :: bool
  EnablePackets :: bool
  EnableChapters :: bool
  EnablePrograms :: bool
  FramesSelectStreams :: string
  FramesReadIntervals :: string
  FramesLimit :: int
  FramesKeyOnly :: bool
  PacketsSelectStreams :: string
  PacketsLimit :: int

definition readOptions :: "form_request \<Rightarrow> options" where
  "readOptions c =
     (let on = (\<lambda>name. PostForm c name = ''on'')
      in \<lparr>EnableFrames = on ''enable_frames'', EnablePackets = on ''enable_packets'',
          EnableChapters = on ''enable_chapters'', EnablePrograms = on ''enable_programs'',
          FramesSelectStreams = trim_space (PostForm c ''frames_streams''),
          FramesReadIntervals = trim_space (PostForm c ''frames_intervals''),
          FramesLimit = parseInt (PostForm c ''frames_limit'') 300,
          FramesKeyOnly = on ''frames_keyonly'',
          PacketsSelectStreams = trim_space (PostForm c ''packets_streams''),
          PacketsLimit = parseInt (PostForm c ''packets_limit'') 200\<rparr>)"

definition appendErr :: "string \<Rightarrow> string \<Rightarrow> string" where
  "appendErr existing add =
     (let add = trim_space add
      in if add = [] then existing
         else if existing = [] then add
         else existing @ [nl] @ add)"

definition chooseNonEmpty :: "string \<Rightarrow> string \<Rightarrow> string" where
  "chooseNonEmpty a b = (let a = trim_space a in if a \<noteq> [] then a else trim_space b)"

definition parseInt64 :: "string \<Rightarrow> int" where
  "parseInt64 s = (let s = trim_space s in if s = [] then 0 else parse_int64_value s)"

section \<open>Frames and packets\<close>

text \<open>A \<open>*FramesJSON\<close> or \<open>*PacketsJSON\<close> is an option, \<open>nil\<close> being \<open>None\<close>.\<close>

definition filterKeyFrames :: "frames_json option \<Rightarrow> frames_json option" where
  "filterKeyFrames fin =
     (case fin of
        None \<Rightarrow> None
      | Some fj \<Rightarrow> Some \<lparr>Frames = filter (\<lambda>f. fr_MediaType f = ''video'' \<and> fr_KeyFrame f = 1) (Frames fj)\<rparr>)"

definition limitFrames :: "frames_json option \<Rightarrow> int \<Rightarrow> frames_json option" where
  "limitFrames fin limit =
     (case fin of
        None \<Rightarrow> None
      | Some fj \<Rightarrow>
          if limit \<le> 0 \<or> int (length (Frames fj)) \<le> limit then fin
          else Some \<lparr>Frames = take (nat limit) (Frames fj)\<rparr>)"

definition limitPackets :: "packets_json option \<Rightarrow> int \<Rightarrow> packets_json option" where
  "limitPackets pin limit =
     (case pin of
        None \<Rightarrow> None
      | Some pj \<Rightarrow>
          if limit \<le> 0 \<or> int (length (Packets pj)) \<le> limit then pin
          else Some \<lparr>Packets = take (nat limit) (Packets pj)\<rparr>)"

text \<open>\<open>strings.ToUpper(t) == "I"\<close> (and \<open>"P"\<close>, \<open>"B"\<close>): besides the ASCII
  letters, the dotless i (U+0131, bytes C4 B1) upper-cases to \<open>I\<close>.\<close>

definition upper_is :: "string \<Rightarrow> char \<Rightarrow> bool" where
  "upper_is t c \<longleftrightarrow>
     t = [c] \<or> t = [ascii_lower c] \<or> (c = CHR ''I'' \<and> t = [CHR 0xC4, CHR 0xB1])"

definition count_where :: "('a \<Rightarrow> bool) \<Rightarrow> 'a list \<Rightarrow> int" where
  "count_where P xs = int (length (filter P xs))"

definition summarizeFrames :: "frames_json option \<Rightarrow> string" where
  "summarizeFrames fr =
     (case fr of
        None \<Rightarrow> []
      | Some fj \<Rightarrow>
          (let fs = Frames fj; total = int (length fs);
               vs = filter (\<lambda>f. fr_MediaType f = ''video'') fs;
               key = count_where (\<lambda>f. fr_KeyFrame f = 1) vs;
               i = count_where (\<lambda>f. upper_is (fr_PictType f) CHR ''I'') vs;
               p = count_where (\<lambda>f. upper_is (fr_PictType f) CHR ''P'') vs;
               b = count_where (\<lambda>f. upper_is (fr_PictType f) CHR ''B'') vs;
               msg = zh_frames @ itoa total
           in if 0 < total
              then msg @ zh_key @ itoa key @ zh_ipb @ itoa i @ ''/'' @ itoa p @ ''/'' @ itoa b
              else msg))"

definition summarizePackets :: "packets_json option \<Rightarrow> string" where
  "summarizePackets pk =
     (case pk of
        None \<Rightarrow> []
      | Some pj \<Rightarrow>
          (let ps = Packets pj
           in zh_packets @ itoa (int (length ps))
              @ zh_video @ itoa (count_where (\<lambda>p. pk_CodecType p = ''video'') ps)
              @ zh_audio @ itoa (count_where (\<lambda>p. pk_CodecType p = ''audio'') ps) @ zh_close))"

text \<open>The frames of the \<open>/probe\<close> page (\<open>src/unnamed/part_003\<close>): key frames only
  when asked, then at most \<open>FramesLimit\<close> of them when the limit is positive.\<close>

definition frames_pipeline :: "options \<Rightarrow> frames_json option \<Rightarrow> frames_json option" where
  "frames_pipeline opt frames =
     (let frames = (if FramesKeyOnly opt then filterKeyFrames frames else frames)
      in if 0 < FramesLimit opt then limitFrames frames (FramesLimit opt) else frames)"

section \<open>Fixtures\<close>

text \<open>An environment where the upload succeeds and \<open>url.Parse\<close> accepts one https
  URL, and a video frame of a given picture type and key flag.\<close>

definition demo_input_env :: input_env where
  "demo_input_env = \<lparr>ie_open_err = (\<lambda>_. None), ie_create_temp = (\<lambda>pat. Inr ''/tmp/probe-1.mp4''),
     ie_copy_err = (\<lambda>_. None),
     ie_parse_url = (\<lambda>u. if u = ''https://example.com/a.mp4'' then Inr (''https'', ''example.com'')
                         else Inr (''rtsp'', ''cam''))\<rparr>"

definition demo_frame :: "string \<Rightarrow> int \<Rightarrow> probe_frame" where
  "demo_frame t k = \<lparr>fr_MediaType = ''video'', fr_KeyFrame = k, fr_PictType = t, fr_PtsTime = [],
     fr_DtsTime = [], fr_BestEffortTimestampTime = [], fr_PktDurationTime = [], fr_Width = 1280,
     fr_Height = 720, fr_PixFmt = ''yuv420p'', fr_SampleRate = [], fr_NbSamples = 0, fr_Channels = 0,
     fr_Tags = Map.empty\<rparr>"

section \<open>Properties\<close>


lemma sse_escape_plain: "nl \<notin> set d \<Longrightarrow> cr \<notin> set d \<Longrightarrow> sse_escape d = d"
proof -
  have r: "c \<notin> set s \<Longrightarrow> replace_all s c t = s" for s c t
    by (induction s) (auto simp: replace_all_def)
  assume "nl \<notin> set d" "cr \<notin> set d"
  then show ?thesis by (simp add: sse_escape_def r)
qed





lemma sse_escape_collides:
  "writeSSE e (''a'' @ [nl] @ ''b'') = writeSSE e (''a'' @ [backslash, CHR ''n''] @ ''b'')"
  by (simp add: writeSSE_def sse_escape_def replace_all_def nl_def cr_def backslash_def)

lemma sanitizeFilename_safe:
  "sanitizeFilename n \<noteq> [] \<and> dq \<notin> set (sanitizeFilename n) \<and> nl \<notin> set (sanitizeFilename n)
   \<and> cr \<notin> set (sanitizeFilename n)"
  using set_trim_space [of "filter (\<lambda>x. x \<noteq> cr) (filter (\<lambda>x. x \<noteq> nl) (filter (\<lambda>x. x \<noteq> dq) n))"]
  by (auto simp: sanitizeFilename_def Let_def replace_all_del dq_def nl_def cr_def)

text \<open>C27: The download handler serves a file only for a job whose Status is "done", the job's OutputPath; the Content-Disposition header it writes contains no CR or LF and exactly the two quotes that delimit the file name, whatever the job's OutputName is.\<close>

theorem download_header_safe:
  "download get jid = R_file h p \<Longrightarrow>
   (\<exists>jb. get jid = Some jb \<and> Status jb = ''done'' \<and> p = OutputPath jb)
   \<and> nl \<notin> set h \<and> cr \<notin> set h \<and> length (filter (\<lambda>c. c = dq) h) = 2"
proof -
  assume d: "download get jid = R_file h p"
  then obtain jb where jb: "get jid = Some jb" "Status jb = ''done''"
    and h: "h = ''attachment; filename='' @ [dq] @ sanitizeFilename (OutputName jb) @ [dq]"
    and "p = OutputPath jb"
    by (auto simp: download_def split: option.splits if_splits)
  moreover have "filter (\<lambda>c. c = dq) (sanitizeFilename (OutputName jb)) = []"
    using sanitizeFilename_safe [of "OutputName jb"] by (simp add: filter_empty_conv) blast
  ultimately show ?thesis
    using sanitizeFilename_safe [of "OutputName jb"] by (auto simp: dq_def nl_def cr_def)
qed

lemma download_header_safe_witness:
  "download (\<lambda>_. Some (demo_job\<lparr>Status := ''done'', OutputName := ''a'' @ [dq, nl] @ ''b.mp4 ''\<rparr>)) ''6f1c''
     = R_file (''attachment; filename='' @ [dq] @ ''ab.mp4'' @ [dq]) ''/tmp/ffout-1.mp4''
   \<and> nl \<notin> set (''attachment; filename='' @ [dq] @ ''ab.mp4'' @ [dq])"
  using download_header_safe [of "\<lambda>_. Some (demo_job\<lparr>Status := ''done'', OutputName := ''a'' @ [dq, nl] @ ''b.mp4 ''\<rparr>)" "''6f1c''"
          "''attachment; filename='' @ [dq] @ ''ab.mp4'' @ [dq]" "''/tmp/ffout-1.mp4''"]
  by (simp add: download_def sanitizeFilename_def replace_all_def trim_space_def demo_job_def
                dq_def nl_def cr_def is_space_def)

text \<open>C28: When getInputFromRequest returns a remote input (no cleanup), the input is the trimmed url field, its description is the remote-address label followed by it, and url.Parse gave it a non-empty host and a scheme that is http or https in lower case.\<close>

theorem remote_input_http:
  "getInputFromRequest env r = Inr (inp, d, None) \<Longrightarrow>
   inp = trim_space (PostForm r ''url'') \<and> d = zh_remote @ inp
   \<and> (\<exists>sch host. ie_parse_url env inp = Inr (sch, host) \<and> host \<noteq> []
                 \<and> to_lower sch \<in> {''http'', ''https''})"
  by (auto simp: getInputFromRequest_def url_input_def validateRemoteURL_def Let_def
           split: option.splits if_splits sum.splits prod.splits)

lemma remote_input_http_witness:
  "getInputFromRequest demo_input_env
      \<lparr>PostForm = (\<lambda>k. '' https://example.com/a.mp4''), FormFile = None\<rparr>
     = Inr (''https://example.com/a.mp4'', zh_remote @ ''https://example.com/a.mp4'', None)
   \<and> ie_parse_url demo_input_env ''https://example.com/a.mp4'' = Inr (''https'', ''example.com'')"
  using remote_input_http [of demo_input_env "\<lparr>PostForm = (\<lambda>k. '' https://example.com/a.mp4''), FormFile = None\<rparr>"
          "''https://example.com/a.mp4''" "zh_remote @ ''https://example.com/a.mp4''"]
  by (simp add: getInputFromRequest_def url_input_def validateRemoteURL_def demo_input_env_def
                trim_space_def is_space_def to_lower_def ascii_lower_def Let_def)

text \<open>parseInt reads back any int64 printed by Itoa, with spaces around it, whatever the default.\<close>

theorem parseInt_itoa:
  "in_int64 n \<Longrightarrow> list_all is_space w1 \<Longrightarrow> list_all is_space w2 \<Longrightarrow>
   parseInt (w1 @ itoa n @ w2) def = n"
  using itoa_ends [of n] trim_space_pad [of w1 w2 "itoa n"] parse_int64_itoa [of n]
  by (simp add: parseInt_def)

lemma parseInt_itoa_witness:
  "parseInt '' 25 '' 300 = 25 \<and> parseInt ''abc'' 300 = 300"
proof -
  have "parseInt ('' '' @ itoa 25 @ '' '') 300 = 25"
    by (rule parseInt_itoa) (simp_all add: int64_min_def int64_max_def is_space_def)
  moreover have "itoa 25 = ''25''"
    by (simp add: itoa_def nat_to_dec.simps digit_char_def)
  ultimately show ?thesis
    by (simp add: parseInt_def trim_space_def is_space_def parse_int64_def is_digit_def)
qed

lemma limitFrames_some:
  "limitFrames (Some fj) k = Some fj' \<Longrightarrow> 0 < k \<Longrightarrow>
   subseq (Frames fj') (Frames fj) \<and> int (length (Frames fj')) \<le> k \<and> set (Frames fj') \<subseteq> set (Frames fj)"
  by (auto simp: limitFrames_def split: if_splits dest: in_set_takeD)

text \<open>C29: The frames the probe page keeps are a subsequence of the frames ffprobe returned, at most FramesLimit of them when the limit is positive, and only video key frames when key frames only were asked for.\<close>

theorem frames_pipeline_bounds:
  "frames_pipeline opt (Some fj) = Some fj' \<Longrightarrow>
   subseq (Frames fj') (Frames fj)
   \<and> (0 < FramesLimit opt \<longrightarrow> int (length (Frames fj')) \<le> FramesLimit opt)
   \<and> (FramesKeyOnly opt \<longrightarrow> (\<forall>f\<in>set (Frames fj'). fr_MediaType f = ''video'' \<and> fr_KeyFrame f = 1))"
proof -
  assume p: "frames_pipeline opt (Some fj) = Some fj'"
  define g where "g = (if FramesKeyOnly opt then filterKeyFrames (Some fj) else Some fj)"
  obtain gj where g: "g = Some gj" by (cases "FramesKeyOnly opt") (auto simp: g_def filterKeyFrames_def)
  have sg: "subseq (Frames gj) (Frames fj)"
    and kg: "FramesKeyOnly opt \<longrightarrow> (\<forall>f\<in>set (Frames gj). fr_MediaType f = ''video'' \<and> fr_KeyFrame f = 1)"
    using g by (auto simp: g_def filterKeyFrames_def split: if_splits)
  show ?thesis
  proof (cases "0 < FramesLimit opt")
    case True
    then have "limitFrames (Some gj) (FramesLimit opt) = Some fj'"
      using p g by (simp add: frames_pipeline_def g_def [symmetric])
    with True sg kg show ?thesis
      using limitFrames_some [of gj "FramesLimit opt" fj'] subseq_order.trans by blast
  next
    case False
    then have "gj = fj'" using p g by (simp add: frames_pipeline_def g_def [symmetric])
    with False sg kg show ?thesis by simp
  qed
qed

lemma frames_pipeline_bounds_witness:
  "frames_pipeline (readOptions \<lparr>PostForm = (\<lambda>k. if k = ''frames_keyonly'' then ''on''
                                     else if k = ''frames_limit'' then ''1'' else []), FormFile = None\<rparr>)
      (Some \<lparr>Frames = [demo_frame ''P'' 0, demo_frame ''I'' 1, demo_frame ''I'' 1]\<rparr>)
     = Some \<lparr>Frames = [demo_frame ''I'' 1]\<rparr>
   \<and> int (length [demo_frame ''I'' 1]) \<le> 1"
proof -
  let ?f = "\<lparr>PostForm = (\<lambda>k. if k = ''frames_keyonly'' then ''on''
                                     else if k = ''frames_limit'' then ''1'' else []), FormFile = None\<rparr>"
  have o: "FramesKeyOnly (readOptions ?f) \<and> FramesLimit (readOptions ?f) = 1"
    by (simp add: readOptions_def parseInt_def trim_space_def is_space_def parse_int64_def
                  is_digit_def dec_value_def digit_val_def int64_min_def int64_max_def)
  have r: "frames_pipeline (readOptions ?f) (Some \<lparr>Frames = [demo_frame ''P'' 0, demo_frame ''I'' 1, demo_frame ''I'' 1]\<rparr>)
           = Some \<lparr>Frames = [demo_frame ''I'' 1]\<rparr>"
    using o by (simp add: frames_pipeline_def filterKeyFrames_def limitFrames_def demo_frame_def)
  show ?thesis
    using r frames_pipeline_bounds [OF r] o by simp
qed

end
