(* ===== verification/GoFloat.thy ===== *)
theory GoFloat
  imports GoLib
begin

text \<open>
  Float64 arithmetic and formatting on \<open>go_float\<close>, for the demo's view helpers: the
  operators \<open>/\<close>, \<open>-\<close>, \<open>*\<close>, \<open><\<close> and \<open><=\<close> with Go's rules for NaN and the
  infinities, the conversion \<open>int64(x)\<close> as the amd64 instruction \<open>CVTTSD2SI\<close>
  does it, Go's truncating integer \<open>/\<close> and \<open>%\<close>, the verb \<open>%0Nd\<close>, and the verb
  \<open>%.Ng\<close> as \<open>strconv\<close>'s \<open>'g'\<close> format computes it (round to \<open>N\<close>
  significant digits, half to even, then \<open>%e\<close> or \<open>%f\<close> with the trailing zeros
  removed). A finite value is a rational that binary64 represents: every operation
  rounds its exact result to the nearest such value, a tie to the even significand
  (\<open>round_f64\<close>, with the subnormal range), and a result at or beyond the overflow
  bound of \<open>GoLib\<close> is an infinity. The sign of zero is not kept.
\<close>

section \<open>Arithmetic\<close>

text \<open>The length of the binary numeral of \<open>n\<close> (0 for 0), and the binary exponent
  \<open>l\<close> of a positive rational, \<open>2^(l-1) \<le> q < 2^l\<close>.\<close>

fun bit_len :: "nat \<Rightarrow> nat" where
  "bit_len n = (if n = 0 then 0 else Suc (bit_len (n div 2)))"

declare bit_len.simps [simp del]

definition bin_exp :: "rat \<Rightarrow> int" where
  "bin_exp q =
     (if 1 \<le> q then int (bit_len (nat \<lfloor>q\<rfloor>))
      else (let k = int (bit_len (nat \<lfloor>1 / q\<rfloor>))
            in if q * 2 ^ nat (k - 1) = 1 then 2 - k else 1 - k))"

definition scale2 :: "rat \<Rightarrow> int \<Rightarrow> rat" where
  "scale2 q k = (if 0 \<le> k then q * 2 ^ nat k else q / 2 ^ nat (- k))"

text \<open>Rounding to binary64: 53 significant bits, but never a unit below \<open>2^-1074\<close>
  (the subnormals); the nearest multiple of the unit, a tie to the even one.\<close>

definition round_f64 :: "rat \<Rightarrow> rat" where
  "round_f64 q =
     (if q = 0 then 0
      else (let a = \<bar>q\<bar>; e = max (bin_exp a - 53) (-1074)
            in sgn q * scale2 (of_int (round_half_even (scale2 a (- e)))) e))"

definition gf_of_rat :: "rat \<Rightarrow> go_float" where
  "gf_of_rat q = (if float64_overflow q then GF_inf (q < 0) else GF_num (round_f64 q))"

text \<open>\<open>strconv.ParseFloat(s, 64)\<close> with its error dropped: \<open>GoLib\<close>'s value, rounded
  to binary64.\<close>

definition parse_float_rounded :: "string \<Rightarrow> go_float" where
  "parse_float_rounded s = (case parse_float_value s of GF_num q \<Rightarrow> GF_num (round_f64 q) | f \<Rightarrow> f)"

definition gf_div :: "go_float \<Rightarrow> go_float \<Rightarrow> go_float" where
  "gf_div x y =
     (case (x, y) of
        (GF_num a, GF_num b) \<Rightarrow>
          if b \<noteq> 0 then gf_of_rat (a / b)
          else if a = 0 then GF_nan else GF_inf (a < 0)
      | (GF_num a, GF_inf _) \<Rightarrow> GF_num 0
      | (GF_inf n, GF_num b) \<Rightarrow> GF_inf (n \<noteq> (b < 0))
      | _ \<Rightarrow> GF_nan)"

definition gf_sub :: "go_float \<Rightarrow> go_float \<Rightarrow> go_float" where
  "gf_sub x y =
     (case (x, y) of
        (GF_num a, GF_num b) \<Rightarrow> gf_of_rat (a - b)
      | (GF_num a, GF_inf n) \<Rightarrow> GF_inf (\<not> n)
      | (GF_inf n, GF_num b) \<Rightarrow> GF_inf n
      | (GF_inf n, GF_inf m) \<Rightarrow> if n = m then GF_nan else GF_inf n
      | _ \<Rightarrow> GF_nan)"

definition gf_mul :: "go_float \<Rightarrow> go_float \<Rightarrow> go_float" where
  "gf_mul x y =
     (case (x, y) of
        (GF_num a, GF_num b) \<Rightarrow> gf_of_rat (a * b)
      | (GF_num a, GF_inf n) \<Rightarrow> if a = 0 then GF_nan else GF_inf (n \<noteq> (a < 0))
      | (GF_inf n, GF_num b) \<Rightarrow> if b = 0 then GF_nan else GF_inf (n \<noteq> (b < 0))
      | (GF_inf n, GF_inf m) \<Rightarrow> GF_inf (n \<noteq> m)
      | _ \<Rightarrow> GF_nan)"

definition gf_neg :: "go_float \<Rightarrow> go_float" where
  "gf_neg x = (case x of GF_num a \<Rightarrow> GF_num (- a) | GF_inf n \<Rightarrow> GF_inf (\<not> n) | GF_nan \<Rightarrow> GF_nan)"

text \<open>\<open>x < y\<close>: false when either side is NaN.\<close>

definition gf_less :: "go_float \<Rightarrow> go_float \<Rightarrow> bool" where
  "gf_less x y =
     (case (x, y) of
        (GF_num a, GF_num b) \<Rightarrow> a < b
      | (GF_num a, GF_inf n) \<Rightarrow> \<not> n
      | (GF_inf n, GF_num b) \<Rightarrow> n
      | (GF_inf n, GF_inf m) \<Rightarrow> n \<and> \<not> m
      | _ \<Rightarrow> False)"

text \<open>\<open>x <= y\<close>: also false when either side is NaN.\<close>

definition gf_le :: "go_float \<Rightarrow> go_float \<Rightarrow> bool" where
  "gf_le x y = (x \<noteq> GF_nan \<and> y \<noteq> GF_nan \<and> (gf_less x y \<or> x = y))"

text \<open>\<open>int64(x)\<close>: the value truncated toward zero; out of range, and for NaN, the
  amd64 conversion gives the "integer indefinite" value \<open>-2^63\<close>.\<close>

definition gf_to_int64 :: "go_float \<Rightarrow> int" where
  "gf_to_int64 x =
     (case x of
        GF_num q \<Rightarrow> (let t = (if 0 \<le> q then \<lfloor>q\<rfloor> else - \<lfloor>- q\<rfloor>) in if in_int64 t then t else int64_min)
      | _ \<Rightarrow> int64_min)"

text \<open>Go's integer \<open>/\<close> and \<open>%\<close> truncate toward zero.\<close>

definition go_quot :: "int \<Rightarrow> int \<Rightarrow> int" where
  "go_quot a b = sgn a * sgn b * (\<bar>a\<bar> div \<bar>b\<bar>)"

definition go_rem :: "int \<Rightarrow> int \<Rightarrow> int" where
  "go_rem a b = a - b * go_quot a b"

section \<open>Formatting\<close>

text \<open>\<open>%0<w>d\<close>: the sign, then the digits padded with zeros to the width.\<close>

definition fmt_pad0 :: "nat \<Rightarrow> int \<Rightarrow> string" where
  "fmt_pad0 w i =
     (let sgn = (if i < 0 then ''-'' else []); ds = nat_to_dec (nat \<bar>i\<bar>)
      in sgn @ replicate (w - length sgn - length ds) (CHR ''0'') @ ds)"

text \<open>The decimal exponent of a positive rational: \<open>10^(e-1) \<le> q < 10^e\<close>.\<close>

definition dec_exp :: "rat \<Rightarrow> int" where
  "dec_exp q =
     (if 1 \<le> q then int (length (nat_to_dec (nat \<lfloor>q\<rfloor>)))
      else (let l = int (length (nat_to_dec (nat \<lfloor>1 / q\<rfloor>)))
            in if q * 10 ^ nat (l - 1) = 1 then 2 - l else 1 - l))"

definition scale10 :: "rat \<Rightarrow> int \<Rightarrow> rat" where
  "scale10 q k = (if 0 \<le> k then q * 10 ^ nat k else q / 10 ^ nat (- k))"

text \<open>\<open>decimal.Round(p)\<close> of a positive value: its significant digits without the
  trailing zeros, and the position of the decimal point.\<close>

definition round_sig :: "nat \<Rightarrow> rat \<Rightarrow> string \<times> int" where
  "round_sig p q =
     (let e = dec_exp q; m = round_half_even (scale10 q (int p - e));
          (m, e) = (if m = 10 ^ p then (10 ^ (p - 1), e + 1) else (m, e))
      in (rev (dropWhile (\<lambda>c. c = CHR ''0'') (rev (nat_to_dec (nat m)))), e))"

definition digit_at :: "string \<Rightarrow> int \<Rightarrow> char" where
  "digit_at ds i = (if 0 \<le> i \<and> nat i < length ds then ds ! nat i else CHR ''0'')"

text \<open>\<open>fmtE\<close> and \<open>fmtF\<close> of \<open>strconv\<close>.\<close>

definition fmt_e :: "string \<Rightarrow> int \<Rightarrow> nat \<Rightarrow> string" where
  "fmt_e ds dp prec =
     (let x = dp - 1
      in [digit_at ds 0] @ (if prec = 0 then [] else CHR ''.'' # map (\<lambda>i. digit_at ds (int i)) [1..<Suc prec])
         @ ''e'' @ (if x < 0 then ''-'' else ''+'') @ pad_left 2 (nat_to_dec (nat \<bar>x\<bar>)))"

definition fmt_f :: "string \<Rightarrow> int \<Rightarrow> nat \<Rightarrow> string" where
  "fmt_f ds dp prec =
     (if 0 < dp then map (\<lambda>i. digit_at ds (int i)) [0..<nat dp] else ''0'')
     @ (if prec = 0 then [] else CHR ''.'' # map (\<lambda>i. digit_at ds (dp + int i)) [0..<prec])"

definition fmt_g :: "nat \<Rightarrow> go_float \<Rightarrow> string" where
  "fmt_g p v =
     (case v of
        GF_nan \<Rightarrow> ''NaN''
      | GF_inf neg \<Rightarrow> (if neg then ''-Inf'' else ''+Inf'')
      | GF_num q \<Rightarrow>
          if q = 0 then ''0''
          else
            (let (ds, dp) = round_sig p \<bar>q\<bar>; nd = length ds;
                 eprec = (if nd < p \<and> dp \<le> int nd then nd else p); x = dp - 1
             in (if q < 0 then ''-'' else [])
                @ (if x < -4 \<or> int eprec \<le> x then fmt_e ds dp (min p nd - 1)
                   else fmt_f ds dp (nat ((if dp < int p then int nd else int p) - dp)))))"

section \<open>Lemmas\<close>

lemma round_half_even_nonneg: "0 \<le> x \<Longrightarrow> 0 \<le> round_half_even x"
  by (auto simp: round_half_even_def Let_def)

lemma scale2_nonneg: "0 \<le> q \<Longrightarrow> 0 \<le> scale2 q k"
  by (simp add: scale2_def)

lemma round_f64_nonneg: "0 \<le> q \<Longrightarrow> 0 \<le> round_f64 q"
  by (auto simp: round_f64_def Let_def intro!: scale2_nonneg round_half_even_nonneg)

lemma gf_mul_num: "gf_mul (GF_num a) (GF_num b) = GF_num r \<Longrightarrow> r = round_f64 (a * b)"
  by (simp add: gf_mul_def gf_of_rat_def split: if_splits)

lemma go_quot_rem_nonneg:
  assumes "0 \<le> a" "0 < b"
  shows "go_quot a b = a div b" "go_rem a b = a mod b"
  using assms by (simp_all add: go_quot_def go_rem_def sgn_if minus_div_mult_eq_mod [symmetric])

lemma round_f64_nonpos: "q \<le> 0 \<Longrightarrow> round_f64 q \<le> 0"
  using round_half_even_nonneg scale2_nonneg
  by (auto simp: round_f64_def Let_def mult_nonpos_nonneg)

lemma bit_len_bounds: "0 < n \<Longrightarrow> 2 ^ (bit_len n - 1) \<le> n \<and> n < 2 ^ bit_len n"
proof (induction n rule: bit_len.induct)
  case (1 n)
  show ?case
  proof (cases "n div 2 = 0")
    case True
    then have "n = 1" using "1.prems" by simp
    then show ?thesis by (simp add: bit_len.simps)
  next
    case False
    then have ih: "2 ^ (bit_len (n div 2) - 1) \<le> n div 2 \<and> n div 2 < 2 ^ bit_len (n div 2)"
      using "1.IH" "1.prems" by simp
    have pos: "0 < bit_len (n div 2)" using False by (simp add: bit_len.simps)
    have eq: "bit_len n = Suc (bit_len (n div 2))" using "1.prems" by (simp add: bit_len.simps)
    have "2 ^ bit_len (n div 2) = 2 * 2 ^ (bit_len (n div 2) - 1)"
      using pos by (metis Suc_diff_1 power_Suc)
    also have "\<dots> \<le> 2 * (n div 2)" using ih by simp
    also have "\<dots> \<le> n" by simp
    finally have "2 ^ bit_len (n div 2) \<le> n" .
    moreover have "n < 2 * 2 ^ bit_len (n div 2)"
      using ih div_mult_mod_eq [of n 2] mod_less_divisor [of 2 n] by linarith
    ultimately show ?thesis using eq by (simp add: power_Suc)
  qed
qed

lemma bit_len_le: "n < 2 ^ k \<Longrightarrow> bit_len n \<le> k"
proof (induction n arbitrary: k rule: bit_len.induct)
  case (1 n)
  then show ?case
    by (cases k) (auto simp: bit_len.simps [of n] bit_len.simps [of 0] intro: "1.IH")
qed

lemma round_half_even_int [simp]: "round_half_even (of_int k) = k"
  by (simp add: round_half_even_def)

lemma round_f64_int:
  assumes "\<bar>n\<bar> < 2 ^ 53"
  shows "round_f64 (of_int n) = of_int n"
proof (cases "n = 0")
  case True
  then show ?thesis by (simp add: round_f64_def)
next
  case False
  define m where "m = nat \<bar>n\<bar>"
  have m: "0 < m" "m < 2 ^ 53" using False assms by (simp_all add: m_def nat_less_iff)
  have abs: "\<bar>(of_int n :: rat)\<bar> = of_nat m" using m_def by simp
  have be: "bin_exp (of_nat m) = int (bit_len m)"
    using m by (simp add: bin_exp_def)
  have "bit_len m \<le> 53" using bit_len_le m(2) .
  then have e: "max (bin_exp (of_nat m) - 53) (-1074) = int (bit_len m) - 53" "int (bit_len m) - 53 \<le> 0"
    using be by simp_all
  have sc: "scale2 (of_nat m) (- (int (bit_len m) - 53)) = of_int (int m * 2 ^ nat (53 - int (bit_len m)))"
    using e(2) by (simp add: scale2_def)
  have bk: "scale2 (of_int (int m * 2 ^ nat (53 - int (bit_len m)))) (int (bit_len m) - 53) = (of_nat m :: rat)"
    using e(2) by (simp add: scale2_def)
  have "round_f64 (of_int n) = sgn (of_int n)
          * scale2 (of_int (round_half_even (scale2 (of_nat m) (- (int (bit_len m) - 53))))) (int (bit_len m) - 53)"
    using False by (simp add: round_f64_def Let_def abs e(1))
  also have "\<dots> = sgn (of_int n) * of_nat m" by (simp only: sc round_half_even_int bk)
  also have "\<dots> = of_int n" using m_def by (simp add: sgn_if)
  finally show ?thesis .
qed

lemma scale2_powi: "scale2 q k = q * 2 powi k"
proof (cases "0 \<le> k")
  case True
  then have "(2::rat) powi k = 2 ^ nat k" by (metis nat_0_le power_int_of_nat)
  then show ?thesis using True by (simp add: scale2_def)
next
  case False
  then have "(2::rat) powi k = inverse (2 ^ nat (- k))"
    by (metis add.inverse_inverse nat_0_le neg_0_le_iff_le nle_le power_int_minus power_int_of_nat)
  then show ?thesis using False by (simp add: scale2_def divide_inverse)
qed

lemma nat_lt_pow2_rat: "n < 2 ^ b \<Longrightarrow> (of_nat n :: rat) + 1 \<le> 2 ^ b"
proof -
  assume "n < 2 ^ b"
  then have "Suc n \<le> 2 ^ b" by simp
  then have "(of_nat (Suc n) :: rat) \<le> of_nat (2 ^ b)" by (simp only: of_nat_le_iff)
  then show ?thesis by simp
qed

lemma pow2_le_nat_rat: "2 ^ b \<le> n \<Longrightarrow> (2 :: rat) ^ b \<le> of_nat n"
proof -
  assume "2 ^ b \<le> n"
  then have "(of_nat (2 ^ b) :: rat) \<le> of_nat n" by (simp only: of_nat_le_iff)
  then show ?thesis by simp
qed

lemma bin_exp_bounds:
  assumes "0 < q"
  shows "2 powi (bin_exp q - 1) \<le> q \<and> q < 2 powi bin_exp q"
proof (cases "1 \<le> q")
  case True
  define n where "n = nat \<lfloor>q\<rfloor>"
  have n1: "0 < n" using True by (simp add: n_def)
  have nq: "of_nat n \<le> q" "q < of_nat n + 1" using True floor_correct [of q] by (simp_all add: n_def)
  obtain b where b: "bit_len n = b" by simp
  have bb: "2 ^ (b - 1) \<le> n" "n < 2 ^ b" using bit_len_bounds [OF n1] b by simp_all
  have b1: "1 \<le> b" using bb(2) n1 by (cases b) auto
  have be: "bin_exp q = int b" using True b by (simp add: bin_exp_def n_def)
  have p: "(2::rat) powi (int b - 1) = 2 ^ (b - 1)"
    using b1 by (metis of_nat_1 of_nat_diff power_int_of_nat)
  have lo: "(2::rat) ^ (b - 1) \<le> q"
    using pow2_le_nat_rat [OF bb(1)] nq(1) by (rule order_trans)
  have hi: "q < 2 ^ b" using nat_lt_pow2_rat [OF bb(2)] nq(2) by simp
  show ?thesis using be p lo hi by (simp add: power_int_of_nat)
next
  case False
  define n where "n = nat \<lfloor>1 / q\<rfloor>"
  have gt: "1 < 1 / q" using False assms by simp
  have n1: "0 < n" using gt by (simp add: n_def)
  have f0: "0 \<le> \<lfloor>1 / q\<rfloor>" using gt assms by simp
  have nf: "(of_nat n :: rat) = of_int \<lfloor>1 / q\<rfloor>" using f0 by (simp add: n_def)
  have nq: "of_nat n \<le> 1 / q" "1 / q < of_nat n + 1" using floor_correct [of "1 / q"] nf by simp_all
  obtain k where k: "bit_len n = k" by simp
  have kk: "2 ^ (k - 1) \<le> n" "n < 2 ^ k" using bit_len_bounds [OF n1] k by simp_all
  have k1: "1 \<le> k" using kk(2) n1 by (cases k) auto
  have p1: "(2::rat) ^ (k - 1) \<le> 1 / q"
    using pow2_le_nat_rat [OF kk(1)] nq(1) by (rule order_trans)
  have p2: "1 / q < 2 ^ k"
  proof -
    have "of_nat n + 1 \<le> (2::rat) ^ k" using nat_lt_pow2_rat [OF kk(2)] .
    then show ?thesis using nq(2) by simp
  qed
  have lo: "inverse (2 ^ k) < q" using p2 assms by (simp add: field_simps)
  have hi: "q * 2 ^ (k - 1) \<le> 1" using p1 assms by (simp add: field_simps)
  have pk: "(2::rat) powi (- int k) = inverse (2 ^ k)" by (simp add: power_int_minus power_int_of_nat)
  have pk1: "(2::rat) powi (1 - int k) = inverse (2 ^ (k - 1))"
    using k1 by (metis minus_diff_eq of_nat_1 of_nat_diff power_int_minus power_int_of_nat)
  have pk2: "(2::rat) powi (2 - int k) = 2 * inverse (2 ^ (k - 1))"
    using pk1 by (metis add.commute diff_add_eq one_add_one power_int_add_1' zero_neq_numeral)
  have nk: "nat (int k - 1) = k - 1" using k1 by simp
  show ?thesis
  proof (cases "q * 2 ^ (k - 1) = 1")
    case True
    then have "q = inverse (2 ^ (k - 1))" by (simp add: field_simps)
    moreover have "bin_exp q = 2 - int k" using False True k nk by (simp add: bin_exp_def n_def Let_def)
    ultimately show ?thesis using pk1 pk2 by simp
  next
    case ne: False
    then have "q < inverse (2 ^ (k - 1))" using hi by (simp add: field_simps)
    moreover have "bin_exp q = 1 - int k" using False ne k nk by (simp add: bin_exp_def n_def Let_def)
    ultimately show ?thesis using pk pk1 lo by simp
  qed
qed

lemma round_half_even_close: "x - 1 / 2 \<le> of_int (round_half_even x) \<and> of_int (round_half_even x) \<le> x + 1 / 2"
proof -
  have f: "of_int \<lfloor>x\<rfloor> \<le> x" "x < of_int \<lfloor>x\<rfloor> + 1" using floor_correct [of x] by simp_all
  show ?thesis unfolding round_half_even_def Let_def using f by (simp split: if_split) linarith
qed

lemma two_powi_pos [simp]: "(0::rat) < 2 powi k"
  by simp

lemma round_f64_repr:
  assumes q: "q \<noteq> 0"
  shows "\<exists>m. round_f64 q = of_int m * 2 powi (max (bin_exp \<bar>q\<bar> - 53) (-1074)) \<and> 0 \<le> \<bar>m\<bar>
            \<and> of_int \<bar>m\<bar> \<le> \<bar>q\<bar> * 2 powi (- max (bin_exp \<bar>q\<bar> - 53) (-1074)) + 1 / 2
            \<and> \<bar>round_f64 q - q\<bar> \<le> 2 powi (max (bin_exp \<bar>q\<bar> - 53) (-1074)) / 2"
proof -
  define a where "a = \<bar>q\<bar>"
  define u where "u = max (bin_exp a - 53) (-1074)"
  define x where "x = a * 2 powi (- u)"
  define M where "M = round_half_even x"
  have a0: "0 < a" using q by (simp add: a_def)
  have x0: "0 \<le> x" using a0 by (simp add: x_def)
  have M0: "0 \<le> M" using round_half_even_nonneg [OF x0] by (simp add: M_def)
  define sg :: int where "sg = (if q < 0 then -1 else 1)"
  have sgq: "sgn q = of_int sg" using q by (simp add: sg_def sgn_if)
  have r: "round_f64 q = of_int (sg * M) * 2 powi u"
    using q by (simp add: round_f64_def Let_def scale2_powi a_def [symmetric] u_def [symmetric]
                          x_def [symmetric] M_def [symmetric] sgq)
  have xa: "a = x * 2 powi u" by (simp add: x_def power_int_minus field_simps)
  have cl: "\<bar>of_int M - x\<bar> \<le> 1 / 2" using round_half_even_close [of x] unfolding M_def abs_le_iff by linarith
  obtain R where R: "round_f64 q = R" by simp
  have d: "R - q = of_int sg * ((of_int M - x) * 2 powi u)"
  proof (cases "0 < q")
    case True
    then have "sg = 1" "q = x * 2 powi u" using xa by (simp_all add: sg_def a_def)
    then show ?thesis using r R by (simp add: algebra_simps)
  next
    case False
    then have "sg = -1" "q = - (x * 2 powi u)" using xa q by (simp_all add: sg_def a_def)
    then show ?thesis using r R by (simp add: algebra_simps)
  qed
  have "\<bar>round_f64 q - q\<bar> = \<bar>of_int M - x\<bar> * 2 powi u"
    unfolding R d by (simp add: abs_mult sg_def)
  also have "\<dots> \<le> 2 powi u / 2" using cl by (simp add: mult_right_mono)
  finally have err: "\<bar>round_f64 q - q\<bar> \<le> 2 powi u / 2" .
  have "\<bar>sg * M\<bar> = M" using M0 by (simp add: abs_mult sg_def)
  moreover have "of_int M \<le> x + 1 / 2" using round_half_even_close [of x] by (simp add: M_def)
  ultimately show ?thesis using r err M0
    by (intro exI [of _ "sg * M"]) (simp add: a_def [symmetric] u_def [symmetric] x_def [symmetric])
qed

lemma gf_of_rat_binary64:
  assumes "gf_of_rat q = GF_num v"
  shows "\<exists>m e. v = of_int m * 2 powi e \<and> \<bar>m\<bar> < 2 ^ 53 \<and> -1074 \<le> e \<and> e \<le> 971"
proof (cases "q = 0")
  case True
  then show ?thesis using assms by (auto simp: gf_of_rat_def round_f64_def float64_overflow_def float64_overflow_bound_def)
next
  case q: False
  define a where "a = \<bar>q\<bar>"
  define u where "u = max (bin_exp a - 53) (-1074)"
  have a0: "0 < a" using q by (simp add: a_def)
  have nov: "a < 2 ^ 1024 - 2 ^ 970" and v: "v = round_f64 q"
    using assms by (auto simp: gf_of_rat_def float64_overflow_def float64_overflow_bound_eq a_def split: if_splits)
  obtain m where m: "v = of_int m * 2 powi u" "of_int \<bar>m\<bar> \<le> a * 2 powi (- u) + 1 / 2"
    using round_f64_repr [OF q] v by (auto simp: a_def [symmetric] u_def [symmetric])
  have eb: "2 powi (bin_exp a - 1) \<le> a" "a < 2 powi bin_exp a" using bin_exp_bounds [OF a0] by simp_all
  have "(2::rat) powi (bin_exp a - 1) < 2 powi 1024" using eb(1) nov by simp
  then have e1024: "bin_exp a \<le> 1024" using power_int_le_imp_less_exp [of "2::rat" "bin_exp a - 1" 1024] by simp
  have u_lo: "-1074 \<le> u" and u_hi: "u \<le> 971" using e1024 by (simp_all add: u_def)
  have "a * 2 powi (- u) < 2 powi bin_exp a * 2 powi (- u)" using eb(2) by simp
  also have "\<dots> \<le> 2 powi (u + 53) * 2 powi (- u)"
    using power_int_increasing [of "bin_exp a" "u + 53" "2::rat"] by (simp add: u_def)
  also have "\<dots> = 2 ^ 53" by (simp add: power_int_add [symmetric])
  finally have x53: "a * 2 powi (- u) < 2 ^ 53" .
  have "of_int \<bar>m\<bar> < (2::rat) ^ 53 + 1" using m(2) x53 by simp
  then have "(of_int \<bar>m\<bar> :: rat) < of_int (2 ^ 53 + 1)" by simp
  then have "\<bar>m\<bar> < 2 ^ 53 + 1" by (simp only: of_int_less_iff)
  then have m53: "\<bar>m\<bar> \<le> 2 ^ 53" by simp
  show ?thesis
  proof (cases "\<bar>m\<bar> < 2 ^ 53")
    case True
    then show ?thesis using m(1) u_lo u_hi by blast
  next
    case False
    then have m_eq: "\<bar>m\<bar> = 2 ^ 53" using m53 by simp
    have u970: "u \<le> 970"
    proof (rule ccontr)
      assume "\<not> u \<le> 970"
      then have "u = 971" using u_hi by simp
      then have "a * 2 powi (- u) < 2 ^ 53 - 1 / 2" using nov by (simp add: power_int_minus field_simps)
      then show False using m(2) m_eq by simp
    qed
    have p: "(2::rat) powi (u + 1) = 2 * 2 powi u" by (simp add: power_int_add_1')
    have mc: "m = 2 ^ 53 \<or> m = - (2 ^ 53)" using m_eq by (simp add: abs_if split: if_splits; linarith)
    then obtain m' where m': "v = of_int m' * 2 powi (u + 1)" "\<bar>m'\<bar> < 2 ^ 53"
    proof
      assume "m = 2 ^ 53"
      then have "v = of_int (2 ^ 52) * 2 powi (u + 1)" using m(1) p by simp
      then show ?thesis using that [of "2 ^ 52"] by simp
    next
      assume "m = - (2 ^ 53)"
      then have "v = of_int (- (2 ^ 52)) * 2 powi (u + 1)" using m(1) p by simp
      then show ?thesis using that [of "- (2 ^ 52)"] by simp
    qed
    then show ?thesis using u_lo u970 by (intro exI [of _ m'] exI [of _ "u + 1"]) simp
  qed
qed

lemma special_not_num: "special s \<noteq> Some (GF_num q, n)"
  by (auto simp: special_def special_inf_def Let_def split: list.splits if_splits)

lemma parse_float_value_num: "parse_float_value s = GF_num q \<Longrightarrow> \<not> float64_overflow q"
  using special_not_num [of s q]
  by (auto simp: parse_float_value_def parse_float64_def float64_overflow_def float64_overflow_bound_def
           split: option.splits if_splits prod.splits)

lemma parse_float_rounded_num: "parse_float_rounded s = GF_num v \<Longrightarrow> \<exists>q. gf_of_rat q = GF_num v"
  using parse_float_value_num [of s]
  by (auto simp: parse_float_rounded_def gf_of_rat_def split: go_float.splits)

lemma gf_div_num: "gf_div x y = GF_num v \<Longrightarrow> v = 0 \<or> (\<exists>q. gf_of_rat q = GF_num v)"
  by (auto simp: gf_div_def split: go_float.splits if_splits)

end
