(* ===== verification/DemoView.thy ===== *)
theory DemoView
  imports Demo GoFloat
begin

text \<open>
  The view helpers of the demo (\<open>src/example/demo/main.go\<close>): \<open>fracToFloat\<close>,
  \<open>almostEqual\<close>, \<open>fpsLabel\<close>, \<open>parseFloat\<close>, \<open>buildProbeView\<close> and the template
  functions \<open>humanBitrate\<close>, \<open>humanSize\<close>, \<open>humanDuration\<close>, over the float64
  model of \<open>GoFloat\<close>; and the \<open>POST /probe\<close> handler, which threads the ffprobe
  tool's state through \<open>Probe\<close>, \<open>Version\<close> and the four extra probes and collects
  their errors with \<open>appendErr\<close>. \<open>Error()\<close> of the errors and
  \<open>json.MarshalIndent\<close> are library code, given as the record \<open>page_codec\<close>.
\<close>

section \<open>Texts of the page\<close>

definition zh_const :: string where
  "zh_const = [CHR 0xEF, CHR 0xBC, CHR 0x88, CHR 0xE6, CHR 0x81, CHR 0x92, CHR 0xE5, CHR 0xAE, CHR 0x9A, CHR 0x2F, CHR 0xE6, CHR 0x8E, CHR 0xA5, CHR 0xE8, CHR 0xBF, CHR 0x91, CHR 0xE6, CHR 0x81, CHR 0x92, CHR 0xE5, CHR 0xAE, CHR 0x9A, CHR 0xEF, CHR 0xBC, CHR 0x89]"

definition zh_nominal :: string where
  "zh_nominal = [CHR 0xE6, CHR 0xA0, CHR 0x87, CHR 0xE7, CHR 0xA7, CHR 0xB0, CHR 0x20]"

definition zh_avg_sep :: string where
  "zh_avg_sep = [CHR 0xEF, CHR 0xBC, CHR 0x8C, CHR 0xE5, CHR 0xB9, CHR 0xB3, CHR 0xE5, CHR 0x9D, CHR 0x87, CHR 0x20]"

definition zh_variable :: string where
  "zh_variable = [CHR 0xEF, CHR 0xBC, CHR 0x88, CHR 0xE5, CHR 0x8F, CHR 0xAF, CHR 0xE8, CHR 0x83, CHR 0xBD, CHR 0xE4, CHR 0xB8, CHR 0xBA, CHR 0xE5, CHR 0x8F, CHR 0xAF, CHR 0xE5, CHR 0x8F, CHR 0x98, CHR 0xE5, CHR 0xB8, CHR 0xA7, CHR 0xE7, CHR 0x8E, CHR 0x87, CHR 0xEF, CHR 0xBC, CHR 0x89]"

definition zh_avg :: string where
  "zh_avg = [CHR 0xE5, CHR 0xB9, CHR 0xB3, CHR 0xE5, CHR 0x9D, CHR 0x87, CHR 0x20]"

definition zh_about :: string where
  "zh_about = [CHR 0xEF, CHR 0xBC, CHR 0x88, CHR 0xE7, CHR 0xBA, CHR 0xA6, CHR 0x20]"

definition zh_lparen :: string where
  "zh_lparen = [CHR 0xEF, CHR 0xBC, CHR 0x88]"

definition zh_seconds :: string where
  "zh_seconds = [CHR 0xE7, CHR 0xA7, CHR 0x92, CHR 0xEF, CHR 0xBC, CHR 0x89]"

definition zh_chapters :: string where
  "zh_chapters = [CHR 0xE7, CHR 0xAB, CHR 0xA0, CHR 0xE8, CHR 0x8A, CHR 0x82, CHR 0xE6, CHR 0x95, CHR 0xB0, CHR 0xE9, CHR 0x87, CHR 0x8F, CHR 0xEF, CHR 0xBC, CHR 0x9A]"

definition zh_count :: string where
  "zh_count = [CHR 0xE6, CHR 0x95, CHR 0xB0, CHR 0xE9, CHR 0x87, CHR 0x8F, CHR 0xEF, CHR 0xBC, CHR 0x9A]"

definition zh_parse_failed :: string where
  "zh_parse_failed = [CHR 0xE8, CHR 0xA7, CHR 0xA3, CHR 0xE6, CHR 0x9E, CHR 0x90, CHR 0xE5, CHR 0xA4, CHR 0xB1, CHR 0xE8, CHR 0xB4, CHR 0xA5, CHR 0x3A, CHR 0x20]"

definition zh_base_failed :: string where
  "zh_base_failed = [CHR 0xE5, CHR 0x9F, CHR 0xBA, CHR 0xE7, CHR 0xA1, CHR 0x80, CHR 0xE8, CHR 0xA7, CHR 0xA3, CHR 0xE6, CHR 0x9E, CHR 0x90, CHR 0xE5, CHR 0xA4, CHR 0xB1, CHR 0xE8, CHR 0xB4, CHR 0xA5, CHR 0x3A, CHR 0x20]"

section \<open>Frame rates\<close>

definition fracToFloat :: "string \<Rightarrow> go_float" where
  "fracToFloat s =
     (let s = trim_space s
      in if s = [] \<or> s = ''0/0'' then GF_num 0
         else (case split_on (CHR ''/'') s of
                 [a] \<Rightarrow> parse_float_rounded a
               | [a, b] \<Rightarrow>
                   (let n = parse_float_rounded a; d = parse_float_rounded b
                    in if d = GF_num 0 then GF_num 0 else gf_div n d)
               | _ \<Rightarrow> GF_num 0))"

definition almostEqual :: "go_float \<Rightarrow> go_float \<Rightarrow> bool" where
  "almostEqual a b =
     (let diff = gf_sub a b; diff = (if gf_less diff (GF_num 0) then gf_neg diff else diff)
      in gf_less diff (GF_num (1 / 10000)))"

definition fpsLabel :: "string \<Rightarrow> string \<Rightarrow> string" where
  "fpsLabel r avg =
     (let rr = fracToFloat r; aa = fracToFloat avg
      in if gf_less (GF_num 0) rr \<and> gf_less (GF_num 0) aa then
           (if almostEqual rr aa then fmt_g 3 aa @ '' fps'' @ zh_const
            else zh_nominal @ fmt_g 3 rr @ '' fps'' @ zh_avg_sep @ fmt_g 3 aa @ '' fps'' @ zh_variable)
         else if gf_less (GF_num 0) aa then zh_avg @ fmt_g 3 aa @ '' fps''
         else if gf_less (GF_num 0) rr then fmt_g 3 rr @ '' fps''
         else ''-'')"

definition parseFloat :: "string \<Rightarrow> go_float" where
  "parseFloat s = (let s = trim_space s in if s = [] then GF_num 0 else parse_float_rounded s)"

section \<open>The base view\<close>

record video_view =
  vv_Codec :: string
  vv_Profile :: string
  vv_Resolution :: string
  vv_FPSLabel :: string
  vv_PixFmt :: string
  vv_Bitrate :: int

record audio_view =
  av_Codec :: string
  av_Profile :: string
  av_SampleRate :: int
  av_Channels :: int
  av_Layout :: string
  av_Bitrate :: int

record probe_view =
  pv_Source :: string
  pv_FFVersion :: string
  pv_Container :: string
  pv_DurationSec :: go_float
  pv_SizeBytes :: int
  pv_TotalBitrate :: int
  pv_Video :: "video_view option"
  pv_Audio :: "audio_view option"

definition buildProbeView :: "ffprobe_json \<Rightarrow> string \<Rightarrow> string \<Rightarrow> probe_view" where
  "buildProbeView p source ver =
     \<lparr>pv_Source = source, pv_FFVersion = ver,
      pv_Container = chooseNonEmpty (fmt_FormatLongName (Format p)) (fmt_FormatName (Format p)),
      pv_DurationSec = parseFloat (fmt_Duration (Format p)),
      pv_SizeBytes = parseInt64 (fmt_Size (Format p)),
      pv_TotalBitrate = parseInt64 (fmt_BitRate (Format p)),
      pv_Video = map_option (\<lambda>v. \<lparr>vv_Codec = st_CodecName v, vv_Profile = st_Profile v,
                                   vv_Resolution = itoa (st_Width v) @ ''x'' @ itoa (st_Height v),
                                   vv_FPSLabel = fpsLabel (st_RFrameRate v) (st_AvgFrameRate v),
                                   vv_PixFmt = st_PixFmt v, vv_Bitrate = parseInt64 (st_BitRate v)\<rparr>)
                  (FirstVideo p),
      pv_Audio = map_option (\<lambda>a. \<lparr>av_Codec = st_CodecName a, av_Profile = st_Profile a,
                                   av_SampleRate = parseInt64 (st_SampleRate a), av_Channels = st_Channels a,
                                   av_Layout = st_ChannelLayout a, av_Bitrate = parseInt64 (st_BitRate a)\<rparr>)
                  (FirstAudio p)\<rparr>"

section \<open>Template functions\<close>

definition humanBitrate :: "int \<Rightarrow> string" where
  "humanBitrate bps =
     (if bps \<le> 0 then ''-''
      else if 1000000 \<le> bps then
        fmt_fixed 2 (gf_div (GF_num (of_int bps)) (GF_num 1000000)) @ '' Mbps'' @ zh_about
        @ itoa (go_quot bps 1000) @ '' kbps'' @ zh_close
      else if 1000 \<le> bps then itoa (go_quot bps 1000) @ '' kbps''
      else itoa bps @ '' bps'')"

definition humanSize :: "int \<Rightarrow> string" where
  "humanSize bytes =
     (let KB = 1024; MB = 1024 * KB; GB = 1024 * MB
      in if bytes \<le> 0 then ''-''
         else if GB \<le> bytes then fmt_fixed 2 (gf_div (GF_num (of_int bytes)) (GF_num (of_int GB))) @ '' GB''
         else if MB \<le> bytes then fmt_fixed 2 (gf_div (GF_num (of_int bytes)) (GF_num (of_int MB))) @ '' MB''
         else if KB \<le> bytes then fmt_fixed 2 (gf_div (GF_num (of_int bytes)) (GF_num (of_int KB))) @ '' KB''
         else itoa bytes @ '' B'')"

definition humanDuration :: "go_float \<Rightarrow> string" where
  "humanDuration secs =
     (if gf_le secs (GF_num 0) then ''-''
      else
        (let totalMs = gf_to_int64 (gf_mul secs (GF_num 1000));
             mins = go_quot totalMs 60000; rem = go_rem totalMs 60000;
             s = go_quot rem 1000; ms = go_rem rem 1000
         in fmt_pad0 2 mins @ '':'' @ fmt_pad0 2 s @ ''.'' @ fmt_pad0 3 ms
            @ zh_lparen @ fmt_fixed 3 secs @ '' '' @ zh_seconds))"

section \<open>The probe page\<close>

text \<open>\<open>PageData\<close> and \<open>AdvancedView\<close>; a \<open>nil\<close> pointer is \<open>None\<close>. The field
  \<open>FFJob\<close>, which only the start handler's page sets, is left out.\<close>

record advanced_view =
  FramesSummary :: string
  PacketsSummary :: string
  ChaptersSummary :: string
  ProgramsSummary :: string

record page_data =
  pd_OK :: bool
  pd_Error :: string
  pd_View :: "probe_view option"
  pd_Advanced :: "advanced_view option"
  RawBaseJSON :: string
  RawFramesJSON :: string
  RawPacketsJSON :: string
  RawChaptersJSON :: string
  RawProgramsJSON :: string

definition empty_advanced :: advanced_view where
  "empty_advanced = \<lparr>FramesSummary = [], PacketsSummary = [], ChaptersSummary = [], ProgramsSummary = []\<rparr>"

text \<open>\<open>PageData{OK: false, Error: e}\<close>.\<close>

definition error_page :: "string \<Rightarrow> page_data" where
  "error_page e = \<lparr>pd_OK = False, pd_Error = e, pd_View = None, pd_Advanced = None, RawBaseJSON = [],
     RawFramesJSON = [], RawPacketsJSON = [], RawChaptersJSON = [], RawProgramsJSON = []\<rparr>"

text \<open>Library code the handler calls: \<open>Error()\<close> of its errors, \<open>json.MarshalIndent\<close>
  of each document, and \<open>json.Unmarshal\<close> into each of the extra documents.\<close>

record page_codec =
  pc_input_err :: "input_error \<Rightarrow> string"
  pc_probe_err :: "probe_error \<Rightarrow> string"
  pc_json_base :: "ffprobe_json \<Rightarrow> string"
  pc_json_frames :: "frames_json option \<Rightarrow> string"
  pc_json_packets :: "packets_json option \<Rightarrow> string"
  pc_json_chapters :: "chapters_json \<Rightarrow> string"
  pc_json_programs :: "programs_json \<Rightarrow> string"
  pc_dec_frames :: "string \<Rightarrow> frames_json option"
  pc_dec_packets :: "string \<Rightarrow> packets_json option"
  pc_dec_chapters :: "string \<Rightarrow> chapters_json option"
  pc_dec_programs :: "string \<Rightarrow> programs_json option"

text \<open>The four advanced sections, in the order of the handler. Each threads the
  tool's state and either appends its error to \<open>data.Error\<close> or fills its raw
  JSON and its summary.\<close>

type_synonym page_state = "probe_tool \<times> page_data"

definition set_advanced :: "(advanced_view \<Rightarrow> advanced_view) \<Rightarrow> page_data \<Rightarrow> page_data" where
  "set_advanced f d = d\<lparr>pd_Advanced := map_option f (pd_Advanced d)\<rparr>"

definition add_error :: "string \<Rightarrow> page_codec \<Rightarrow> probe_error \<Rightarrow> page_data \<Rightarrow> page_data" where
  "add_error what pc e d = d\<lparr>pd_Error := appendErr (pd_Error d) (what @ zh_parse_failed @ pc_probe_err pc e)\<rparr>"

definition page_frames :: "page_codec \<Rightarrow> probe_env \<Rightarrow> options \<Rightarrow> string \<Rightarrow> page_state \<Rightarrow> page_state" where
  "page_frames pc env opt input st =
     (let (t, d) = st
      in if \<not> EnableFrames opt then (t, d)
         else (case ProbeFrames env (pc_dec_frames pc) t input (FramesSelectStreams opt) (FramesReadIntervals opt) of
                 (t', Inl e) \<Rightarrow> (t', add_error ''frames '' pc e d)
               | (t', Inr fr) \<Rightarrow>
                   (let frames = frames_pipeline opt (Some fr)
                    in (t', set_advanced (\<lambda>a. a\<lparr>FramesSummary := summarizeFrames frames\<rparr>)
                              (d\<lparr>RawFramesJSON := pc_json_frames pc frames\<rparr>)))))"

definition page_packets :: "page_codec \<Rightarrow> probe_env \<Rightarrow> options \<Rightarrow> string \<Rightarrow> page_state \<Rightarrow> page_state" where
  "page_packets pc env opt input st =
     (let (t, d) = st
      in if \<not> EnablePackets opt then (t, d)
         else (case ProbePackets env (pc_dec_packets pc) t input (PacketsSelectStreams opt) of
                 (t', Inl e) \<Rightarrow> (t', add_error ''packets '' pc e d)
               | (t', Inr pk) \<Rightarrow>
                   (let pkts = (if 0 < PacketsLimit opt then limitPackets (Some pk) (PacketsLimit opt) else Some pk)
                    in (t', set_advanced (\<lambda>a. a\<lparr>PacketsSummary := summarizePackets pkts\<rparr>)
                              (d\<lparr>RawPacketsJSON := pc_json_packets pc pkts\<rparr>)))))"

definition page_chapters :: "page_codec \<Rightarrow> probe_env \<Rightarrow> options \<Rightarrow> string \<Rightarrow> page_state \<Rightarrow> page_state" where
  "page_chapters pc env opt input st =
     (let (t, d) = st
      in if \<not> EnableChapters opt then (t, d)
         else (case ProbeChapters env (pc_dec_chapters pc) t input of
                 (t', Inl e) \<Rightarrow> (t', add_error ''chapters '' pc e d)
               | (t', Inr chs) \<Rightarrow>
                   (t', set_advanced (\<lambda>a. a\<lparr>ChaptersSummary := zh_chapters @ itoa (int (length (Chapters chs)))\<rparr>)
                          (d\<lparr>RawChaptersJSON := pc_json_chapters pc chs\<rparr>))))"

definition page_programs :: "page_codec \<Rightarrow> probe_env \<Rightarrow> options \<Rightarrow> string \<Rightarrow> page_state \<Rightarrow> page_state" where
  "page_programs pc env opt input st =
     (let (t, d) = st
      in if \<not> EnablePrograms opt then (t, d)
         else (case ProbePrograms env (pc_dec_programs pc) t input of
                 (t', Inl e) \<Rightarrow> (t', add_error ''programs '' pc e d)
               | (t', Inr pgs) \<Rightarrow>
                   (t', set_advanced (\<lambda>a. a\<lparr>ProgramsSummary := ''Programs '' @ zh_count @ itoa (int (length (Programs pgs)))\<rparr>)
                          (d\<lparr>RawProgramsJSON := pc_json_programs pc pgs\<rparr>))))"

text \<open>\<open>POST /probe\<close>: the tool after the request, the HTTP status, the page, and the
  file the deferred cleanup removes. \<open>Version\<close>'s error is dropped (its string is
  then empty).\<close>

definition probe_page :: "page_codec \<Rightarrow> input_env \<Rightarrow> probe_env \<Rightarrow> probe_tool \<Rightarrow> form_request
                          \<Rightarrow> probe_tool \<times> nat \<times> page_data \<times> string option" where
  "probe_page pc ie env t r =
     (case getInputFromRequest ie r of
        Inl e \<Rightarrow> (t, 400, error_page (pc_input_err pc e), None)
      | Inr (input, desc, cl) \<Rightarrow>
          (case Probe env t input of
             (t1, Inl e) \<Rightarrow> (t1, 500, error_page (''ffprobe '' @ zh_base_failed @ pc_probe_err pc e), cl)
           | (t1, Inr base) \<Rightarrow>
               (let (t2, vr) = probe_Version env t1;
                    ver = (case vr of Inl _ \<Rightarrow> [] | Inr v \<Rightarrow> v);
                    opt = readOptions r;
                    d = \<lparr>pd_OK = True, pd_Error = [], pd_View = Some (buildProbeView base desc ver),
                         pd_Advanced = Some empty_advanced, RawBaseJSON = pc_json_base pc base,
                         RawFramesJSON = [], RawPacketsJSON = [], RawChaptersJSON = [], RawProgramsJSON = []\<rparr>;
                    (t3, d) = (page_programs pc env opt input \<circ> page_chapters pc env opt input
                               \<circ> page_packets pc env opt input \<circ> page_frames pc env opt input) (t2, d)
                in (t3, 200, d, cl))))"

section \<open>The command-line example\<close>

text \<open>\<open>src/unnamed/part_002\<close>: probe \<open>example.mp4\<close> with a default tool and
  \<open>context.Background()\<close>, then print the format line and, when present, a video and
  an audio line. \<open>log.Fatal\<close> prints the error and exits with status 1.\<close>

datatype cli_out = CLI_fatal string | CLI_print string

definition cli_main :: "(probe_error \<Rightarrow> string) \<Rightarrow> probe_env \<Rightarrow> cli_out" where
  "cli_main err env =
     (case snd (Probe env NewDefaultTool ''example.mp4'') of
        Inl e \<Rightarrow> CLI_fatal (err e)
      | Inr info \<Rightarrow>
          CLI_print
            (''Format: '' @ fmt_FormatName (Format info) @ '' Duration: '' @ fmt_Duration (Format info)
             @ '' Bitrate: '' @ fmt_BitRate (Format info) @ [nl]
             @ (case FirstVideo info of
                  None \<Rightarrow> []
                | Some v \<Rightarrow> ''Video: '' @ st_CodecName v @ '' '' @ itoa (st_Width v) @ ''x'' @ itoa (st_Height v)
                           @ '' fps='' @ st_RFrameRate v @ '' avg='' @ st_AvgFrameRate v @ [nl])
             @ (case FirstAudio info of
                  None \<Rightarrow> []
                | Some a \<Rightarrow> ''Audio: '' @ st_CodecName a @ '' '' @ st_SampleRate a @ ''Hz ch='' @ itoa (st_Channels a)
                           @ '' layout='' @ st_ChannelLayout a @ [nl])))"

section \<open>Fixtures\<close>

text \<open>A probe world where ffprobe is found, every probe exits cleanly except the
  packets probe (exit status 1), and the document has no streams and a duration of
  62.5 seconds; a codec with fixed texts; a request for a remote URL with the frames
  and packets sections enabled.\<close>

definition page_doc :: ffprobe_json where
  "page_doc = \<lparr>Streams = [], Format = \<lparr>fmt_Filename = ''a.mp4'', fmt_NbStreams = 0, fmt_NbPrograms = 0,
     fmt_FormatName = ''mov,mp4'', fmt_FormatLongName = ''QuickTime / MOV'', fmt_StartTime = [],
     fmt_Duration = ''62.5'', fmt_Size = [], fmt_BitRate = [], fmt_ProbeScore = 100, fmt_Tags = Map.empty\<rparr>\<rparr>"

definition page_env :: probe_env where
  "page_env = \<lparr>p_look_path = (\<lambda>_. Some ''/usr/bin/ffprobe''), p_run_version = (\<lambda>_ _. Version_ok []),
     p_output = (\<lambda>_ xs. P_started \<lparr>po_stdout = ''{}'', po_stderr = [],
                   po_exit = (if ''-show_packets'' \<in> set xs then W_exit 1 else W_ok),
                   po_killed = W_exit (-1), po_outlasts = False\<rparr>),
     p_decode = (\<lambda>_. Some page_doc)\<rparr>"

definition page_codec0 :: page_codec where
  "page_codec0 = \<lparr>pc_input_err = (\<lambda>_. ''bad input''), pc_probe_err = (\<lambda>_. ''exit status 1''),
     pc_json_base = (\<lambda>_. ''{}''), pc_json_frames = (\<lambda>_. ''{}''), pc_json_packets = (\<lambda>_. ''{}''),
     pc_json_chapters = (\<lambda>_. ''{}''), pc_json_programs = (\<lambda>_. ''{}''),
     pc_dec_frames = (\<lambda>_. Some \<lparr>Frames = []\<rparr>), pc_dec_packets = (\<lambda>_. Some \<lparr>Packets = []\<rparr>),
     pc_dec_chapters = (\<lambda>_. Some \<lparr>Chapters = []\<rparr>), pc_dec_programs = (\<lambda>_. Some \<lparr>Programs = []\<rparr>)\<rparr>"

definition page_req :: form_request where
  "page_req = \<lparr>PostForm = (\<lambda>k. if k = ''url'' then ''https://example.com/a.mp4''
                              else if k = ''enable_frames'' \<or> k = ''enable_packets'' then ''on'' else []),
               FormFile = None\<rparr>"

abbreviation page_tool :: probe_tool where
  "page_tool \<equiv> NewDefaultTool\<lparr>p_checked := True, p_resolvedPath := ''/usr/bin/ffprobe'', p_version := ''unknown''\<rparr>"

section \<open>Properties\<close>

subsection \<open>Frame rates\<close>



subsection \<open>The probe page\<close>

lemma page_section_tool:
  assumes "probe_ensureReady env t = (t, r)" "fst st = t"
  shows "fst (page_frames pc env opt input st) = t" "fst (page_packets pc env opt input st) = t"
        "fst (page_chapters pc env opt input st) = t" "fst (page_programs pc env opt input st) = t"
  using probe_with_tool_eq [OF _ assms(1)] assms(2)
  by (auto simp: page_frames_def page_packets_def page_chapters_def page_programs_def ProbeFrames_def
        ProbePackets_def ProbeChapters_def ProbePrograms_def Let_def split: prod.splits sum.splits)


lemma page_section_ok:
  "pd_OK (snd (page_frames pc env opt input st)) = pd_OK (snd st)"
  "pd_OK (snd (page_packets pc env opt input st)) = pd_OK (snd st)"
  "pd_OK (snd (page_chapters pc env opt input st)) = pd_OK (snd st)"
  "pd_OK (snd (page_programs pc env opt input st)) = pd_OK (snd st)"
  by (auto simp: page_frames_def page_packets_def page_chapters_def page_programs_def add_error_def
        set_advanced_def Let_def split: prod.splits sum.splits)

text \<open>The /probe page answers 400 exactly when no input could be obtained, 500 exactly when the base Probe fails, and 200 otherwise, whatever the advanced probes do; the page is marked OK exactly on 200, and the uploaded temporary file is handed to the deferred cleanup on every path after it was saved.\<close>

theorem probe_page_status:
  "fst (snd (probe_page pc ie env t r)) =
     (case getInputFromRequest ie r of
        Inl _ \<Rightarrow> 400
      | Inr (input, _, _) \<Rightarrow> (case snd (Probe env t input) of Inl _ \<Rightarrow> 500 | Inr _ \<Rightarrow> 200))
   \<and> pd_OK (fst (snd (snd (probe_page pc ie env t r)))) = (fst (snd (probe_page pc ie env t r)) = 200)
   \<and> snd (snd (snd (probe_page pc ie env t r))) =
       (case getInputFromRequest ie r of Inl _ \<Rightarrow> None | Inr (_, _, cl) \<Rightarrow> cl)"
  by (auto simp: probe_page_def error_page_def Let_def case_prod_beta page_section_ok
        split: sum.splits prod.splits)

lemma appendErr_nonspace: "\<not> is_space c \<Longrightarrow> appendErr e (c # v) \<noteq> []"
  using trim_space_lead_nonspace [of "[]" c v] by (auto simp: appendErr_def Let_def)

lemma add_error_nonempty: "what \<noteq> [] \<Longrightarrow> \<not> is_space (hd what) \<Longrightarrow> pd_Error (add_error what pc e d) \<noteq> []"
  using appendErr_nonspace [of "hd what" "pd_Error d" "tl what @ zh_parse_failed @ pc_probe_err pc e"]
  by (cases what) (auto simp: add_error_def)

lemma page_section_err:
  assumes "fst st = t"
  shows
  "(pd_Error (snd (page_frames pc env opt input st)) = []) =
     (pd_Error (snd st) = [] \<and> (EnableFrames opt \<longrightarrow>
        \<not> isl (snd (ProbeFrames env (pc_dec_frames pc) t input (FramesSelectStreams opt) (FramesReadIntervals opt)))))"
  "(pd_Error (snd (page_packets pc env opt input st)) = []) =
     (pd_Error (snd st) = [] \<and> (EnablePackets opt \<longrightarrow>
        \<not> isl (snd (ProbePackets env (pc_dec_packets pc) t input (PacketsSelectStreams opt)))))"
  "(pd_Error (snd (page_chapters pc env opt input st)) = []) =
     (pd_Error (snd st) = [] \<and> (EnableChapters opt \<longrightarrow> \<not> isl (snd (ProbeChapters env (pc_dec_chapters pc) t input))))"
  "(pd_Error (snd (page_programs pc env opt input st)) = []) =
     (pd_Error (snd st) = [] \<and> (EnablePrograms opt \<longrightarrow> \<not> isl (snd (ProbePrograms env (pc_dec_programs pc) t input))))"
  using assms add_error_nonempty
  by (auto simp: page_frames_def page_packets_def page_chapters_def page_programs_def set_advanced_def
        is_space_def Let_def split: prod.splits sum.splits)

text \<open>C31: On a page whose base probe succeeded, the error text is empty exactly when every enabled advanced probe (frames, packets, chapters, programs) succeeded, each run on the tool state the readiness check left: the failure of an advanced probe is always reported and never stops the page.\<close>

theorem probe_page_errors:
  assumes inp: "getInputFromRequest ie r = Inr (input, desc, cl)"
      and ok: "\<not> isl (snd (Probe env t input))"
  shows "(pd_Error (fst (snd (snd (probe_page pc ie env t r)))) = []) =
     (let t1 = fst (probe_ensureReady env t); opt = readOptions r
      in (EnableFrames opt \<longrightarrow>
            \<not> isl (snd (ProbeFrames env (pc_dec_frames pc) t1 input (FramesSelectStreams opt) (FramesReadIntervals opt))))
       \<and> (EnablePackets opt \<longrightarrow> \<not> isl (snd (ProbePackets env (pc_dec_packets pc) t1 input (PacketsSelectStreams opt))))
       \<and> (EnableChapters opt \<longrightarrow> \<not> isl (snd (ProbeChapters env (pc_dec_chapters pc) t1 input)))
       \<and> (EnablePrograms opt \<longrightarrow> \<not> isl (snd (ProbePrograms env (pc_dec_programs pc) t1 input))))"
proof -
  obtain t1 c where er: "probe_ensureReady env t = (t1, c)" by (cases "probe_ensureReady env t")
  have again: "probe_ensureReady env t1 = (t1, c)" using probe_ensureReady_again [OF er] .
  obtain base where pr: "Probe env t input = (t1, Inr base)"
    using Probe_tool [OF er, of input] ok by (cases "Probe env t input") (metis fst_conv snd_conv sum.collapse(2))
  obtain vr where ve: "probe_Version env t1 = (t1, vr)"
    using probe_Version_tool [OF again] by (cases "probe_Version env t1") auto
  define opt where "opt = readOptions r"
  define d where "d = \<lparr>pd_OK = True, pd_Error = [], pd_View = Some (buildProbeView base desc (case vr of Inl _ \<Rightarrow> [] | Inr v \<Rightarrow> v)),
                         pd_Advanced = Some empty_advanced, RawBaseJSON = pc_json_base pc base,
                         RawFramesJSON = [], RawPacketsJSON = [], RawChaptersJSON = [], RawProgramsJSON = []\<rparr>"
  define s1 where "s1 = page_frames pc env opt input (t1, d)"
  define s2 where "s2 = page_packets pc env opt input s1"
  define s3 where "s3 = page_chapters pc env opt input s2"
  have f1: "fst s1 = t1" "fst s2 = t1" "fst s3 = t1"
    using page_section_tool [OF again] by (simp_all add: s1_def s2_def s3_def)
  have page: "probe_page pc ie env t r = (fst (page_programs pc env opt input s3), 200, snd (page_programs pc env opt input s3), cl)"
    using inp pr ve by (simp add: probe_page_def opt_def d_def s1_def s2_def s3_def case_prod_beta Let_def)
  have e1: "(pd_Error (snd s1) = []) = (EnableFrames opt \<longrightarrow>
      \<not> isl (snd (ProbeFrames env (pc_dec_frames pc) t1 input (FramesSelectStreams opt) (FramesReadIntervals opt))))"
    using page_section_err(1) [of "(t1, d)" t1 pc env opt input] by (simp add: s1_def d_def)
  have e2: "(pd_Error (snd s2) = []) = (pd_Error (snd s1) = [] \<and> (EnablePackets opt \<longrightarrow>
      \<not> isl (snd (ProbePackets env (pc_dec_packets pc) t1 input (PacketsSelectStreams opt)))))"
    using page_section_err(2) [OF f1(1), of pc env opt input] by (simp add: s2_def)
  have e3: "(pd_Error (snd s3) = []) = (pd_Error (snd s2) = [] \<and> (EnableChapters opt \<longrightarrow>
      \<not> isl (snd (ProbeChapters env (pc_dec_chapters pc) t1 input))))"
    using page_section_err(3) [OF f1(2), of pc env opt input] by (simp add: s3_def)
  show ?thesis
    using page_section_err(4) [OF f1(3), of pc env opt input]
    by (simp add: page er opt_def [symmetric] e1 e2 e3)
qed

subsection \<open>humanDuration\<close>

text \<open>C33: For a positive duration whose millisecond count sec*1000 is a float64 below 2^63, humanDuration prints minutes, seconds and milliseconds, with seconds in [0, 60) and milliseconds in [0, 1000), that add up to the truncated millisecond count.\<close>

theorem humanDuration_fields:
  assumes pos: "0 < q" and fin: "gf_mul (GF_num q) (GF_num 1000) = GF_num r" and lt: "r < 2 ^ 63"
  shows "\<exists>m s ms. humanDuration (GF_num q) =
                   fmt_pad0 2 m @ '':'' @ fmt_pad0 2 s @ ''.'' @ fmt_pad0 3 ms
                   @ zh_lparen @ fmt_fixed 3 (GF_num q) @ '' '' @ zh_seconds
               \<and> 0 \<le> m \<and> 0 \<le> s \<and> s < 60 \<and> 0 \<le> ms \<and> ms < 1000
               \<and> m * 60000 + s * 1000 + ms = \<lfloor>r\<rfloor>"
proof -
  have r0: "0 \<le> r" using gf_mul_num [OF fin] pos by (simp add: round_f64_nonneg)
  have fl: "0 \<le> \<lfloor>r\<rfloor>" "\<lfloor>r\<rfloor> < 2 ^ 63" using r0 lt by (simp_all add: floor_less_iff)
  have ti: "gf_to_int64 (GF_num r) = \<lfloor>r\<rfloor>"
    using r0 fl by (simp add: gf_to_int64_def int64_min_def int64_max_def)
  have le: "\<not> gf_le (GF_num q) (GF_num 0)" using pos by (simp add: gf_le_def gf_less_def)
  define t where "t = \<lfloor>r\<rfloor>"
  have "humanDuration (GF_num q) =
          fmt_pad0 2 (t div 60000) @ '':'' @ fmt_pad0 2 (t mod 60000 div 1000) @ ''.''
          @ fmt_pad0 3 (t mod 60000 mod 1000) @ zh_lparen @ fmt_fixed 3 (GF_num q) @ '' '' @ zh_seconds"
    using fl le fin ti by (simp add: humanDuration_def t_def go_quot_rem_nonneg Let_def)
  moreover have "t div 60000 * 60000 + t mod 60000 div 1000 * 1000 + t mod 60000 mod 1000 = t"
    by presburger
  moreover have "0 \<le> t div 60000" "0 \<le> t mod 60000 div 1000" "t mod 60000 div 1000 < 60"
      "0 \<le> t mod 60000 mod 1000" "t mod 60000 mod 1000 < 1000"
    using fl by (simp_all add: t_def pos_imp_zdiv_nonneg_iff)
  ultimately show ?thesis unfolding t_def by blast
qed

lemma humanDuration_min_int64:
  assumes "\<not> gf_le x (GF_num 0)" "gf_to_int64 (gf_mul x (GF_num 1000)) = int64_min"
  shows "humanDuration x = ''-153722867280912:-55.-808'' @ zh_lparen @ fmt_fixed 3 x @ '' '' @ zh_seconds"
proof -
  have q: "go_quot int64_min 60000 = -153722867280912" "go_rem int64_min 60000 = -55808"
    "go_quot (-55808) 1000 = -55" "go_rem (-55808) 1000 = -808"
    by (simp_all add: go_rem_def go_quot_def int64_min_def)
  have d: "fmt_pad0 2 (-153722867280912) = ''-153722867280912''" "fmt_pad0 2 (-55) = ''-55''"
    "fmt_pad0 3 (-808) = ''-808''"
    by (simp_all add: fmt_pad0_def nat_to_dec.simps digit_char_def)
  show ?thesis using assms by (simp add: humanDuration_def Let_def q d)
qed

text \<open>C34: When sec*1000 is +Inf, NaN or at least 2^63 (ffprobe reporting inf or nan, or a duration above about 292 million years), int64(sec*1000) is the amd64 indefinite value -2^63 and humanDuration prints the negative fields -153722867280912:-55.-808 instead of '-'.\<close>

theorem humanDuration_overflow:
  assumes "gf_mul x (GF_num 1000) \<in> {GF_inf False, GF_nan} \<or> (\<exists>r. gf_mul x (GF_num 1000) = GF_num r \<and> 2 ^ 63 \<le> r)"
  shows "humanDuration x = ''-153722867280912:-55.-808'' @ zh_lparen @ fmt_fixed 3 x @ '' '' @ zh_seconds"
proof (rule humanDuration_min_int64)
  show "\<not> gf_le x (GF_num 0)"
  proof (cases x)
    case (GF_num q)
    have "0 < q"
    proof (rule ccontr)
      assume "\<not> 0 < q"
      then have "q * 1000 \<le> 0" "round_f64 (q * 1000) \<le> 0" using round_f64_nonpos [of "q * 1000"] by simp_all
      then show False using assms GF_num
        by (auto simp: gf_mul_def gf_of_rat_def float64_overflow_def float64_overflow_bound_def split: if_splits)
    qed
    then show ?thesis using GF_num by (simp add: gf_le_def gf_less_def)
  next
    case (GF_inf n)
    then show ?thesis using assms by (auto simp: gf_mul_def gf_le_def gf_less_def)
  next
    case GF_nan
    then show ?thesis by (simp add: gf_le_def)
  qed
  show "gf_to_int64 (gf_mul x (GF_num 1000)) = int64_min"
    using assms by (auto simp: gf_to_int64_def int64_max_def le_floor_iff)
qed


lemma page_env_ready: "probe_ensureReady page_env NewDefaultTool = (page_tool, None)"
  by (simp add: probe_ensureReady_def page_env_def NewDefaultTool_def probe_path_def parseFFProbeVersion_def
      nl_def trim_space_def to_lower_def contains_def)

lemma page_env_again: "probe_ensureReady page_env page_tool = (page_tool, None)"
  using probe_ensureReady_again [OF page_env_ready] .

lemma page_base_ok: "Probe page_env NewDefaultTool ''https://example.com/a.mp4'' = (page_tool, Inr page_doc)"
  apply (simp add: Probe_def page_env_ready)
  apply (simp add: page_env_def output_outcome_def probe_args_def)
  done

lemma cli_probe_ok: "Probe page_env NewDefaultTool ''example.mp4'' = (page_tool, Inr page_doc)"
  apply (simp add: Probe_def page_env_ready)
  apply (simp add: page_env_def output_outcome_def probe_args_def)
  done

lemma cli_main_fatal: "(\<exists>m. cli_main err env = CLI_fatal m) \<longleftrightarrow> isl (snd (Probe env NewDefaultTool ''example.mp4''))"
  by (auto simp: cli_main_def split: sum.splits)

lemma cli_main_page_env:
  "cli_main err page_env = CLI_print (''Format: mov,mp4 Duration: 62.5 Bitrate: '' @ [nl])"
  by (simp add: cli_main_def cli_probe_ok page_doc_def FirstVideo_def FirstAudio_def)

lemma page_frames_ok:
  "ProbeFrames page_env (pc_dec_frames page_codec0) page_tool ''https://example.com/a.mp4'' [] [] = (page_tool, Inr \<lparr>Frames = []\<rparr>)"
  apply (simp add: ProbeFrames_def probe_with_def runFFProbeJSON_def page_env_again)
  apply (simp add: page_env_def output_outcome_def frames_args_def page_codec0_def)
  done

lemma page_packets_fail:
  "isl (snd (ProbePackets page_env (pc_dec_packets page_codec0) page_tool ''https://example.com/a.mp4'' []))"
  apply (simp add: ProbePackets_def probe_with_def runFFProbeJSON_def page_env_again)
  apply (simp add: page_env_def output_outcome_def packets_args_def)
  done

lemma page_req_input:
  "getInputFromRequest demo_input_env page_req
     = Inr (''https://example.com/a.mp4'', zh_remote @ ''https://example.com/a.mp4'', None)"
  by (simp add: getInputFromRequest_def url_input_def validateRemoteURL_def demo_input_env_def
        page_req_def trim_space_def is_space_def to_lower_def ascii_lower_def Let_def)

lemma page_req_options:
  "EnableFrames (readOptions page_req) \<and> EnablePackets (readOptions page_req)
   \<and> \<not> EnableChapters (readOptions page_req) \<and> \<not> EnablePrograms (readOptions page_req)
   \<and> FramesSelectStreams (readOptions page_req) = [] \<and> FramesReadIntervals (readOptions page_req) = []
   \<and> PacketsSelectStreams (readOptions page_req) = []"
  by (simp add: readOptions_def page_req_def trim_space_def Let_def)

lemma probe_page_errors_witness:
  "pd_Error (fst (snd (snd (probe_page page_codec0 demo_input_env page_env NewDefaultTool page_req)))) \<noteq> []"
  using probe_page_errors [OF page_req_input, of page_env NewDefaultTool page_codec0]
  by (simp add: page_base_ok page_env_ready page_req_options page_frames_ok page_packets_fail)

lemma humanDuration_fields_witness:
  "\<exists>m s ms. humanDuration (GF_num (125 / 2)) =
              fmt_pad0 2 m @ '':'' @ fmt_pad0 2 s @ ''.'' @ fmt_pad0 3 ms
              @ zh_lparen @ fmt_fixed 3 (GF_num (125 / 2)) @ '' '' @ zh_seconds
          \<and> 0 \<le> m \<and> 0 \<le> s \<and> s < 60 \<and> 0 \<le> ms \<and> ms < 1000 \<and> m * 60000 + s * 1000 + ms = 62500"
  using humanDuration_fields [of "125 / 2" 62500] round_f64_int [of 62500]
  by (simp add: gf_mul_def gf_of_rat_def float64_overflow_def float64_overflow_bound_def)

lemma humanDuration_overflow_witness:
  "humanDuration (GF_inf False) = ''-153722867280912:-55.-808'' @ zh_lparen @ ''+Inf'' @ '' '' @ zh_seconds"
  using humanDuration_overflow [of "GF_inf False"] by (simp add: gf_mul_def fmt_fixed_def)


end
