(* ===== verification/Jobs.thy ===== *)
theory Jobs
  imports Demo
begin

text \<open>
  The job store of the demo server (\<open>JobStore\<close> in \<open>src/example/demo/main.go\<close>)
  and the life of a job in it: \<open>POST /ffmpeg/start\<close> reads the form, creates the
  output file and stores a new job; the job goroutine writes \<open>Status\<close> and
  \<open>ErrText\<close> of the stored job (the same \<open>*FFJob\<close>), and when it returns its
  deferred function removes an uploaded input and arms a 30-minute
  \<open>time.AfterFunc\<close> that removes the output file and then deletes the job. Time
  is a virtual clock in seconds that a step advances, as the specification asks
  for eviction. The broadcasts of the goroutine are modelled in \<open>Hub\<close>; here they
  do not change the store.
\<close>

section \<open>The form of /ffmpeg/start\<close>

record start_form =
  sf_action :: string
  sf_outName :: string
  sf_crf :: int
  sf_preset :: string
  sf_abitrate :: string
  sf_atSec :: go_float

text \<open>\<open>atSec < 0\<close> on a float64: false for NaN.\<close>

definition go_float_neg :: "go_float \<Rightarrow> bool" where
  "go_float_neg f = (case f of GF_num r \<Rightarrow> r < 0 | GF_inf neg \<Rightarrow> neg | GF_nan \<Rightarrow> False)"

definition default_out_name :: "string \<Rightarrow> string" where
  "default_out_name action =
     (if action = ''extract_aac'' then ''out.aac''
      else if action = ''snapshot'' then ''shot.jpg''
      else if action = ''remux'' then ''out.mp4''
      else ''out.mp4'')"

definition read_start_form :: "form_request \<Rightarrow> start_form" where
  "read_start_form c =
     (let action = trim_space (PostForm c ''action'');
          outName = trim_space (PostForm c ''out_name'');
          preset = trim_space (PostForm c ''preset'');
          abitrate = trim_space (PostForm c ''abitrate'');
          atSec = parse_float_value (trim_space (PostForm c ''at''))
      in \<lparr>sf_action = action,
          sf_outName = (if outName = [] then default_out_name action else outName),
          sf_crf = parseInt (PostForm c ''crf'') 23,
          sf_preset = (if preset = [] then ''medium'' else preset),
          sf_abitrate = (if abitrate = [] then ''128k'' else abitrate),
          sf_atSec = (if go_float_neg atSec then GF_num 0 else atSec)\<rparr>)"

definition out_ext :: "string \<Rightarrow> string" where
  "out_ext outName = (let ext = path_ext outName in if ext = [] then ''.bin'' else ext)"

section \<open>The server state\<close>

text \<open>
  \<open>store\<close> is \<open>JobStore.jobs\<close>; \<open>scripts\<close> the job goroutines still running, each
  with the actions it has left (\<open>Hub.job_script\<close>); \<open>files\<close> the temporary files
  that exist; \<open>timers\<close> the armed \<open>AfterFunc\<close> callbacks with their deadline, the
  job's ID and output path; \<open>evicting\<close> the callbacks that have removed the file
  and not yet deleted the job; \<open>clock\<close> the virtual time in seconds. \<open>used_ids\<close>
  and \<open>finished_at\<close> are ghost state: the IDs \<open>newID\<close> has returned, and when each
  goroutine returned.
\<close>

record server =
  store :: "string \<rightharpoonup> ff_job"
  scripts :: "string \<rightharpoonup> wact list"
  files :: "string set"
  timers :: "(nat \<times> string \<times> string) list"
  evicting :: "string list"
  clock :: nat
  used_ids :: "string set"
  finished_at :: "string \<rightharpoonup> nat"

definition JobStore_Put :: "ff_job \<Rightarrow> server \<Rightarrow> server" where
  "JobStore_Put j s = s\<lparr>store := (store s)(ID j \<mapsto> j)\<rparr>"

definition JobStore_Get :: "server \<Rightarrow> string \<Rightarrow> ff_job option" where
  "JobStore_Get s jid = store s jid"

definition JobStore_Delete :: "string \<Rightarrow> server \<Rightarrow> server" where
  "JobStore_Delete jid s = s\<lparr>store := (store s)(jid := None)\<rparr>"

text \<open>\<open>30 * time.Minute\<close> in seconds.\<close>

definition evict_delay :: nat where "evict_delay = 1800"

text \<open>What a goroutine action does to the job it points to.\<close>

definition job_apply :: "wact \<Rightarrow> ff_job \<Rightarrow> ff_job" where
  "job_apply a j =
     (case a of
        Set_status st \<Rightarrow> j\<lparr>Status := st\<rparr>
      | Set_err e \<Rightarrow> j\<lparr>ErrText := e\<rparr>
      | Bcast _ \<Rightarrow> j)"

section \<open>POST /ffmpeg/start\<close>

text \<open>The file \<open>saveUploadedToTemp\<close> creates: it exists once \<open>os.CreateTemp\<close>
  succeeded, also when the copy then fails.\<close>

definition upload_created :: "input_env \<Rightarrow> form_request \<Rightarrow> string option" where
  "upload_created env c =
     (case FormFile c of
        Some fh \<Rightarrow>
          if 0 < up_Size fh \<and> ie_open_err env fh = None then
            (let ext = path_ext (up_Filename fh);
                 ext = (if ext = [] then ''.bin'' else ext)
             in case ie_create_temp env (''probe-*'' @ ext) of Inr tmp \<Rightarrow> Some tmp | Inl _ \<Rightarrow> None)
          else None
      | None \<Rightarrow> None)"

datatype start_reply = Start_bad input_error | Start_create_failed string | Start_ok string string

text \<open>
  The handler, given the environment of \<open>getInputFromRequest\<close> and
  \<open>os.CreateTemp\<close>, the encoders of the goroutine, what ffmpeg does with a command
  (the snapshots its sink receives and its error, see \<open>Hub.job_run\<close>), and the ID
  \<open>newID\<close> returns. The goroutine's actions are fixed here from that outcome and run
  as later steps; the page shows the job as created.
\<close>

definition ffmpeg_start ::
  "input_env \<Rightarrow> hub_codec \<Rightarrow> (ffmpeg_command \<Rightarrow> ffmpeg_progress list \<times> ff_error option)
   \<Rightarrow> string \<Rightarrow> form_request \<Rightarrow> server \<Rightarrow> server \<times> start_reply" where
  "ffmpeg_start env cd run jid c s =
     (let s1 = s\<lparr>files := files s \<union> set_option (upload_created env c)\<rparr>
      in case getInputFromRequest env c of
           Inl e \<Rightarrow> (s1, Start_bad e)
         | Inr (input, desc, cleanup) \<Rightarrow>
             (let f = read_start_form c
              in case ie_create_temp env (''ffout-*'' @ out_ext (sf_outName f)) of
                   Inl e \<Rightarrow> (s1\<lparr>files := files s1 - set_option cleanup\<rparr>, Start_create_failed e)
                 | Inr outp \<Rightarrow>
                     (let j = \<lparr>ID = jid, Status = ''created'', InputPath = input, InputDesc = desc,
                               InputCleanup = (cleanup \<noteq> None), OutputPath = outp,
                               OutputName = sf_outName f, ErrText = [], subs = None\<rparr>;
                          (ps, err) = run (job_command (sf_action f) j (sf_abitrate f) (sf_atSec f)
                                                       (sf_crf f) (sf_preset f));
                          s2 = JobStore_Put j (s1\<lparr>files := files s1 \<union> {outp}\<rparr>)
                      in (s2\<lparr>scripts := (scripts s2)(jid \<mapsto> job_script cd j ps err),
                             used_ids := insert jid (used_ids s2)\<rparr>,
                          Start_ok jid (Status j)))))"

text \<open>\<open>os.CreateTemp\<close> opens its files with \<open>O_EXCL\<close>: the names it returns do not
  exist yet.\<close>

definition start_fresh :: "input_env \<Rightarrow> form_request \<Rightarrow> server \<Rightarrow> bool" where
  "start_fresh env c s =
     (let up = upload_created env c;
          outp = ie_create_temp env (''ffout-*'' @ out_ext (sf_outName (read_start_form c)))
      in (\<forall>p\<in>set_option up. p \<notin> files s)
         \<and> (case outp of Inr p \<Rightarrow> p \<notin> files s \<and> up \<noteq> Some p | Inl _ \<Rightarrow> True))"

section \<open>The job goroutine and the eviction timer\<close>

text \<open>The deferred function of the goroutine: the uploaded input is removed, and
  the eviction callback is armed.\<close>

definition job_finish :: "string \<Rightarrow> ff_job \<Rightarrow> server \<Rightarrow> server" where
  "job_finish jid j s =
     s\<lparr>files := (if InputCleanup j then files s - {InputPath j} else files s),
       timers := timers s @ [(clock s + evict_delay, jid, OutputPath j)],
       scripts := (scripts s)(jid := None),
       finished_at := (finished_at s)(jid \<mapsto> clock s)\<rparr>"

text \<open>The callback \<open>os.Remove(job.OutputPath); jobs.Delete(job.ID)\<close>, as two steps
  since another goroutine can run between them.\<close>

definition evict_remove :: "string \<Rightarrow> string \<Rightarrow> server \<Rightarrow> server" where
  "evict_remove jid p s = s\<lparr>files := files s - {p}, evicting := evicting s @ [jid]\<rparr>"

inductive srv_step :: "server \<Rightarrow> server \<Rightarrow> bool" where
  start: "jid \<notin> used_ids s \<Longrightarrow> start_fresh env c s \<Longrightarrow> ffmpeg_start env cd run jid c s = (s', r) \<Longrightarrow>
     srv_step s s'"
| work: "scripts s jid = Some (a # w) \<Longrightarrow> store s jid = Some j \<Longrightarrow>
     srv_step s (s\<lparr>store := (store s)(jid \<mapsto> job_apply a j), scripts := (scripts s)(jid \<mapsto> w)\<rparr>)"
| finish: "scripts s jid = Some [] \<Longrightarrow> store s jid = Some j \<Longrightarrow> srv_step s (job_finish jid j s)"
| tick: "srv_step s (s\<lparr>clock := clock s + n\<rparr>)"
| fire: "timers s = pre @ (d, jid, p) # post \<Longrightarrow> d \<le> clock s \<Longrightarrow>
     srv_step s (evict_remove jid p (s\<lparr>timers := pre @ post\<rparr>))"
| delete: "evicting s = pre @ jid # post \<Longrightarrow>
     srv_step s (JobStore_Delete jid (s\<lparr>evicting := pre @ post\<rparr>))"

inductive srv_reach :: "server \<Rightarrow> server \<Rightarrow> bool" where
  refl: "srv_reach s s"
| step: "srv_reach s0 s \<Longrightarrow> srv_step s s' \<Longrightarrow> srv_reach s0 s'"

definition srv_init :: server where
  "srv_init = \<lparr>store = Map.empty, scripts = Map.empty, files = {}, timers = [], evicting = [],
               clock = 0, used_ids = {}, finished_at = Map.empty\<rparr>"

section \<open>Views and the invariant\<close>

text \<open>The output file of a stored job whose eviction has not started, and the
  uploaded input of a running job; the invariant is stated on these views.\<close>

definition lout :: "server \<Rightarrow> string \<Rightarrow> string option" where
  "lout s jid = (if jid \<in> set (evicting s) then None else map_option OutputPath (store s jid))"

definition lin :: "server \<Rightarrow> string \<Rightarrow> string option" where
  "lin s jid =
     (case (scripts s jid, store s jid) of
        (Some _, Some j) \<Rightarrow> if InputCleanup j then Some (InputPath j) else None
      | _ \<Rightarrow> None)"

definition inv_running :: "server \<Rightarrow> bool" where
  "inv_running s \<longleftrightarrow> (\<forall>jid. scripts s jid \<noteq> None \<longrightarrow> store s jid \<noteq> None \<and> finished_at s jid = None)"

definition inv_ids :: "server \<Rightarrow> bool" where
  "inv_ids s \<longleftrightarrow> (\<forall>jid. store s jid \<noteq> None \<longrightarrow> map_option ID (store s jid) = Some jid \<and> jid \<in> used_ids s)
                \<and> dom (finished_at s) \<subseteq> used_ids s"

definition inv_gone :: "server \<Rightarrow> bool" where
  "inv_gone s \<longleftrightarrow> (\<forall>jid. jid \<in> used_ids s \<longrightarrow> store s jid = None \<longrightarrow>
                      (\<exists>t. finished_at s jid = Some t \<and> t + evict_delay \<le> clock s))"

definition inv_timers :: "server \<Rightarrow> bool" where
  "inv_timers s \<longleftrightarrow>
     (\<forall>(d, jid, p) \<in> set (timers s). lout s jid = Some p
          \<and> (\<exists>t. finished_at s jid = Some t \<and> d = t + evict_delay))
     \<and> distinct (map (\<lambda>(d, jid, p). jid) (timers s))"

definition inv_evicting :: "server \<Rightarrow> bool" where
  "inv_evicting s \<longleftrightarrow>
     (\<forall>jid \<in> set (evicting s). jid \<in> used_ids s
        \<and> (\<exists>t. finished_at s jid = Some t \<and> t + evict_delay \<le> clock s))"

definition inv_outputs :: "server \<Rightarrow> bool" where
  "inv_outputs s \<longleftrightarrow>
     (\<forall>a p. lout s a = Some p \<longrightarrow> p \<in> files s \<and> (\<forall>b. lout s b = Some p \<longrightarrow> a = b))"

definition inv_inputs :: "server \<Rightarrow> bool" where
  "inv_inputs s \<longleftrightarrow>
     (\<forall>a p. lin s a = Some p \<longrightarrow> p \<in> files s \<and> (\<forall>b. lout s b \<noteq> Some p)
        \<and> (\<forall>b. lin s b = Some p \<longrightarrow> a = b))"

definition srv_inv :: "server \<Rightarrow> bool" where
  "srv_inv s \<longleftrightarrow> inv_running s \<and> inv_ids s \<and> inv_gone s \<and> inv_timers s \<and> inv_evicting s
                 \<and> inv_outputs s \<and> inv_inputs s"

text \<open>A file that exists and that no stored job will remove: neither the output of
  a job whose eviction has not started nor the upload of a running job.\<close>

definition orphan_file :: "server \<Rightarrow> string \<Rightarrow> bool" where
  "orphan_file s p \<longleftrightarrow> p \<in> files s \<and> (\<forall>b. lout s b \<noteq> Some p) \<and> (\<forall>b. lin s b \<noteq> Some p)"

section \<open>An executable scheduler\<close>

datatype smove =
    SM_start input_env hub_codec "ffmpeg_command \<Rightarrow> ffmpeg_progress list \<times> ff_error option" string form_request
  | SM_work string | SM_finish string | SM_tick nat | SM_fire nat | SM_delete nat

definition srv_move :: "smove \<Rightarrow> server \<Rightarrow> server option" where
  "srv_move m s =
     (case m of
        SM_start env cd run jid c \<Rightarrow>
          (if jid \<notin> used_ids s \<and> start_fresh env c s then Some (fst (ffmpeg_start env cd run jid c s)) else None)
      | SM_work jid \<Rightarrow>
          (case (scripts s jid, store s jid) of
             (Some (a # w), Some j) \<Rightarrow> Some (s\<lparr>store := (store s)(jid \<mapsto> job_apply a j), scripts := (scripts s)(jid \<mapsto> w)\<rparr>)
           | _ \<Rightarrow> None)
      | SM_finish jid \<Rightarrow>
          (case (scripts s jid, store s jid) of
             (Some [], Some j) \<Rightarrow> Some (job_finish jid j s)
           | _ \<Rightarrow> None)
      | SM_tick n \<Rightarrow> Some (s\<lparr>clock := clock s + n\<rparr>)
      | SM_fire i \<Rightarrow>
          (if i < length (timers s) then
             (case timers s ! i of (d, jid, p) \<Rightarrow>
                if d \<le> clock s then Some (evict_remove jid p (s\<lparr>timers := take i (timers s) @ drop (Suc i) (timers s)\<rparr>))
                else None)
           else None)
      | SM_delete i \<Rightarrow>
          (if i < length (evicting s) then
             Some (JobStore_Delete (evicting s ! i) (s\<lparr>evicting := take i (evicting s) @ drop (Suc i) (evicting s)\<rparr>))
           else None))"

fun srv_exec :: "smove list \<Rightarrow> server \<Rightarrow> server option" where
  "srv_exec [] s = Some s"
| "srv_exec (m # ms) s = (case srv_move m s of None \<Rightarrow> None | Some s' \<Rightarrow> srv_exec ms s')"

section \<open>The abstract lifecycle of a job\<close>

text \<open>
  What the store promises, per job ID: unused, running, finished at a time, and gone
  (evicted) only once the eviction delay has passed since it finished. The clock is
  shared. \<open>job_abs\<close> reads this view off a server state.
\<close>

datatype jphase = J_unused | J_running | J_finished nat | J_gone nat

record lifecycle =
  phase :: "string \<Rightarrow> jphase"
  lclock :: nat

inductive lc_step :: "lifecycle \<Rightarrow> lifecycle \<Rightarrow> bool" where
  lc_start: "phase a jid = J_unused \<Longrightarrow> lc_step a (a\<lparr>phase := (phase a)(jid := J_running)\<rparr>)"
| lc_finish: "phase a jid = J_running \<Longrightarrow> lc_step a (a\<lparr>phase := (phase a)(jid := J_finished (lclock a))\<rparr>)"
| lc_tick: "lc_step a (a\<lparr>lclock := lclock a + n\<rparr>)"
| lc_evict: "phase a jid = J_finished t \<Longrightarrow> t + evict_delay \<le> lclock a \<Longrightarrow>
     lc_step a (a\<lparr>phase := (phase a)(jid := J_gone t)\<rparr>)"

inductive lc_reach :: "lifecycle \<Rightarrow> lifecycle \<Rightarrow> bool" where
  refl: "lc_reach a a"
| step: "lc_reach a0 a \<Longrightarrow> lc_step a a' \<Longrightarrow> lc_reach a0 a'"

definition lc_init :: lifecycle where
  "lc_init = \<lparr>phase = (\<lambda>_. J_unused), lclock = 0\<rparr>"

definition job_abs :: "server \<Rightarrow> lifecycle" where
  "job_abs s =
     \<lparr>phase = (\<lambda>jid. if jid \<notin> used_ids s then J_unused
                     else (case finished_at s jid of
                             None \<Rightarrow> J_running
                           | Some t \<Rightarrow> if store s jid = None then J_gone t else J_finished t)),
      lclock = clock s\<rparr>"

section \<open>Fixtures\<close>

text \<open>An environment where \<open>os.CreateTemp\<close> names the file after its pattern and
  \<open>url.Parse\<close> accepts every URL as https; the same with a copy that fails; a
  remux request for a remote URL, a request with an upload, and an ffmpeg run that
  succeeds without progress.\<close>

definition jobs_env :: input_env where
  "jobs_env = \<lparr>ie_open_err = (\<lambda>_. None), ie_create_temp = (\<lambda>pat. Inr (''/tmp/'' @ pat)),
     ie_copy_err = (\<lambda>_. None), ie_parse_url = (\<lambda>u. Inr (''https'', ''example.com''))\<rparr>"

definition leak_env :: input_env where
  "leak_env = jobs_env\<lparr>ie_copy_err := (\<lambda>_. Some ''no space left on device'')\<rparr>"

definition url_form :: form_request where
  "url_form = \<lparr>PostForm = (\<lambda>k. if k = ''url'' then ''https://example.com/a.mp4''
                              else if k = ''action'' then ''remux'' else []), FormFile = None\<rparr>"

definition upload_form :: form_request where
  "upload_form = \<lparr>PostForm = (\<lambda>k. []), FormFile = Some \<lparr>up_Filename = ''clip.mov'', up_Size = 1024\<rparr>\<rparr>"

definition ok_run :: "ffmpeg_command \<Rightarrow> ffmpeg_progress list \<times> ff_error option" where
  "ok_run cmd = ([], None)"

text \<open>A snapshot request whose seek time is \<open>nan\<close>.\<close>

definition nan_form :: form_request where
  "nan_form = \<lparr>PostForm = (\<lambda>k. if k = ''url'' then ''https://example.com/a.mp4''
                              else if k = ''action'' then ''snapshot'' else if k = ''at'' then ''nan'' else []),
               FormFile = None\<rparr>"

text \<open>Job \<open>j1\<close> is started, runs its five actions, returns, 30 minutes pass and the
  eviction callback removes the output file.\<close>

abbreviation race_sched :: "smove list" where
  "race_sched \<equiv> [SM_start jobs_env demo_codec ok_run ''j1'' url_form, SM_work ''j1'', SM_work ''j1'',
                  SM_work ''j1'', SM_work ''j1'', SM_work ''j1'', SM_finish ''j1'', SM_tick 1800, SM_fire 0]"

text \<open>The state once \<open>j1\<close> has returned, and once it has been evicted.\<close>

abbreviation done_state :: server where
  "done_state \<equiv> the (srv_exec [SM_start jobs_env demo_codec ok_run ''j1'' url_form, SM_work ''j1'', SM_work ''j1'',
                  SM_work ''j1'', SM_work ''j1'', SM_work ''j1'', SM_finish ''j1''] srv_init)"

abbreviation race_state :: server where
  "race_state \<equiv> the (srv_exec race_sched srv_init)"

abbreviation evicted_state :: server where
  "evicted_state \<equiv> the (srv_exec (race_sched @ [SM_delete 0]) srv_init)"

section \<open>The invariant\<close>

lemma input_cleanup:
  "getInputFromRequest env c = Inr (input, desc, Some p) \<Longrightarrow> upload_created env c = Some p \<and> input = p"
  by (auto simp: getInputFromRequest_def url_input_def saveUploadedToTemp_def upload_created_def Let_def
           split: option.splits if_splits sum.splits prod.splits)

lemma job_apply_keeps [simp]:
  "ID (job_apply a j) = ID j" "OutputPath (job_apply a j) = OutputPath j"
  "InputPath (job_apply a j) = InputPath j" "InputCleanup (job_apply a j) = InputCleanup j"
  by (simp_all add: job_apply_def split: wact.split)

lemma lout_files [simp]: "lout (s\<lparr>files := F\<rparr>) = lout s"
  by (simp add: lout_def fun_eq_iff)

lemma lin_files [simp]: "lin (s\<lparr>files := F\<rparr>) = lin s"
  by (simp add: lin_def fun_eq_iff)

lemma srv_inv_files_mono:
  assumes "srv_inv s" "files s \<subseteq> F"
  shows "srv_inv (s\<lparr>files := F\<rparr>)"
proof -
  have "inv_outputs (s\<lparr>files := F\<rparr>)" "inv_inputs (s\<lparr>files := F\<rparr>)"
    using assms unfolding srv_inv_def inv_outputs_def inv_inputs_def by auto
  moreover have "inv_timers (s\<lparr>files := F\<rparr>) = inv_timers s" by (simp add: inv_timers_def)
  ultimately show ?thesis
    using assms(1) by (simp add: srv_inv_def inv_running_def inv_ids_def inv_gone_def inv_evicting_def)
qed

text \<open>The three outcomes of the handler.\<close>

lemma start_shapes:
  assumes "ffmpeg_start env cd run jid c s = (s', r)" "start_fresh env c s"
  shows "(\<exists>F. s' = s\<lparr>files := F\<rparr> \<and> files s \<subseteq> F)
       \<or> (\<exists>j w. s' = s\<lparr>files := files s \<union> set_option (upload_created env c) \<union> {OutputPath j},
                       store := (store s)(jid \<mapsto> j), scripts := (scripts s)(jid \<mapsto> w),
                       used_ids := insert jid (used_ids s)\<rparr>
              \<and> ID j = jid \<and> OutputPath j \<notin> files s \<and> upload_created env c \<noteq> Some (OutputPath j)
              \<and> (\<forall>p\<in>set_option (upload_created env c). p \<notin> files s)
              \<and> (InputCleanup j \<longrightarrow> upload_created env c = Some (InputPath j)))"
proof (cases "getInputFromRequest env c")
  case (Inl e)
  then show ?thesis using assms(1) by (auto simp: ffmpeg_start_def Let_def)
next
  case (Inr x)
  then obtain input desc cl where x: "getInputFromRequest env c = Inr (input, desc, cl)"
    by (cases x) auto
  show ?thesis
  proof (cases "ie_create_temp env (''ffout-*'' @ out_ext (sf_outName (read_start_form c)))")
    case (Inl e)
    have "files s \<subseteq> (files s \<union> set_option (upload_created env c)) - set_option cl"
      using assms(2) input_cleanup [of env c input desc] x
      by (cases cl) (auto simp: start_fresh_def Let_def)
    then show ?thesis using assms(1) x Inl by (auto simp: ffmpeg_start_def Let_def)
  next
    case (Inr outp)
    define f where "f = read_start_form c"
    define j where "j = \<lparr>ID = jid, Status = ''created'', InputPath = input, InputDesc = desc,
                          InputCleanup = (cl \<noteq> None), OutputPath = outp,
                          OutputName = sf_outName f, ErrText = [], subs = None\<rparr>"
    obtain ps err where run: "run (job_command (sf_action f) j (sf_abitrate f) (sf_atSec f) (sf_crf f) (sf_preset f))
                              = (ps, err)" by (cases "run (job_command (sf_action f) j (sf_abitrate f) (sf_atSec f) (sf_crf f) (sf_preset f))")
    have s': "s' = s\<lparr>files := files s \<union> set_option (upload_created env c) \<union> {OutputPath j},
                    store := (store s)(jid \<mapsto> j), scripts := (scripts s)(jid \<mapsto> job_script cd j ps err),
                    used_ids := insert jid (used_ids s)\<rparr>"
      using assms(1) x Inr run [unfolded j_def]
      by (simp add: ffmpeg_start_def JobStore_Put_def Let_def f_def [symmetric] j_def)
    have "ID j = jid \<and> OutputPath j \<notin> files s \<and> upload_created env c \<noteq> Some (OutputPath j)
          \<and> (\<forall>p\<in>set_option (upload_created env c). p \<notin> files s)
          \<and> (InputCleanup j \<longrightarrow> upload_created env c = Some (InputPath j))"
      using assms(2) x Inr input_cleanup [of env c input desc]
      by (auto simp: start_fresh_def Let_def j_def f_def)
    with s' show ?thesis by blast
  qed
qed

lemma views_start_ok:
  assumes "jid \<notin> set (evicting s)"
    and "s' = s\<lparr>files := F, store := (store s)(jid \<mapsto> j), scripts := (scripts s)(jid \<mapsto> w),
                 used_ids := U\<rparr>"
  shows "lout s' = (lout s)(jid \<mapsto> OutputPath j)"
    and "lin s' = (lin s)(jid := (if InputCleanup j then Some (InputPath j) else None))"
  using assms by (simp_all add: lout_def lin_def fun_eq_iff)

lemma views_work:
  assumes "scripts s jid = Some (a # w)" "store s jid = Some j"
  shows "lout (s\<lparr>store := (store s)(jid \<mapsto> job_apply a j), scripts := (scripts s)(jid \<mapsto> w)\<rparr>) = lout s"
    and "lin (s\<lparr>store := (store s)(jid \<mapsto> job_apply a j), scripts := (scripts s)(jid \<mapsto> w)\<rparr>) = lin s"
  using assms by (simp_all add: lout_def lin_def fun_eq_iff)

lemma views_finish:
  assumes "scripts s jid = Some []" "store s jid = Some j"
  shows "lout (job_finish jid j s) = lout s"
    and "lin (job_finish jid j s) = (lin s)(jid := None)"
    and "lin s jid = (if InputCleanup j then Some (InputPath j) else None)"
  using assms by (simp_all add: job_finish_def lout_def lin_def fun_eq_iff)

lemma views_fire:
  "lout (evict_remove jid p (s\<lparr>timers := ts\<rparr>)) = (lout s)(jid := None)"
  "lin (evict_remove jid p (s\<lparr>timers := ts\<rparr>)) = lin s"
  by (simp_all add: evict_remove_def lout_def lin_def fun_eq_iff)

lemma views_delete:
  assumes "scripts s jid = None" "evicting s = pre @ jid # post"
  shows "lout (JobStore_Delete jid (s\<lparr>evicting := pre @ post\<rparr>)) = lout s"
    and "lin (JobStore_Delete jid (s\<lparr>evicting := pre @ post\<rparr>)) = lin s"
proof -
  have "b \<noteq> jid \<Longrightarrow> b \<in> set (pre @ post) \<longleftrightarrow> b \<in> set (evicting s)" for b using assms(2) by auto
  then show "lout (JobStore_Delete jid (s\<lparr>evicting := pre @ post\<rparr>)) = lout s"
    using assms(2) by (auto simp: JobStore_Delete_def lout_def fun_eq_iff)
  show "lin (JobStore_Delete jid (s\<lparr>evicting := pre @ post\<rparr>)) = lin s"
    using assms(1) by (auto simp: JobStore_Delete_def lin_def fun_eq_iff split: option.split)
qed

lemma srv_inv_start_ok:
  assumes inv: "srv_inv s" and fresh: "jid \<notin> used_ids s"
    and s': "s' = s\<lparr>files := files s \<union> U \<union> {OutputPath j}, store := (store s)(jid \<mapsto> j),
                     scripts := (scripts s)(jid \<mapsto> w), used_ids := insert jid (used_ids s)\<rparr>"
    and j: "ID j = jid" "OutputPath j \<notin> files s" "OutputPath j \<notin> U" "\<forall>p\<in>U. p \<notin> files s"
           "InputCleanup j \<longrightarrow> InputPath j \<in> U"
  shows "srv_inv s'"
proof -
  have st: "store s jid = None" using inv fresh by (auto simp: srv_inv_def inv_ids_def)
  then have sc: "scripts s jid = None" using inv by (auto simp: srv_inv_def inv_running_def)
  have fa: "finished_at s jid = None" using inv fresh by (auto simp: srv_inv_def inv_ids_def)
  have ev: "jid \<notin> set (evicting s)" using inv fresh by (auto simp: srv_inv_def inv_evicting_def)
  have lo: "lout s' b = (if b = jid then Some (OutputPath j) else lout s b)" for b
    using views_start_ok(1) [OF ev s'] by simp
  have li: "lin s' b = (if b = jid then (if InputCleanup j then Some (InputPath j) else None) else lin s b)" for b
    using views_start_ok(2) [OF ev s'] by simp
  have lo0: "lout s jid = None" and li0: "lin s jid = None" using st by (simp_all add: lout_def lin_def split: option.split)
  have fs: "files s' = files s \<union> U \<union> {OutputPath j}" using s' by simp
  have l: "\<forall>a p. lout s a = Some p \<longrightarrow> p \<in> files s"
    using inv by (simp add: srv_inv_def inv_outputs_def)
  have i: "\<forall>a p. lin s a = Some p \<longrightarrow> p \<in> files s"
    using inv by (simp add: srv_inv_def inv_inputs_def)
  have "inv_running s'" using inv s' fa by (auto simp: srv_inv_def inv_running_def)
  moreover have "inv_ids s'" using inv s' j(1) by (auto simp: srv_inv_def inv_ids_def)
  moreover have "inv_gone s'" using inv s' by (auto simp: srv_inv_def inv_gone_def)
  moreover have "inv_timers s'"
  proof -
    have "\<forall>(d, b, p) \<in> set (timers s). b \<noteq> jid"
      using inv lo0 by (fastforce simp: srv_inv_def inv_timers_def)
    then show ?thesis using inv s' lo by (fastforce simp: srv_inv_def inv_timers_def)
  qed
  moreover have "inv_evicting s'" using inv s' by (auto simp: srv_inv_def inv_evicting_def)
  moreover have "inv_outputs s'"
    using inv j(2) l lo0 unfolding srv_inv_def inv_outputs_def lo fs by (auto split: if_splits)
  moreover have "inv_inputs s'"
    using inv j l i lo0 li0 unfolding srv_inv_def inv_inputs_def lo li fs by (auto split: if_splits)
  ultimately show ?thesis by (simp add: srv_inv_def)
qed

lemma srv_inv_work:
  assumes inv: "srv_inv s" and sc: "scripts s jid = Some (a # w)" and st: "store s jid = Some j"
  shows "srv_inv (s\<lparr>store := (store s)(jid \<mapsto> job_apply a j), scripts := (scripts s)(jid \<mapsto> w)\<rparr>)"
    (is "srv_inv ?s")
proof -
  note lo = views_work(1) [OF sc st] and li = views_work(2) [OF sc st]
  have "inv_running ?s" using inv sc by (auto simp: srv_inv_def inv_running_def)
  moreover have "inv_ids ?s" using inv st by (auto simp: srv_inv_def inv_ids_def)
  moreover have "inv_gone ?s" using inv by (auto simp: srv_inv_def inv_gone_def)
  moreover have "inv_timers ?s" using inv lo by (simp add: srv_inv_def inv_timers_def)
  moreover have "inv_evicting ?s" using inv by (simp add: srv_inv_def inv_evicting_def)
  moreover have "inv_outputs ?s" using inv lo by (simp add: srv_inv_def inv_outputs_def)
  moreover have "inv_inputs ?s" using inv lo li by (simp add: srv_inv_def inv_inputs_def)
  ultimately show ?thesis by (simp add: srv_inv_def)
qed

lemma running_not_evicting:
  "srv_inv s \<Longrightarrow> scripts s jid \<noteq> None \<Longrightarrow> jid \<notin> set (evicting s)"
  by (fastforce simp: srv_inv_def inv_running_def inv_evicting_def)

lemma srv_inv_finish:
  assumes inv: "srv_inv s" and sc: "scripts s jid = Some []" and st: "store s jid = Some j"
  shows "srv_inv (job_finish jid j s)" (is "srv_inv ?s")
proof -
  have ev: "jid \<notin> set (evicting s)" using running_not_evicting [OF inv] sc by simp
  have fa: "finished_at s jid = None" using inv sc by (auto simp: srv_inv_def inv_running_def)
  note lo = views_finish(1) [OF sc st] and lij = views_finish(3) [OF sc st]
  have lj: "lout s jid = Some (OutputPath j)" using ev st by (simp add: lout_def)
  have li: "lin ?s b = (if b = jid then None else lin s b)" for b using views_finish(2) [OF sc st] by simp
  have fs: "files ?s = (if InputCleanup j then files s - {InputPath j} else files s)"
    by (simp add: job_finish_def)
  have tm: "\<forall>(d, b, p) \<in> set (timers s). b \<noteq> jid"
    using inv fa by (fastforce simp: srv_inv_def inv_timers_def)
  have "inv_running ?s" using inv by (auto simp: srv_inv_def inv_running_def job_finish_def)
  moreover have "inv_ids ?s" using inv st by (auto simp: srv_inv_def inv_ids_def job_finish_def)
  moreover have "inv_gone ?s" using inv st by (auto simp: srv_inv_def inv_gone_def job_finish_def)
  moreover have "inv_timers ?s"
    using inv tm lj unfolding srv_inv_def inv_timers_def lo
    by (auto simp: job_finish_def)
  moreover have "inv_evicting ?s" using inv ev by (auto simp: srv_inv_def inv_evicting_def job_finish_def)
  moreover have "inv_outputs ?s"
    using inv lij unfolding srv_inv_def inv_outputs_def inv_inputs_def lo fs by (auto split: if_splits)
  moreover have "inv_inputs ?s"
    using inv lij unfolding srv_inv_def inv_inputs_def lo li fs by (auto split: if_splits)
  ultimately show ?thesis by (simp add: srv_inv_def)
qed

lemma srv_inv_tick:
  assumes inv: "srv_inv s" shows "srv_inv (s\<lparr>clock := clock s + n\<rparr>)" (is "srv_inv ?s")
proof -
  have lo: "lout ?s = lout s" and li: "lin ?s = lin s" by (simp_all add: lout_def lin_def fun_eq_iff)
  have "inv_gone ?s" using inv by (fastforce simp: srv_inv_def inv_gone_def)
  moreover have "inv_evicting ?s" using inv by (fastforce simp: srv_inv_def inv_evicting_def)
  ultimately show ?thesis
    using inv lo li by (simp add: srv_inv_def inv_running_def inv_ids_def inv_timers_def
                                  inv_outputs_def inv_inputs_def)
qed

lemma srv_inv_fire:
  assumes inv: "srv_inv s" and tm: "timers s = pre @ (d, jid, p) # post" and due: "d \<le> clock s"
  shows "srv_inv (evict_remove jid p (s\<lparr>timers := pre @ post\<rparr>))" (is "srv_inv ?s")
proof -
  have all: "\<forall>(d', b, q) \<in> set (timers s). lout s b = Some q
                 \<and> (\<exists>t. finished_at s b = Some t \<and> d' = t + evict_delay)"
    and ds0: "distinct (map (\<lambda>(d, jid, p). jid) (timers s))"
    using inv by (simp_all add: srv_inv_def inv_timers_def)
  have mem: "(d, jid, p) \<in> set (timers s)" using tm by simp
  have t: "lout s jid = Some p" "\<exists>t. finished_at s jid = Some t \<and> d = t + evict_delay"
    using bspec [OF all mem] by simp_all
  have sub: "set (pre @ post) \<subseteq> set (timers s)" using tm by auto
  have rest: "\<forall>(d', b, q) \<in> set (pre @ post). lout s b = Some q
                   \<and> (\<exists>t. finished_at s b = Some t \<and> d' = t + evict_delay)"
    using all sub by blast
  have ds: "distinct (map (\<lambda>(d, jid, p). jid) (pre @ post))"
    and ni: "jid \<notin> (\<lambda>(d, jid, p). jid) ` set (pre @ post)"
    using ds0 unfolding tm by (simp_all add: image_Un)
  have nj: "\<forall>(d', b, q) \<in> set (pre @ post). b \<noteq> jid"
  proof (clarify)
    fix d' q assume "(d', jid, q) \<in> set (pre @ post)"
    then have "jid \<in> (\<lambda>(d, jid, p). jid) ` set (pre @ post)" by (rule rev_image_eqI) simp
    with ni show False by blast
  qed
  have lo: "lout ?s b = (if b = jid then None else lout s b)" for b using views_fire(1) by simp
  note li = views_fire(2)
  have fs: "files ?s = files s - {p}" by (simp add: evict_remove_def)
  have su: "jid \<in> used_ids s"
    using inv t(1) by (auto simp: srv_inv_def inv_ids_def lout_def split: if_splits)
  have "inv_running ?s" using inv by (simp add: srv_inv_def inv_running_def evict_remove_def)
  moreover have "inv_ids ?s" using inv by (simp add: srv_inv_def inv_ids_def evict_remove_def)
  moreover have "inv_gone ?s" using inv by (simp add: srv_inv_def inv_gone_def evict_remove_def)
  moreover have "inv_timers ?s"
  proof -
    have "\<forall>(d', b, q) \<in> set (pre @ post). lout ?s b = Some q
             \<and> (\<exists>t. finished_at ?s b = Some t \<and> d' = t + evict_delay)"
    proof (clarify)
      fix d' b q assume m: "(d', b, q) \<in> set (pre @ post)"
      then have "b \<noteq> jid" using nj by blast
      then show "lout ?s b = Some q \<and> (\<exists>t. finished_at ?s b = Some t \<and> d' = t + evict_delay)"
        using bspec [OF rest m] lo [of b] by (simp add: evict_remove_def)
    qed
    then show ?thesis using ds by (simp add: inv_timers_def evict_remove_def)
  qed
  moreover have "inv_evicting ?s"
    using inv su t(2) due by (auto simp: srv_inv_def inv_evicting_def evict_remove_def)
  moreover have "inv_outputs ?s"
    using inv t(1) unfolding srv_inv_def inv_outputs_def lo fs by (auto split: if_splits)
  moreover have "inv_inputs ?s"
    using inv t(1) unfolding srv_inv_def inv_inputs_def lo li fs by (auto split: if_splits)
  ultimately show ?thesis by (simp add: srv_inv_def)
qed

lemma srv_inv_delete:
  assumes inv: "srv_inv s" and ev: "evicting s = pre @ jid # post"
  shows "srv_inv (JobStore_Delete jid (s\<lparr>evicting := pre @ post\<rparr>))" (is "srv_inv ?s")
proof -
  have ej: "jid \<in> set (evicting s)" using ev by simp
  have sc: "scripts s jid = None" using running_not_evicting [OF inv] ej by blast
  have se: "set (pre @ post) \<subseteq> set (evicting s)" using ev by auto
  note lo = views_delete(1) [OF sc ev] and li = views_delete(2) [OF sc ev]
  have "inv_running ?s" using inv sc by (simp add: srv_inv_def inv_running_def JobStore_Delete_def)
  moreover have "inv_ids ?s" using inv by (simp add: srv_inv_def inv_ids_def JobStore_Delete_def)
  moreover have "inv_gone ?s" using inv ej by (simp add: srv_inv_def inv_gone_def inv_evicting_def JobStore_Delete_def)
  moreover have "inv_timers ?s" using inv lo by (simp add: srv_inv_def inv_timers_def JobStore_Delete_def)
  moreover have "inv_evicting ?s" using inv se by (auto simp: srv_inv_def inv_evicting_def JobStore_Delete_def)
  moreover have "inv_outputs ?s" using inv lo by (simp add: srv_inv_def inv_outputs_def JobStore_Delete_def)
  moreover have "inv_inputs ?s" using inv lo li by (simp add: srv_inv_def inv_inputs_def JobStore_Delete_def)
  ultimately show ?thesis by (simp add: srv_inv_def)
qed

lemma srv_step_inv: "srv_step s s' \<Longrightarrow> srv_inv s \<Longrightarrow> srv_inv s'"
proof (induction rule: srv_step.induct)
  case (start jid s env c cd run s' r)
  from start_shapes [OF start(3,2)] show ?case
  proof
    assume "\<exists>F. s' = s\<lparr>files := F\<rparr> \<and> files s \<subseteq> F"
    then show ?thesis using srv_inv_files_mono [OF start(4)] by blast
  next
    assume "\<exists>j w. s' = s\<lparr>files := files s \<union> set_option (upload_created env c) \<union> {OutputPath j},
                       store := (store s)(jid \<mapsto> j), scripts := (scripts s)(jid \<mapsto> w),
                       used_ids := insert jid (used_ids s)\<rparr>
              \<and> ID j = jid \<and> OutputPath j \<notin> files s \<and> upload_created env c \<noteq> Some (OutputPath j)
              \<and> (\<forall>p\<in>set_option (upload_created env c). p \<notin> files s)
              \<and> (InputCleanup j \<longrightarrow> upload_created env c = Some (InputPath j))"
    then obtain j w where "s' = s\<lparr>files := files s \<union> set_option (upload_created env c) \<union> {OutputPath j},
                       store := (store s)(jid \<mapsto> j), scripts := (scripts s)(jid \<mapsto> w),
                       used_ids := insert jid (used_ids s)\<rparr>"
      and "ID j = jid" "OutputPath j \<notin> files s" "OutputPath j \<notin> set_option (upload_created env c)"
          "\<forall>p\<in>set_option (upload_created env c). p \<notin> files s"
          "InputCleanup j \<longrightarrow> InputPath j \<in> set_option (upload_created env c)"
      by (cases "upload_created env c") auto
    then show ?thesis using srv_inv_start_ok [OF start(4) start(1)] by blast
  qed
next
  case (work s jid a w j) show ?case by (rule srv_inv_work [OF work(3,1,2)])
next
  case (finish s jid j) show ?case by (rule srv_inv_finish [OF finish(3,1,2)])
next
  case (tick s n) show ?case by (rule srv_inv_tick [OF tick])
next
  case (fire s pre d jid p post) show ?case by (rule srv_inv_fire [OF fire(3,1,2)])
next
  case (delete s pre jid post) show ?case by (rule srv_inv_delete [OF delete(2,1)])
qed

lemma srv_init_inv: "srv_inv srv_init"
  by (simp add: srv_init_def srv_inv_def inv_running_def inv_ids_def inv_gone_def inv_timers_def
                inv_evicting_def inv_outputs_def inv_inputs_def lout_def lin_def)

lemma srv_reach_inv_from: "srv_reach s0 s \<Longrightarrow> srv_inv s0 \<Longrightarrow> srv_inv s"
  by (induction rule: srv_reach.induct) (auto intro: srv_step_inv)

lemma srv_reach_inv: "srv_reach srv_init s \<Longrightarrow> srv_inv s"
  using srv_reach_inv_from srv_init_inv by blast

text \<open>C35: In every reachable state of the server, a stored job whose eviction has not started has its output file on disk: the file is removed only by the job's own eviction callback, and no other job shares its path.\<close>

theorem jobs_output_exists:
  "srv_reach srv_init s \<Longrightarrow> store s jid = Some j \<Longrightarrow> jid \<notin> set (evicting s) \<Longrightarrow> OutputPath j \<in> files s"
proof -
  assume r: "srv_reach srv_init s" and st: "store s jid = Some j" and ev: "jid \<notin> set (evicting s)"
  then have "lout s jid = Some (OutputPath j)" by (simp add: lout_def)
  with srv_reach_inv [OF r] show ?thesis by (simp add: srv_inv_def inv_outputs_def)
qed

text \<open>C36: In every reachable state, a job that was started and is no longer in the store finished at a time t with t + 30 minutes not after the current clock: no job is deleted while running or before its eviction delay.\<close>

theorem jobs_evicted_after_delay:
  "srv_reach srv_init s \<Longrightarrow> jid \<in> used_ids s \<Longrightarrow> store s jid = None \<Longrightarrow>
   \<exists>t. finished_at s jid = Some t \<and> t + evict_delay \<le> clock s"
  using srv_reach_inv [of s] by (auto simp: srv_inv_def inv_gone_def)

lemma job_abs_files [simp]: "job_abs (s\<lparr>files := F\<rparr>) = job_abs s"
  by (auto simp: job_abs_def fun_eq_iff split: option.split)

lemma job_abs_sim:
  assumes "srv_step s s'" "srv_inv s"
  shows "lc_step (job_abs s) (job_abs s') \<or> job_abs s' = job_abs s"
  using assms
proof (induction rule: srv_step.induct)
  case (start jid s env c cd run s' r)
  from start_shapes [OF start(3,2)] show ?case
  proof
    assume "\<exists>F. s' = s\<lparr>files := F\<rparr> \<and> files s \<subseteq> F"
    then show ?thesis by auto
  next
    assume "\<exists>j w. s' = s\<lparr>files := files s \<union> set_option (upload_created env c) \<union> {OutputPath j},
                       store := (store s)(jid \<mapsto> j), scripts := (scripts s)(jid \<mapsto> w),
                       used_ids := insert jid (used_ids s)\<rparr>
              \<and> ID j = jid \<and> OutputPath j \<notin> files s \<and> upload_created env c \<noteq> Some (OutputPath j)
              \<and> (\<forall>p\<in>set_option (upload_created env c). p \<notin> files s)
              \<and> (InputCleanup j \<longrightarrow> upload_created env c = Some (InputPath j))"
    then obtain j w where s': "s' = s\<lparr>files := files s \<union> set_option (upload_created env c) \<union> {OutputPath j},
                       store := (store s)(jid \<mapsto> j), scripts := (scripts s)(jid \<mapsto> w),
                       used_ids := insert jid (used_ids s)\<rparr>" by blast
    have fa: "finished_at s jid = None" using start(1,4) by (auto simp: srv_inv_def inv_ids_def)
    have "job_abs s' = (job_abs s)\<lparr>phase := (phase (job_abs s))(jid := J_running)\<rparr>"
      using s' fa by (auto simp: job_abs_def fun_eq_iff split: option.split)
    moreover have "phase (job_abs s) jid = J_unused" using start(1) by (simp add: job_abs_def)
    ultimately show ?thesis by (auto intro: lc_step.lc_start)
  qed
next
  case (work s jid a w j)
  then show ?case by (auto simp: job_abs_def fun_eq_iff split: option.split)
next
  case (finish s jid j)
  have fa: "finished_at s jid = None" and u: "jid \<in> used_ids s"
    using finish by (auto simp: srv_inv_def inv_running_def inv_ids_def)
  have "job_abs (job_finish jid j s) = (job_abs s)\<lparr>phase := (phase (job_abs s))(jid := J_finished (lclock (job_abs s)))\<rparr>"
    using finish(2) u by (auto simp: job_abs_def job_finish_def fun_eq_iff split: option.split)
  moreover have "phase (job_abs s) jid = J_running" using fa u by (simp add: job_abs_def)
  ultimately show ?case by (auto intro: lc_step.lc_finish)
next
  case (tick s n)
  have "job_abs (s\<lparr>clock := clock s + n\<rparr>) = (job_abs s)\<lparr>lclock := lclock (job_abs s) + n\<rparr>"
    by (auto simp: job_abs_def fun_eq_iff split: option.split)
  then show ?case by (auto intro: lc_step.lc_tick)
next
  case (fire s pre d jid p post)
  then show ?case by (auto simp: job_abs_def evict_remove_def fun_eq_iff split: option.split)
next
  case (delete s pre jid post)
  obtain t where u: "jid \<in> used_ids s" and t: "finished_at s jid = Some t" "t + evict_delay \<le> clock s"
    using delete by (auto simp: srv_inv_def inv_evicting_def)
  show ?case
  proof (cases "store s jid")
    case None
    then show ?thesis by (auto simp: job_abs_def JobStore_Delete_def fun_eq_iff split: option.split)
  next
    case (Some j)
    have "job_abs (JobStore_Delete jid (s\<lparr>evicting := pre @ post\<rparr>))
            = (job_abs s)\<lparr>phase := (phase (job_abs s))(jid := J_gone t)\<rparr>"
      using t u by (auto simp: job_abs_def JobStore_Delete_def fun_eq_iff split: option.split)
    moreover have "phase (job_abs s) jid = J_finished t" using u t Some by (simp add: job_abs_def)
    moreover have "t + evict_delay \<le> lclock (job_abs s)" using t(2) by (simp add: job_abs_def)
    ultimately show ?thesis using lc_step.lc_evict by metis
  qed
qed

lemma lc_reach_stutter: "lc_reach a0 a \<Longrightarrow> (lc_step a a' \<or> a' = a) \<Longrightarrow> lc_reach a0 a'"
  by (auto intro: lc_reach.step)

lemma jobs_refine_from:
  "srv_reach s0 s \<Longrightarrow> s0 = srv_init \<Longrightarrow> lc_reach lc_init (job_abs s)"
proof (induction rule: srv_reach.induct)
  case (refl s)
  have "job_abs srv_init = lc_init" by (simp add: job_abs_def srv_init_def lc_init_def)
  then show ?case using refl by (simp add: lc_reach.refl)
next
  case (step s0 s s')
  then show ?case
    using job_abs_sim [OF step(2) srv_reach_inv] lc_reach_stutter by blast
qed

text \<open>C37: The server refines the abstract job lifecycle: in every reachable state, the phases read off the store (unused, running, finished, gone) and the clock form a reachable state of the lifecycle, in which a job is gone only after its eviction delay.\<close>

theorem jobs_refine_lifecycle: "srv_reach srv_init s \<Longrightarrow> lc_reach lc_init (job_abs s)"
  using jobs_refine_from by blast

lemma lc_reach_gone:
  "lc_reach a0 a \<Longrightarrow> a0 = lc_init \<Longrightarrow> phase a jid = J_gone t \<Longrightarrow> t + evict_delay \<le> lclock a"
proof (induction arbitrary: t rule: lc_reach.induct)
  case (refl a) then show ?case by (simp add: lc_init_def)
next
  case (step a0 a a')
  from step(2) step show ?case
    by (induction rule: lc_step.induct) (auto split: if_splits)
qed

lemma srv_move_step:
  assumes mv: "srv_move m s = Some s'" shows "srv_step s s'"
proof (cases m)
  case (SM_start env cd run jid c)
  then have "jid \<notin> used_ids s" "start_fresh env c s" "s' = fst (ffmpeg_start env cd run jid c s)"
    using mv by (auto simp: srv_move_def split: if_splits)
  then show ?thesis
    using srv_step.start [of jid s env c cd run s' "snd (ffmpeg_start env cd run jid c s)"] by simp
next
  case (SM_work jid)
  then show ?thesis using mv
    by (auto simp: srv_move_def split: option.splits list.splits intro: srv_step.work)
next
  case (SM_finish jid)
  then show ?thesis using mv
    by (auto simp: srv_move_def split: option.splits list.splits intro: srv_step.finish)
next
  case (SM_tick n)
  then show ?thesis using mv by (auto simp: srv_move_def intro: srv_step.tick)
next
  case (SM_fire i)
  then obtain d jid p where i: "i < length (timers s)" "timers s ! i = (d, jid, p)" "d \<le> clock s"
    and s': "s' = evict_remove jid p (s\<lparr>timers := take i (timers s) @ drop (Suc i) (timers s)\<rparr>)"
    using mv by (auto simp: srv_move_def split: if_splits prod.splits)
  have "timers s = take i (timers s) @ (d, jid, p) # drop (Suc i) (timers s)"
    using i id_take_nth_drop by metis
  then show ?thesis using s' i(3) by (auto intro: srv_step.fire)
next
  case (SM_delete i)
  then have i: "i < length (evicting s)"
    and s': "s' = JobStore_Delete (evicting s ! i) (s\<lparr>evicting := take i (evicting s) @ drop (Suc i) (evicting s)\<rparr>)"
    using mv by (auto simp: srv_move_def split: if_splits)
  have "evicting s = take i (evicting s) @ evicting s ! i # drop (Suc i) (evicting s)"
    using i id_take_nth_drop by metis
  then show ?thesis using s' by (auto intro: srv_step.delete)
qed

lemma srv_reach_trans: "srv_reach s1 s2 \<Longrightarrow> srv_reach s0 s1 \<Longrightarrow> srv_reach s0 s2"
  by (induction rule: srv_reach.induct) (auto intro: srv_reach.step)

lemma srv_exec_reach: "srv_exec ms s = Some s' \<Longrightarrow> srv_reach s s'"
proof (induction ms arbitrary: s)
  case Nil then show ?case by (simp add: srv_reach.refl)
next
  case (Cons m ms)
  then obtain s1 where m: "srv_move m s = Some s1" and r: "srv_exec ms s1 = Some s'"
    by (auto split: option.splits)
  have "srv_reach s s1" by (rule srv_reach.step [OF srv_reach.refl srv_move_step [OF m]])
  with Cons.IH [OF r] show ?case by (rule srv_reach_trans)
qed

section \<open>Files that are never removed\<close>

lemma orphan_step:
  assumes "srv_step s s'" "srv_inv s" "orphan_file s p"
  shows "orphan_file s' p"
  using assms
proof (induction rule: srv_step.induct)
  case (start jid s env c cd run s' r)
  from start_shapes [OF start(3,2)] show ?case
  proof
    assume "\<exists>F. s' = s\<lparr>files := F\<rparr> \<and> files s \<subseteq> F"
    then show ?thesis using start(5) by (auto simp: orphan_file_def)
  next
    assume "\<exists>j w. s' = s\<lparr>files := files s \<union> set_option (upload_created env c) \<union> {OutputPath j},
                       store := (store s)(jid \<mapsto> j), scripts := (scripts s)(jid \<mapsto> w),
                       used_ids := insert jid (used_ids s)\<rparr>
              \<and> ID j = jid \<and> OutputPath j \<notin> files s \<and> upload_created env c \<noteq> Some (OutputPath j)
              \<and> (\<forall>p\<in>set_option (upload_created env c). p \<notin> files s)
              \<and> (InputCleanup j \<longrightarrow> upload_created env c = Some (InputPath j))"
    then obtain j w where s': "s' = s\<lparr>files := files s \<union> set_option (upload_created env c) \<union> {OutputPath j},
                       store := (store s)(jid \<mapsto> j), scripts := (scripts s)(jid \<mapsto> w),
                       used_ids := insert jid (used_ids s)\<rparr>"
      and j: "OutputPath j \<notin> files s" "\<forall>p\<in>set_option (upload_created env c). p \<notin> files s"
             "InputCleanup j \<longrightarrow> upload_created env c = Some (InputPath j)"
      by blast
    have ev: "jid \<notin> set (evicting s)" using start(1,4) by (auto simp: srv_inv_def inv_evicting_def)
    have "InputCleanup j \<Longrightarrow> InputPath j \<noteq> p" using j(2,3) start(5) by (auto simp: orphan_file_def)
    moreover have "OutputPath j \<noteq> p" using j(1) start(5) by (auto simp: orphan_file_def)
    ultimately show ?thesis
      using start(5) s' views_start_ok [OF ev s'] by (auto simp: orphan_file_def)
  qed
next
  case (work s jid a w j)
  then show ?case using views_work [OF work(1,2)] by (simp add: orphan_file_def)
next
  case (finish s jid j)
  have "InputCleanup j \<Longrightarrow> InputPath j \<noteq> p"
    using finish(4) views_finish(3) [OF finish(1,2)] by (auto simp: orphan_file_def)
  then show ?case
    using finish(4) views_finish [OF finish(1,2)] by (auto simp: orphan_file_def job_finish_def)
next
  case (tick s n)
  have "lout (s\<lparr>clock := clock s + n\<rparr>) = lout s" "lin (s\<lparr>clock := clock s + n\<rparr>) = lin s"
    by (simp_all add: lout_def lin_def fun_eq_iff)
  then show ?case using tick(2) by (simp add: orphan_file_def)
next
  case (fire s pre d jid q post)
  have "(d, jid, q) \<in> set (timers s)" using fire(1) by simp
  then have "lout s jid = Some q" using fire(3) by (auto simp: srv_inv_def inv_timers_def)
  then have "q \<noteq> p" using fire(4) by (auto simp: orphan_file_def)
  then show ?case using fire(4) views_fire by (auto simp: orphan_file_def evict_remove_def)
next
  case (delete s pre jid post)
  have "scripts s jid = None" using running_not_evicting [OF delete(2), of jid] delete(1) by fastforce
  then show ?case using delete(3) views_delete [OF _ delete(1)] by (simp add: orphan_file_def JobStore_Delete_def)
qed

lemma orphan_reach: "srv_reach s0 s \<Longrightarrow> srv_inv s0 \<Longrightarrow> orphan_file s0 p \<Longrightarrow> orphan_file s p"
  by (induction rule: srv_reach.induct) (auto intro: orphan_step srv_reach_inv_from)

text \<open>C39: When io.Copy fails in saveUploadedToTemp, the temporary file it created stays on disk in every later state: getInputFromRequest returns no cleanup and no step of the server removes it.\<close>

theorem upload_copy_failure_leaks:
  assumes "srv_reach srv_init s" "start_fresh env c s" "getInputFromRequest env c = Inl (E_save e)"
    "upload_created env c = Some p" "ffmpeg_start env cd run jid c s = (s1, r)" "srv_reach s1 s'"
  shows "p \<in> files s'"
proof -
  have inv: "srv_inv s" using srv_reach_inv [OF assms(1)] .
  have s1: "s1 = s\<lparr>files := files s \<union> {p}\<rparr>" using assms(3-5) by (simp add: ffmpeg_start_def Let_def)
  have fr: "p \<notin> files s" using assms(2,4) by (simp add: start_fresh_def Let_def)
  have "\<forall>b. lout s b \<noteq> Some p" "\<forall>b. lin s b \<noteq> Some p"
    using inv fr by (auto simp: srv_inv_def inv_outputs_def inv_inputs_def)
  then have "orphan_file s1 p" using s1 by (simp add: orphan_file_def)
  moreover have "srv_inv s1" using srv_inv_files_mono [OF inv] s1 by auto
  ultimately show ?thesis using orphan_reach [OF assms(6)] by (simp add: orphan_file_def)
qed

section \<open>Concrete runs\<close>

lemmas jobs_run_simps = srv_move_def ffmpeg_start_def start_fresh_def jobs_env_def url_form_def ok_run_def
  srv_init_def getInputFromRequest_def url_input_def validateRemoteURL_def read_start_form_def
  upload_created_def out_ext_def path_ext_def default_out_name_def JobStore_Put_def job_script_def
  job_apply_def job_finish_def evict_remove_def evict_delay_def JobStore_Delete_def
  trim_space_def is_space_def to_lower_def ascii_lower_def parseInt_def Let_def

lemma srv_exec_the_reach: "srv_exec ms s \<noteq> None \<Longrightarrow> srv_reach s (the (srv_exec ms s))"
  by (rule srv_exec_reach) simp

lemma done_state_reach: "srv_reach srv_init done_state"
  by (rule srv_exec_the_reach) (simp add: jobs_run_simps)

lemma race_state_reach: "srv_reach srv_init race_state"
  by (rule srv_exec_the_reach) (simp add: jobs_run_simps)

lemma evicted_state_reach: "srv_reach srv_init evicted_state"
  by (rule srv_exec_the_reach) (simp add: jobs_run_simps)

text \<open>C38: The eviction callback removes the output file before it deletes the job, so there is a reachable state in which the download handler serves a job whose output file no longer exists.\<close>

theorem download_after_remove:
  "\<exists>s h p. srv_reach srv_init s \<and> download (JobStore_Get s) ''j1'' = R_file h p \<and> p \<notin> files s"
proof -
  have "download (JobStore_Get race_state) ''j1''
          = R_file (''attachment; filename='' @ [dq] @ ''out.mp4'' @ [dq]) ''/tmp/ffout-*.mp4''
        \<and> ''/tmp/ffout-*.mp4'' \<notin> files race_state"
    by (simp add: jobs_run_simps download_def JobStore_Get_def sanitizeFilename_def replace_all_def
                  dq_def nl_def cr_def)
  then show ?thesis using race_state_reach by blast
qed

lemma jobs_output_exists_witness:
  "store done_state ''j1'' = Some (the (store done_state ''j1'')) \<and> ''j1'' \<notin> set (evicting done_state)
   \<and> OutputPath (the (store done_state ''j1'')) = ''/tmp/ffout-*.mp4''
   \<and> ''/tmp/ffout-*.mp4'' \<in> files done_state"
proof -
  have st: "store done_state ''j1'' = Some (the (store done_state ''j1''))"
    and ev: "''j1'' \<notin> set (evicting done_state)"
    and op: "OutputPath (the (store done_state ''j1'')) = ''/tmp/ffout-*.mp4''"
    by (simp_all add: jobs_run_simps)
  show ?thesis using jobs_output_exists [OF done_state_reach st ev] st ev op by simp
qed

lemma jobs_evicted_after_delay_witness:
  "''j1'' \<in> used_ids evicted_state \<and> store evicted_state ''j1'' = None
   \<and> finished_at evicted_state ''j1'' = Some 0 \<and> 0 + evict_delay \<le> clock evicted_state"
proof -
  have u: "''j1'' \<in> used_ids evicted_state" and n: "store evicted_state ''j1'' = None"
    and f: "finished_at evicted_state ''j1'' = Some 0"
    by (simp_all add: jobs_run_simps)
  show ?thesis using jobs_evicted_after_delay [OF evicted_state_reach u n] u n f by auto
qed

lemma jobs_refine_lifecycle_witness:
  "lc_reach lc_init (job_abs evicted_state) \<and> phase (job_abs evicted_state) ''j1'' = J_gone 0"
proof -
  have "phase (job_abs evicted_state) ''j1'' = J_gone 0" by (simp add: jobs_run_simps job_abs_def)
  then show ?thesis using jobs_refine_lifecycle [OF evicted_state_reach] by simp
qed

lemma upload_copy_failure_leaks_witness:
  "snd (ffmpeg_start leak_env demo_codec ok_run ''j2'' upload_form srv_init)
     = Start_bad (E_save ''no space left on device'')
   \<and> ''/tmp/probe-*.mov'' \<in> files (fst (ffmpeg_start leak_env demo_codec ok_run ''j2'' upload_form srv_init))"
proof -
  let ?r = "ffmpeg_start leak_env demo_codec ok_run ''j2'' upload_form srv_init"
  have f: "start_fresh leak_env upload_form srv_init"
    and g: "getInputFromRequest leak_env upload_form = Inl (E_save ''no space left on device'')"
    and u: "upload_created leak_env upload_form = Some ''/tmp/probe-*.mov''"
    and b: "snd ?r = Start_bad (E_save ''no space left on device'')"
    by (simp_all add: jobs_run_simps leak_env_def upload_form_def saveUploadedToTemp_def)
  have "''/tmp/probe-*.mov'' \<in> files (fst ?r)"
    using upload_copy_failure_leaks [OF srv_reach.refl f g u prod.collapse [symmetric] srv_reach.refl] .
  with b show ?thesis by simp
qed

text \<open>A seek time of \<open>nan\<close> is not negative, so the handler keeps it and the
  snapshot command asks ffmpeg to seek to \<open>NaN\<close>.\<close>

lemma start_nan_seek:
  "sf_atSec (read_start_form nan_form) = GF_nan
   \<and> Args (job_command (sf_action (read_start_form nan_form)) j ''128k'' (sf_atSec (read_start_form nan_form))
                         23 ''medium'')
       = [''-y'', ''-hide_banner'', ''-v'', ''error'', ''-ss'', ''NaN'', ''-i'', InputPath j,
          ''-frames:v'', ''1'', OutputPath j]"
  by (simp add: read_start_form_def nan_form_def trim_space_def is_space_def parse_float_value_def
        parse_float64_def special_def special_inf_def go_float_neg_def Let_def job_command_def
        PresetSnapshot_def builder_defs fmt_fixed_def ascii_lower_def)

end
