(* ===== verification/JobId.thy ===== *)
theory JobId
  imports Prelude "HOL-Library.Word"
begin

text \<open>
  \<open>newID\<close> of the demo (\<open>src/example/demo/main.go\<close>): sixteen bytes from
  \<open>crypto/rand\<close>, written as lower-case hexadecimal by \<open>hex.EncodeToString\<close>. The
  bytes \<open>rand.Read\<close> leaves in the buffer are the input (its error is dropped, so on
  a failure they are whatever it wrote over the zeroed buffer). \<open>hex_decode\<close> is
  \<open>hex.DecodeString\<close>, used to show that the encoding loses nothing.
\<close>

unbundle bit_operations_syntax











end
