(* ===== verification/Spec2Isabelle.thy ===== *)
theory Spec2Isabelle
  imports Progress Tool Run Command Hub Probe Demo DemoView Jobs JobId
begin

text \<open>
  \<^bold>\<open>A verification development of LingConvert's process-orchestration core.\<close>

  \<^bold>\<open>The program.\<close> LingConvert wraps the external binaries ffmpeg and ffprobe.
  Its core builds argument lists (\<open>FFmpegCommand\<close> in \<open>src/unnamed/part_001\<close>, the
  presets in \<open>src/media/ffmpeg/preset.go\<close>), checks once per tool instance that the
  binary exists and runs (\<open>ensureReady\<close>, the second file of \<open>src/unnamed/part_000\<close>
  for ffmpeg, \<open>src/media/ffprobe/media.go\<close> for ffprobe), runs a process while two
  goroutines drain its output pipes (\<open>RunWithProgress\<close>, \<open>src/media/ffmpeg/run.go\<close>),
  and decodes ffmpeg's \<open>key=value\<close> progress lines into snapshots handed to a sink
  (\<open>scanProgress\<close>, \<open>parseProgressLine\<close>, \<open>applyKV\<close>, first file of \<open>part_000\<close>).
  The web demo (\<open>src/example/demo/main.go\<close>) keeps jobs in a store, runs each on its
  own goroutine, which broadcasts status, progress and terminal events to the SSE
  handlers subscribed to it over 16-slot channels (\<open>FFJob\<close>, \<open>broadcast\<close>).
  \<open>src/unnamed/part_003\<close> is the demo's earlier probe-only page and \<open>part_002\<close> a
  command-line example of \<open>Probe\<close>.

  \<^bold>\<open>The library.\<close>
  \<^item> \<open>Prelude\<close>: the named theorem collections and generic list lemmas.
  \<^item> \<open>GoLib\<close>: the Go library functions the code relies on, on byte strings:
    \<open>strings\<close> (TrimSpace, IndexByte, Split, Fields, ToLower, TrimRight),
    \<open>strconv\<close> (Atoi/ParseInt as \<open>parse_int64\<close> with the int64 range and
    \<open>parse_int64_value\<close>, the clamped value ParseInt returns beside an error, Itoa,
    ParseFloat as \<open>parse_float64\<close> with its full syntax and exact values, and the value
    it returns beside an error), \<open>fmt\<close>'s \<open>%.Nf\<close> (\<open>fmt_fixed\<close>, round half to
    even), \<open>filepath.Ext\<close>, \<open>bufio.Scanner\<close> with its 64 KiB token limit and the
    stderr that \<open>Cmd.Output\<close> keeps (first and last 32 KiB). They are not code of the
    repository; their lemmas (\<open>Atoi (Itoa i) = i\<close>, trimming, digit counts) carry the
    component proofs.
  \<^item> \<open>Progress\<close>: \<open>FFmpegProgress\<close> as the record \<open>ffmpeg_progress\<close>; its
    \<open>Extra\<close> map is a reference into an explicit store of maps, because Go copies of
    the struct share it. \<open>applyKV\<close>, \<open>parseProgressLine\<close> and the loop
    \<open>scan_loop\<close>/\<open>scanProgress\<close>, whose sink is a function of a caller state. Lemmas:
    the wire format decodes to its key and value, malformed values and lines are
    dropped, unknown keys land in Extra, the state invariant \<open>progress_wf\<close> is kept,
    the loop stops at \<open>progress=end\<close> and delivers exactly the decoder states in order.
  \<^item> \<open>Tool\<close>: \<open>FFmpegTool\<close> as \<open>ffmpeg_tool\<close>; \<open>ensureReady\<close> and \<open>Version\<close>
    with the outside world (\<open>exec.LookPath\<close>, the \<open>-version\<close> run) as an input
    record; the error type \<open>ff_error\<close> with one constructor per error message. Lemmas:
    the outcome is cached and replayed, the version is never empty. An inductive step
    relation \<open>once_step\<close> models concurrent first callers (the mutex is released
    while the check runs) and shows by explicit runs that two checks can happen and
    that the cached outcome can be overwritten after \<open>checked\<close> is set.
  \<^item> \<open>Run\<close>: \<open>RunWithProgress\<close> and \<open>Run\<close>. The process is an input
    (\<open>proc_run\<close>: what it writes, how it exits by itself or when killed, and how the
    races of the code fall). The drains and the wait are joined before the function
    returns, so they run in sequence in the model. Lemmas: the sink receives exactly
    the decoded snapshots; the outcome priority (deadline before exit status); an
    abort by the sink is reported as a failure, or as success when the process exits
    first; \<open>Wait\<close> closing stdout before it is drained loses \<open>progress=end\<close>.
  \<^item> \<open>Command\<close>: \<open>FFmpegCommand\<close> and its fluent methods as functions on the
    argument list, \<open>trimFloat\<close> and the four presets. Lemmas: every method keeps
    the specification's invariant \<open>wf_args\<close> (each flag that takes a value is
    followed by it), the presets are well formed and pass the effective CRF, and
    \<open>Overwrite(false)\<close> also deletes a \<open>-y\<close> that is a flag's value.
  \<^item> \<open>Hub\<close>: the job of the demo. Channels live in a store with their buffers and
    closed flags; \<open>subscribe\<close>, \<open>unsubscribe\<close> and the non-blocking
    \<open>broadcast\<close> work on it. The job goroutine is the list of its actions
    (\<open>job_script\<close>, computed from the run), the SSE handlers a family of clients
    indexed by number, and \<open>hub_step\<close> interleaves them one action at a time; the
    auxiliary log \<open>sent\<close> records every broadcast. The invariant \<open>hub_inv\<close>
    (registered channels are open, buffers hold at most 16 events, each handler owns
    its channel, and its output is the status it read followed by a subsequence of
    the log) holds in every reachable state. Lemmas: no send on or close of a closed
    channel, the 16-event bound, each handler sees the broadcasts in order, a
    terminal event is always a handler's last. The deterministic scheduler
    \<open>hub_exec\<close>, sound for \<open>hub_step\<close>, runs two concrete interleavings: a handler
    writes \<open>status=done\<close> before a stale \<open>status=running\<close>, and a handler whose
    buffer is full misses \<open>done\<close> and then waits forever.
  \<^item> \<open>Probe\<close>: the ffprobe \<open>Tool\<close>, its JSON document types, \<open>ensureReady\<close>,
    \<open>Version\<close>, \<open>Probe\<close>, \<open>ProbeSafe\<close>, the stream selectors and the extra
    probes of \<open>part_004\<close>, with \<open>json.Unmarshal\<close> and the processes as inputs.
    Lemmas: a probe killed by its deadline is reported as failed, not timed out; the
    failure text is bounded; the \<open>-version\<close> check runs under at most 5 seconds;
    \<open>ProbeSafe\<close> keeps the cached version when the probe fails.
  \<^item> \<open>Demo\<close>: the demo's helpers (\<open>main.go\<close>; \<open>part_003\<close> has the same ones).
    \<open>writeSSE\<close> and \<open>sse_render\<close>, the bytes the events handler writes for the events
    of a \<open>Hub\<close> client; the \<open>/ffmpeg/download/:id\<close> handler over a job lookup, with
    \<open>sanitizeFilename\<close>; \<open>getInputFromRequest\<close> (upload first, then the \<open>url\<close>
    field) with \<open>saveUploadedToTemp\<close> and \<open>validateRemoteURL\<close>, where the file
    system and \<open>url.Parse\<close> are the input record \<open>input_env\<close>; \<open>readOptions\<close>,
    \<open>parseInt\<close>, \<open>parseInt64\<close>, \<open>appendErr\<close>, \<open>chooseNonEmpty\<close>; the frame and
    packet filters, limits and summaries, and the frames pipeline of the probe page.
    The Chinese texts are kept as their UTF-8 bytes. Lemmas: the SSE stream reads
    back frame by frame with each payload on one data line (the escaping cannot be
    undone: a literal backslash-n and a newline are written alike); a download serves
    only a finished job, under a header without CR, LF or extra quotes; a remote input
    has an http(s) scheme and a host; \<open>parseInt\<close> reads back \<open>Itoa\<close>; the kept
    frames are a bounded subsequence, key frames only when asked.
  \<^item> \<open>GoFloat\<close>: float64 as Go computes it, on \<open>GoLib.go_float\<close>: division,
    subtraction, multiplication and comparison with Go's NaN and infinity rules, every
    finite result rounded to binary64 (\<open>round_f64\<close>: 53 significant bits, subnormal
    units of \<open>2^-1074\<close>, ties to even; the IEEE specification of rounding as the
    closest representable value), \<open>int64(x)\<close> as amd64's \<open>CVTTSD2SI\<close> (out of
    range and NaN give \<open>-2^63\<close>), Go's truncating \<open>/\<close> and \<open>%\<close>, \<open>%0Nd\<close> and
    \<open>%.Ng\<close> (\<open>fmt_g\<close>, strconv's shortest-digit rounding then \<open>%e\<close> or \<open>%f\<close>).
    Lemmas: \<open>bin_exp\<close> brackets its argument between two powers of two; a
    rounded value is an integer significand times the unit \<open>2^u\<close> and lies within
    half a unit of the exact result; every finite result of an operation is a binary64
    number (significand below \<open>2^53\<close>, exponent in \<open>[-1074, 971]\<close>); integers below
    \<open>2^53\<close> are exact; rounding keeps the sign.
  \<^item> \<open>DemoView\<close>: the view helpers of \<open>main.go\<close> (\<open>part_003\<close> has the same
    code): \<open>fracToFloat\<close>, \<open>almostEqual\<close>, \<open>fpsLabel\<close>, \<open>parseFloat\<close> (ParseFloat's
    value rounded by \<open>round_f64\<close>), \<open>buildProbeView\<close> with the records of the page,
    and the template functions \<open>humanBitrate\<close>, \<open>humanSize\<close>, \<open>humanDuration\<close>. The
    \<open>POST /probe\<close> handler is \<open>probe_page\<close>: the input, the base \<open>Probe\<close>,
    \<open>Version\<close>, then the four advanced sections (\<open>page_frames\<close> ... \<open>page_programs\<close>),
    each threading the ffprobe tool's state; \<open>Error()\<close> and \<open>json\<close> are the input
    record \<open>page_codec\<close>. Lemmas: every finite frame rate \<open>fracToFloat\<close> computes is a
    binary64 number; readiness is checked at most once per request; the
    status is 400, 500 or 200 by the input and the base probe alone, and the upload is
    always cleaned up; the page's error text is empty exactly when every enabled
    advanced probe succeeded; \<open>humanDuration\<close> prints fields in range below
    \<open>2^63\<close> ms and \<open>-153722867280912:-55.-808\<close> for an infinite, NaN or larger
    duration. \<open>cli_main\<close> is the command-line example of \<open>part_002\<close> (probe
    \<open>example.mp4\<close>, print the format, video and audio lines, or \<open>log.Fatal\<close>).
  \<^item> \<open>Jobs\<close>: the \<open>JobStore\<close> and the life of a job in it. The record \<open>server\<close>
    holds the store, the job goroutines still running (their remaining
    \<open>Hub.job_script\<close>), the temporary files, the armed \<open>AfterFunc\<close> timers, the
    callbacks between their two statements, and a virtual clock in seconds.
    \<open>ffmpeg_start\<close> is the \<open>POST /ffmpeg/start\<close> handler (\<open>read_start_form\<close>
    reads its fields). \<open>job_finish\<close> is the goroutine's deferred cleanup and its
    timer. \<open>evict_remove\<close> and \<open>JobStore_Delete\<close> are the two halves of the
    callback. \<open>srv_step\<close> interleaves all of these, and \<open>srv_exec\<close> is an
    executable scheduler sound for it. The invariant \<open>srv_inv\<close> is stated on two
    views: \<open>lout\<close>, the output of each stored job not yet evicting, and \<open>lin\<close>,
    the upload of each running job. It holds in every reachable state. Lemmas:
    \<^item> an output file exists until its job's eviction starts;
    \<^item> a job leaves the store only 30 minutes after it finished;
    \<^item> the server refines an abstract lifecycle (\<open>lc_step\<close>, through \<open>job_abs\<close>);
    \<^item> a download can serve a file the callback has already removed;
    \<^item> the upload of a failed copy is never removed;
    \<^item> a seek time \<open>nan\<close> reaches ffmpeg as \<open>-ss NaN\<close>.

  \<^item> \<open>JobId\<close>: \<open>newID\<close>, the job identifier: the 16-byte buffer that
    \<open>rand.Read\<close> fills (the input; zero where a short read wrote nothing) written by
    \<open>hex.EncodeToString\<close> on \<open>8 word\<close> bytes (high nibble by \<open>drop_bit 4\<close>, low
    nibble by \<open>AND 15\<close>). Lemma: an ID is 32 lower-case hexadecimal digits and
    \<open>hex.DecodeString\<close> gives the buffer back, so IDs collide only with the buffers.

  \<^bold>\<open>Bounds and fuel.\<close> No model needs fuel: every loop of the code walks a finite
  list (lines, channels, streams, arguments) and is structural recursion. The
  concrete runs use schedules of at most 38 moves; the lost-terminal run needs
  exactly 16 events (the status \<open>running\<close> and 15 progress events) to fill a
  buffer. No termination theorem is stated for the one unbounded loop, the SSE
  handler's \<open>for { select }\<close>: it ends on a terminal event or a disconnect, and
  \<open>Hub.hub_terminal_lost\<close> shows a run in which it waits forever. The job store's clock advances by any amount in one step, so the eviction
  run needs one tick of 1800 seconds.

  \<^bold>\<open>Not modelled.\<close> The processes themselves (ffmpeg, ffprobe) and the operating
  system appear only as inputs; JSON encoding and decoding, HTTP routing, HTML
  templates, multipart upload, URL parsing and temporary files are I/O the core only
  calls. \<open>Jobs\<close> takes the result of \<open>newID\<close> as an input that is fresh; that the
  128 random bits do not repeat is a probabilistic fact outside the model. The page the start handler renders reads \<open>job.Status\<close> without
  the goroutine's synchronisation; the model shows it as created. Multi-byte Unicode white space is outside the byte-level string
  model. \<open>GoLib.parse_float64\<close> keeps the exact value of the literal; the view helpers
  round it (\<open>parse_float_rounded\<close>), the start form's seek time does not, which only
  matters for its printed digits. The sign of a float zero is not kept. The
  \<open>/probe\<close> handler's one context deadline, shared by all its probes, is not
  modelled: each probe's deadline is the process's own outcome.
\<close>

end
